theory Spec2Isabelle
  imports Main "HOL-Library.Word"
begin

unbundle bit_operations_syntax

section \<open>CatFlap: the configuration record, the card decoder and the control loop\<close>

text \<open>
  A shallow embedding of \<^verbatim>\<open>src/main.cpp\<close>. Fixed-width C integers are words
  (\<open>uint8_t\<close> is \<open>8 word\<close>, \<open>uint16_t\<close> is \<open>16 word\<close>, \<open>u_long\<close> as returned
  by \<open>millis()\<close> is \<open>32 word\<close>, \<open>uint64_t\<close> is \<open>64 word\<close>); \<open>time_t\<close> values are
  seconds as \<open>int\<close>. Global and function-static variables are the fields of one record
  that every function takes and returns. The serial console written by \<open>debug()\<close> is
  left out: \<open>debug\<close> assigns no program variable.
\<close>

subsection \<open>Constants\<close>

definition MAGIC :: "32 word" where "MAGIC = 0xd41d8cd5"
definition CFG_NCATS :: nat where "CFG_NCATS = 7"

definition CFG_NTFY_ENABLE :: "8 word" where "CFG_NTFY_ENABLE = 0x01"
definition CFG_CAT_EXIT :: "8 word" where "CFG_CAT_EXIT = 0x01"
definition CFG_CAT_ENTRY :: "8 word" where "CFG_CAT_ENTRY = 0x02"

definition PIN_ENTRY_SOLENOID :: nat where "PIN_ENTRY_SOLENOID = 2"
definition PIN_EXIT_SOLENOID :: nat where "PIN_EXIT_SOLENOID = 16"

definition WEIGAND_TIMEOUT :: "32 word" where "WEIGAND_TIMEOUT = 20"
definition DOOR_TIMEOUT_DEFAULT :: int where "DOOR_TIMEOUT_DEFAULT = 60"
definition DOOR_SWING_TIMEOUT_DEFAULT :: int where "DOOR_SWING_TIMEOUT_DEFAULT = 3"

definition LOCK :: nat where "LOCK = 0"
definition OPEN :: nat where "OPEN = 1"

datatype direction = EXIT | ENTRY

definition STATE_ENTRY_WEIGAND_DONE :: "16 word" where "STATE_ENTRY_WEIGAND_DONE = 0x0001"
definition STATE_EXIT_WEIGAND_DONE :: "16 word" where "STATE_EXIT_WEIGAND_DONE = 0x0002"
definition STATE_OTA_FLASH :: "16 word" where "STATE_OTA_FLASH = 0x0004"
definition STATE_NTP_GOT_TIME :: "16 word" where "STATE_NTP_GOT_TIME = 0x0008"
definition STATE_DOOR_TRIGGER :: "16 word" where "STATE_DOOR_TRIGGER = 0x0010"
definition STATE_GOT_IP_ADDRESS :: "16 word" where "STATE_GOT_IP_ADDRESS = 0x0020"
definition STATE_BOOTUP_NTFY :: "16 word" where "STATE_BOOTUP_NTFY = 0x0040"
definition STATE_ENTRY_OPEN :: "16 word" where "STATE_ENTRY_OPEN = 0x0080"
definition STATE_EXIT_OPEN :: "16 word" where "STATE_EXIT_OPEN = 0x0100"
definition STATE_ENTRY_LOCKED_OPEN :: "16 word" where "STATE_ENTRY_LOCKED_OPEN = 0x0200"
definition STATE_EXIT_LOCKED_OPEN :: "16 word" where "STATE_EXIT_LOCKED_OPEN = 0x0400"

subsection \<open>struct cfg\<close>

text \<open>
  A \<open>char[n]\<close> member is a list of characters; \<open>NUL\<close> ends the C string it holds.
  The member \<open>cat[i].id\<close> is called \<open>cat_id\<close> and so on, since the short names are
  taken.

  The attribute \<open>packed\<close> stands on \<open>struct cfg\<close> only. It removes the padding between
  the members of \<open>struct cfg\<close>, but the element type of \<open>cat[]\<close> is a struct of its own and
  keeps the layout the compiler gives it: \<open>id\<close> is a \<open>uint16_t\<close> and is aligned to 2, so
  one padding byte follows \<open>facility\<close> (offset 85) and one follows \<open>flags\<close> (offset 89), and
  an element is 90 bytes long. The program copies and checksums these two bytes with the
  rest, so an element carries them as \<open>cat_pad0\<close> and \<open>cat_pad1\<close>.
\<close>

definition NUL :: char where "NUL = CHR 0x00"

record cat_entry =
  cat_name :: string
  cat_topic :: string
  cat_facility :: "8 word"
  cat_pad0 :: "8 word"
  cat_id :: "16 word"
  cat_flags :: "8 word"
  cat_pad1 :: "8 word"

record ntfy_settings =
  ntfy_url :: string
  ntfy_topic :: string
  ntfy_username :: string
  ntfy_password :: string

record cfg =
  magic :: "32 word"
  hostname :: string
  ssid :: string
  wpakey :: string
  ntpserver :: string
  timezone :: string
  flags :: "8 word"
  cat :: "cat_entry list"
  ntfy_conf :: ntfy_settings
  crc :: "16 word"

text \<open>What \<open>%s\<close> and \<open>strlen\<close> see of a character array: the characters before the first NUL.\<close>

definition c_str :: "string \<Rightarrow> string" where
  "c_str a = takeWhile (\<lambda>c. c \<noteq> NUL) a"

subsection \<open>The card decoder\<close>

text \<open>
  \<open>weigandDecode\<close> writes through two pointers and returns a truth value. The model takes
  the values the two outputs hold before the call and returns the truth value with the
  values they hold after it.
\<close>

definition weigandDecode :: "8 word \<Rightarrow> 16 word \<Rightarrow> 8 word \<Rightarrow> 64 word \<Rightarrow> bool \<times> 8 word \<times> 16 word" where
  "weigandDecode facilityCode cardCode bitCount dataBits =
     (if bitCount = 26
      then (True,
            ucast (drop_bit 17 (dataBits AND 0x1FE0000)),
            ucast (drop_bit 1 (dataBits AND 0x1FFFE)))
      else (False, facilityCode, cardCode))"

subsection \<open>The decoder's fields as the specification words them\<close>

text \<open>
  The specification gives the facility code as bits 23 down to 16 and the card code as
  bits 16 down to 1 of the buffer, counting the least significant bit as bit 1. Bit \<open>k\<close>
  in that count is \<open>bit w (k - 1)\<close>.
\<close>

definition claimed_facilityCode :: "64 word \<Rightarrow> 8 word" where
  "claimed_facilityCode dataBits = ucast (drop_bit 15 dataBits)"

definition claimed_cardCode :: "64 word \<Rightarrow> 16 word" where
  "claimed_cardCode dataBits = ucast dataBits"

subsection \<open>Program variables and outputs\<close>

text \<open>
  The notification sink is \<open>ntfy()\<close>. Every call of it is recorded with its topic, tags,
  priority and message; the title is always the device's host name and is left out.
  \<open>sent\<close> records whether the call went past the \<open>CFG_NTFY_ENABLE\<close> check at the top
  of \<open>ntfy\<close> and posted the message; that \<open>malloc\<close> may fail after the check is not
  modelled.
\<close>

datatype message =
    Boot_up
  | Entry_denied string
  | Entry_msg string
  | Exit_denied string
  | Exit_msg string
  | Unknown_card "8 word" "16 word"
  | Locked_open direction

record notification =
  topic :: string
  tags :: string
  priority :: "8 word"
  text_of :: message
  sent :: bool

text \<open>What the program does to its output pins, in order.\<close>

datatype pin_op =
    DigitalWrite nat nat
  | AnalogWrite nat nat
  | Delay nat

text \<open>
  The globals of the program (\<open>state\<close>, the two capture states, \<open>doorTrigger\<close>,
  \<open>catInOut\<close>, \<open>catTime\<close>, \<open>conf\<close>), the static variables of \<open>loop()\<close> (the
  two \<open>CloseAt\<close> deadlines, the two \<open>CloseTime\<close> stamps and the last credential), and
  the two output streams.
\<close>

record sys =
  state :: "16 word"
  entryDataBits :: "64 word"
  entryBitCount :: "8 word"
  entryLastBit :: "32 word"
  exitDataBits :: "64 word"
  exitBitCount :: "8 word"
  exitLastBit :: "32 word"
  doorTrigger :: "32 word"
  catInOut :: "8 word"
  catTime :: "int list"
  conf :: cfg
  entryCloseAt :: int
  exitCloseAt :: int
  entryCloseTime :: int
  exitCloseTime :: int
  lastFacilityCode :: "8 word"
  lastCardCode :: "16 word"
  ntfy_calls :: "notification list"
  pins :: "pin_op list"

definition ntfy :: "string \<Rightarrow> string \<Rightarrow> 8 word \<Rightarrow> message \<Rightarrow> sys \<Rightarrow> sys" where
  "ntfy tp tg pr msg s =
     s\<lparr>ntfy_calls := ntfy_calls s @
        [\<lparr>topic = tp, tags = tg, priority = pr, text_of = msg,
          sent = (\<not> (NOT (flags (conf s)) AND CFG_NTFY_ENABLE \<noteq> 0))\<rparr>]\<rparr>"

subsection \<open>Credential lookup\<close>

text \<open>
  The loop \<open>for (i = 0; i < CFG_NCATS; i++) if (... facility ... id ...) break;\<close> that
  \<open>catNumber\<close> and \<open>checkCard\<close> both run, started at index \<open>i\<close>. Its value is the
  \<open>i\<close> the loop ends with.
\<close>

function cat_scan :: "cat_entry list \<Rightarrow> 8 word \<Rightarrow> 16 word \<Rightarrow> nat \<Rightarrow> nat" where
  "cat_scan cats facilityCode cardCode i =
     (if i < CFG_NCATS
      then (if cat_facility (cats ! i) = facilityCode \<and> cat_id (cats ! i) = cardCode
            then i
            else cat_scan cats facilityCode cardCode (i + 1))
      else i)"
  by pat_completeness auto
termination
  by (relation "measure (\<lambda>(cats, facilityCode, cardCode, i). CFG_NCATS - i)") auto

definition catNumber :: "cfg \<Rightarrow> 8 word \<Rightarrow> 16 word \<Rightarrow> nat" where
  "catNumber c facilityCode cardCode = cat_scan (cat c) facilityCode cardCode 0"

definition catName :: "cfg \<Rightarrow> 8 word \<Rightarrow> 16 word \<Rightarrow> string" where
  "catName c facilityCode cardCode =
     (let i = catNumber c facilityCode cardCode
      in if i = CFG_NCATS then ''Unnamed'' else c_str (cat_name (cat c ! i)))"

definition catTopic :: "cfg \<Rightarrow> 8 word \<Rightarrow> 16 word \<Rightarrow> string" where
  "catTopic c facilityCode cardCode =
     (let i = catNumber c facilityCode cardCode
      in if i = CFG_NCATS \<or> length (c_str (cat_topic (cat c ! i))) = 0
         then c_str (ntfy_topic (ntfy_conf c))
         else c_str (cat_topic (cat c ! i)))"

text \<open>\<open>checkCard\<close> returns \<open>-1\<close>, \<open>0\<close> or \<open>1\<close>, and the program variables after the call.\<close>

definition checkCard :: "direction \<Rightarrow> 8 word \<Rightarrow> 16 word \<Rightarrow> sys \<Rightarrow> int \<times> sys" where
  "checkCard dir facilityCode cardCode s =
     (let i = cat_scan (cat (conf s)) facilityCode cardCode 0
      in if i = CFG_NCATS
         then (-1, ntfy (c_str (ntfy_topic (ntfy_conf (conf s)))) ''interrobang'' 3
                     (Unknown_card facilityCode cardCode) s)
         else ((if (dir = EXIT \<and> cat_flags (cat (conf s) ! i) AND CFG_CAT_EXIT \<noteq> 0) \<or>
                   (dir = ENTRY \<and> cat_flags (cat (conf s) ! i) AND CFG_CAT_ENTRY \<noteq> 0)
                then 1 else 0), s))"

subsection \<open>The decision as the specification words it\<close>

text \<open>
  A slot matches a credential when both codes are equal; a slot allows a direction when
  the direction's permission flag is set in it.
\<close>

definition cat_matches :: "8 word \<Rightarrow> 16 word \<Rightarrow> cat_entry \<Rightarrow> bool" where
  "cat_matches facilityCode cardCode e =
     (cat_facility e = facilityCode \<and> cat_id e = cardCode)"

definition cat_allows :: "direction \<Rightarrow> cat_entry \<Rightarrow> bool" where
  "cat_allows dir e =
     (case dir of
        EXIT \<Rightarrow> cat_flags e AND CFG_CAT_EXIT \<noteq> 0
      | ENTRY \<Rightarrow> cat_flags e AND CFG_CAT_ENTRY \<noteq> 0)"

subsection \<open>The two lock actuators\<close>

definition entryLock :: "sys \<Rightarrow> sys" where
  "entryLock s =
     s\<lparr>pins := pins s @ [DigitalWrite PIN_ENTRY_SOLENOID LOCK, Delay 8,
                           AnalogWrite PIN_ENTRY_SOLENOID 180, Delay 11,
                           DigitalWrite PIN_ENTRY_SOLENOID LOCK],
       state := state s AND NOT STATE_ENTRY_OPEN\<rparr>"

definition entryUnlock :: "sys \<Rightarrow> sys" where
  "entryUnlock s =
     s\<lparr>pins := pins s @ [DigitalWrite PIN_ENTRY_SOLENOID OPEN, Delay 30,
                           AnalogWrite PIN_ENTRY_SOLENOID 180],
       state := state s OR STATE_ENTRY_OPEN\<rparr>"

definition exitLock :: "sys \<Rightarrow> sys" where
  "exitLock s =
     s\<lparr>pins := pins s @ [DigitalWrite PIN_EXIT_SOLENOID LOCK, Delay 8,
                           AnalogWrite PIN_EXIT_SOLENOID 180, Delay 11,
                           DigitalWrite PIN_EXIT_SOLENOID LOCK],
       state := state s AND NOT STATE_EXIT_OPEN\<rparr>"

definition exitUnlock :: "sys \<Rightarrow> sys" where
  "exitUnlock s =
     s\<lparr>pins := pins s @ [DigitalWrite PIN_EXIT_SOLENOID OPEN, Delay 20,
                           AnalogWrite PIN_EXIT_SOLENOID 50],
       state := state s OR STATE_EXIT_OPEN\<rparr>"

subsection \<open>One pass of \<open>loop()\<close>\<close>

text \<open>
  \<open>loop()\<close> reads the millisecond counter, the clock and the door sensor at several
  places, and an interrupt or a slow call may change what the next place reads. Each
  read is therefore an input of its own, named after the place that reads it. The two
  locals \<open>facilityCode\<close> and \<open>cardCode\<close> are not initialised; what they hold on entry
  is an input too. \<open>digitalRead(PIN_DOOR_SENSOR)\<close> is \<open>True\<close> for a non-zero reading
  (door open).
\<close>

record reads =
  facilityCode0 :: "8 word"
  cardCode0 :: "16 word"
  ms_entry :: "32 word"
  ms_exit :: "32 word"
  now_entry_unlock :: int
  now_entry_cat :: int
  now_exit_unlock :: int
  now_exit_cat :: int
  now_swing_entry :: int
  now_swing_exit :: int
  now_open_entry :: int
  door_open_entry :: bool
  now_open_exit :: int
  door_open_exit :: bool
  door_relock_entry :: bool
  now_relock_entry :: int
  now_locked_entry :: int
  door_relock_exit :: bool
  now_relock_exit :: int
  now_locked_exit :: int

text \<open>The boot-up notification, sent once an address has been obtained.\<close>

definition bootupNtfy :: "sys \<Rightarrow> sys" where
  "bootupNtfy s =
     (if NOT (state s) AND STATE_BOOTUP_NTFY \<noteq> 0 \<and> state s AND STATE_GOT_IP_ADDRESS \<noteq> 0
      then (let s1 = ntfy (c_str (ntfy_topic (ntfy_conf (conf s)))) ''facepalm'' 3 Boot_up s
            in s1\<lparr>state := state s1 OR STATE_BOOTUP_NTFY\<rparr>)
      else s)"

text \<open>A frame is complete when its deadline is set and has passed.\<close>

definition entryWeigandDone :: "32 word \<Rightarrow> sys \<Rightarrow> sys" where
  "entryWeigandDone ms s =
     (if entryLastBit s \<noteq> 0 \<and> entryLastBit s \<le> ms
      then s\<lparr>state := state s OR STATE_ENTRY_WEIGAND_DONE\<rparr> else s)"

definition exitWeigandDone :: "32 word \<Rightarrow> sys \<Rightarrow> sys" where
  "exitWeigandDone ms s =
     (if exitLastBit s \<noteq> 0 \<and> exitLastBit s \<le> ms
      then s\<lparr>state := state s OR STATE_EXIT_WEIGAND_DONE\<rparr> else s)"

text \<open>The four assignments that end the processing of a frame.\<close>

definition entryReset :: "sys \<Rightarrow> sys" where
  "entryReset s =
     s\<lparr>entryBitCount := 0, entryDataBits := 0, entryLastBit := 0,
       state := state s AND NOT STATE_ENTRY_WEIGAND_DONE\<rparr>"

definition exitReset :: "sys \<Rightarrow> sys" where
  "exitReset s =
     s\<lparr>exitBitCount := 0, exitDataBits := 0, exitLastBit := 0,
       state := state s AND NOT STATE_EXIT_WEIGAND_DONE\<rparr>"

text \<open>\<open>case 1\<close> of the two switches: the card is allowed.\<close>

definition entryPermitted :: "int \<Rightarrow> int \<Rightarrow> 8 word \<Rightarrow> 16 word \<Rightarrow> sys \<Rightarrow> sys" where
  "entryPermitted now_unlock now_cat facilityCode cardCode s =
     (let s1 = entryUnlock s;
          s2 = s1\<lparr>entryCloseAt := now_unlock + DOOR_TIMEOUT_DEFAULT\<rparr>;
          s3 = (if lastFacilityCode s2 \<noteq> facilityCode \<and> lastCardCode s2 \<noteq> cardCode
                then (let s4 = ntfy (catTopic (conf s2) facilityCode cardCode) ''unlock,arrow_left'' 3
                                 (Entry_msg (catName (conf s2) facilityCode cardCode)) s2;
                          catNum = catNumber (conf s4) facilityCode cardCode
                      in if catNum < CFG_NCATS
                         then s4\<lparr>catTime := (catTime s4)[catNum := now_cat],
                                 catInOut := catInOut s4 OR push_bit catNum 1\<rparr>
                         else s4)
                else s2)
      in s3\<lparr>lastFacilityCode := facilityCode, lastCardCode := cardCode\<rparr>)"

definition exitPermitted :: "int \<Rightarrow> int \<Rightarrow> 8 word \<Rightarrow> 16 word \<Rightarrow> sys \<Rightarrow> sys" where
  "exitPermitted now_unlock now_cat facilityCode cardCode s =
     (let s1 = exitUnlock s;
          s2 = s1\<lparr>exitCloseAt := now_unlock + DOOR_TIMEOUT_DEFAULT\<rparr>;
          s3 = (if lastFacilityCode s2 \<noteq> facilityCode \<and> lastCardCode s2 \<noteq> cardCode
                then (let s4 = ntfy (catTopic (conf s2) facilityCode cardCode) ''arrow_right,unlock'' 3
                                 (Exit_msg (catName (conf s2) facilityCode cardCode)) s2;
                          catNum = catNumber (conf s4) facilityCode cardCode
                      in if catNum < CFG_NCATS
                         then s4\<lparr>catTime := (catTime s4)[catNum := now_cat],
                                 catInOut := catInOut s4 AND NOT (push_bit catNum 1)\<rparr>
                         else s4)
                else s2)
      in s3\<lparr>lastFacilityCode := facilityCode, lastCardCode := cardCode\<rparr>)"

text \<open>
  The block \<open>if (state & STATE_ENTRY_WEIGAND_DONE) { ... }\<close> and its twin. Each takes
  the two locals and returns them with the program variables.
\<close>

definition entryFrame ::
    "int \<Rightarrow> int \<Rightarrow> 8 word \<times> 16 word \<Rightarrow> sys \<Rightarrow> (8 word \<times> 16 word) \<times> sys" where
  "entryFrame now_unlock now_cat loc s =
     (if state s AND STATE_ENTRY_WEIGAND_DONE \<noteq> 0
      then (case weigandDecode (fst loc) (snd loc) (entryBitCount s) (entryDataBits s) of
              (ok, facilityCode, cardCode) \<Rightarrow>
                ((facilityCode, cardCode),
                 entryReset
                   (if ok \<and> NOT (state s) AND STATE_EXIT_OPEN \<noteq> 0
                    then (case checkCard ENTRY facilityCode cardCode s of
                            (r, s1) \<Rightarrow>
                              if r = 0
                              then ntfy (catTopic (conf s1) facilityCode cardCode) ''stop_sign'' 3
                                     (Entry_denied (catName (conf s1) facilityCode cardCode)) s1
                              else if r = 1
                              then entryPermitted now_unlock now_cat facilityCode cardCode s1
                              else s1)
                    else s)))
      else (loc, s))"

definition exitFrame ::
    "int \<Rightarrow> int \<Rightarrow> 8 word \<times> 16 word \<Rightarrow> sys \<Rightarrow> (8 word \<times> 16 word) \<times> sys" where
  "exitFrame now_unlock now_cat loc s =
     (if state s AND STATE_EXIT_WEIGAND_DONE \<noteq> 0
      then (case weigandDecode (fst loc) (snd loc) (exitBitCount s) (exitDataBits s) of
              (ok, facilityCode, cardCode) \<Rightarrow>
                ((facilityCode, cardCode),
                 exitReset
                   (if ok \<and> NOT (state s) AND STATE_ENTRY_OPEN \<noteq> 0
                    then (case checkCard EXIT facilityCode cardCode s of
                            (r, s1) \<Rightarrow>
                              if r = 0
                              then ntfy (catTopic (conf s1) facilityCode cardCode) ''stop_sign'' 3
                                     (Exit_denied (catName (conf s1) facilityCode cardCode)) s1
                              else if r = 1
                              then exitPermitted now_unlock now_cat facilityCode cardCode s1
                              else s1)
                    else s)))
      else (loc, s))"

text \<open>The block \<open>if (state & STATE_DOOR_TRIGGER) { ... }\<close>.\<close>

definition doorSwing :: "int \<Rightarrow> int \<Rightarrow> sys \<Rightarrow> sys" where
  "doorSwing now_entry now_exit s =
     (if state s AND STATE_DOOR_TRIGGER \<noteq> 0
      then (let s1 = (if state s AND STATE_ENTRY_OPEN \<noteq> 0
                      then s\<lparr>entryCloseAt := now_entry + DOOR_SWING_TIMEOUT_DEFAULT\<rparr> else s);
                s2 = (if state s1 AND STATE_EXIT_OPEN \<noteq> 0
                      then s1\<lparr>exitCloseAt := now_exit + DOOR_SWING_TIMEOUT_DEFAULT\<rparr> else s1)
            in s2\<lparr>state := state s2 AND NOT STATE_DOOR_TRIGGER\<rparr>)
      else s)"

text \<open>The two locked-open checks and the delay that follows them.\<close>

definition entryLockedOpen :: "int \<Rightarrow> bool \<Rightarrow> sys \<Rightarrow> sys" where
  "entryLockedOpen now door s =
     (if NOT (state s) AND STATE_ENTRY_OPEN \<noteq> 0 \<and> NOT (state s) AND STATE_ENTRY_LOCKED_OPEN \<noteq> 0 \<and>
         now - entryCloseTime s < 2 \<and> door
      then (let s1 = entryUnlock s;
                s2 = ntfy (c_str (ntfy_topic (ntfy_conf (conf s1)))) ''lock,unlock'' 3
                       (Locked_open ENTRY) s1
            in s2\<lparr>state := state s2 OR STATE_ENTRY_LOCKED_OPEN\<rparr>)
      else s)"

definition exitLockedOpen :: "int \<Rightarrow> bool \<Rightarrow> sys \<Rightarrow> sys" where
  "exitLockedOpen now door s =
     (if NOT (state s) AND STATE_EXIT_OPEN \<noteq> 0 \<and> NOT (state s) AND STATE_EXIT_LOCKED_OPEN \<noteq> 0 \<and>
         now - exitCloseTime s < 2 \<and> door
      then (let s1 = exitUnlock s;
                s2 = ntfy (c_str (ntfy_topic (ntfy_conf (conf s1)))) ''lock,unlock'' 3
                       (Locked_open EXIT) s1
            in s2\<lparr>state := state s2 OR STATE_EXIT_LOCKED_OPEN\<rparr>)
      else s)"

definition lockedOpenDelay :: "sys \<Rightarrow> sys" where
  "lockedOpenDelay s =
     (if state s AND (STATE_ENTRY_LOCKED_OPEN OR STATE_EXIT_LOCKED_OPEN) \<noteq> 0
      then s\<lparr>pins := pins s @ [Delay 500]\<rparr> else s)"

text \<open>The two re-lock blocks.\<close>

definition entryRelock :: "bool \<Rightarrow> int \<Rightarrow> int \<Rightarrow> sys \<Rightarrow> sys" where
  "entryRelock door now now_locked s =
     (if state s AND STATE_ENTRY_OPEN \<noteq> 0 \<and> \<not> door \<and> entryCloseAt s < now
      then (let s1 = entryLock s;
                s2 = s1\<lparr>lastFacilityCode := 0, lastCardCode := 0\<rparr>;
                s3 = (if NOT (state s2) AND STATE_ENTRY_LOCKED_OPEN \<noteq> 0
                      then s2\<lparr>entryCloseTime := now_locked\<rparr> else s2);
                s4 = s3\<lparr>entryCloseAt := 0\<rparr>
            in s4\<lparr>state := state s4 AND (NOT STATE_ENTRY_OPEN AND NOT STATE_ENTRY_LOCKED_OPEN)\<rparr>)
      else s)"

definition exitRelock :: "bool \<Rightarrow> int \<Rightarrow> int \<Rightarrow> sys \<Rightarrow> sys" where
  "exitRelock door now now_locked s =
     (if state s AND STATE_EXIT_OPEN \<noteq> 0 \<and> \<not> door \<and> exitCloseAt s < now
      then (let s1 = exitLock s;
                s2 = s1\<lparr>lastFacilityCode := 0, lastCardCode := 0\<rparr>;
                s3 = (if NOT (state s2) AND STATE_EXIT_LOCKED_OPEN \<noteq> 0
                      then s2\<lparr>exitCloseTime := now_locked\<rparr> else s2);
                s4 = s3\<lparr>exitCloseAt := 0\<rparr>
            in s4\<lparr>state := state s4 AND (NOT STATE_EXIT_OPEN AND NOT STATE_EXIT_LOCKED_OPEN)\<rparr>)
      else s)"

text \<open>
  The body of \<open>loop()\<close> after the calls that serve the update and web collaborators:
  lines 281 to 350 up to the end of frame processing, then the door trigger, the
  locked-open checks and the re-lock blocks.
\<close>

definition loop_frames :: "reads \<Rightarrow> sys \<Rightarrow> sys" where
  "loop_frames r s =
     (let s1 = exitWeigandDone (ms_exit r) (entryWeigandDone (ms_entry r) (bootupNtfy s));
          e = entryFrame (now_entry_unlock r) (now_entry_cat r) (facilityCode0 r, cardCode0 r) s1;
          x = exitFrame (now_exit_unlock r) (now_exit_cat r) (fst e) (snd e)
      in snd x)"

definition loop_locks :: "reads \<Rightarrow> sys \<Rightarrow> sys" where
  "loop_locks r s =
     exitRelock (door_relock_exit r) (now_relock_exit r) (now_locked_exit r)
       (entryRelock (door_relock_entry r) (now_relock_entry r) (now_locked_entry r)
         (lockedOpenDelay
           (exitLockedOpen (now_open_exit r) (door_open_exit r)
             (entryLockedOpen (now_open_entry r) (door_open_entry r) s))))"

definition loop :: "reads \<Rightarrow> sys \<Rightarrow> sys" where
  "loop r s =
     loop_locks r (doorSwing (now_swing_entry r) (now_swing_exit r) (loop_frames r s))"

subsection \<open>Interrupt handlers and callbacks\<close>

definition ISR_ENTRY_D0 :: "32 word \<Rightarrow> sys \<Rightarrow> sys" where
  "ISR_ENTRY_D0 ms s =
     (if NOT (state s) AND STATE_ENTRY_WEIGAND_DONE \<noteq> 0
      then s\<lparr>entryLastBit := ms + WEIGAND_TIMEOUT,
             entryBitCount := entryBitCount s + 1,
             entryDataBits := push_bit 1 (entryDataBits s)\<rparr>
      else s)"

definition ISR_ENTRY_D1 :: "32 word \<Rightarrow> sys \<Rightarrow> sys" where
  "ISR_ENTRY_D1 ms s =
     (if NOT (state s) AND STATE_ENTRY_WEIGAND_DONE \<noteq> 0
      then s\<lparr>entryLastBit := ms + WEIGAND_TIMEOUT,
             entryBitCount := entryBitCount s + 1,
             entryDataBits := push_bit 1 (entryDataBits s) OR 1\<rparr>
      else s)"

definition ISR_EXIT_D0 :: "32 word \<Rightarrow> sys \<Rightarrow> sys" where
  "ISR_EXIT_D0 ms s =
     (if NOT (state s) AND STATE_EXIT_WEIGAND_DONE \<noteq> 0
      then s\<lparr>exitLastBit := ms + WEIGAND_TIMEOUT,
             exitBitCount := exitBitCount s + 1,
             exitDataBits := push_bit 1 (exitDataBits s)\<rparr>
      else s)"

definition ISR_EXIT_D1 :: "32 word \<Rightarrow> sys \<Rightarrow> sys" where
  "ISR_EXIT_D1 ms s =
     (if NOT (state s) AND STATE_EXIT_WEIGAND_DONE \<noteq> 0
      then s\<lparr>exitLastBit := ms + WEIGAND_TIMEOUT,
             exitBitCount := exitBitCount s + 1,
             exitDataBits := push_bit 1 (exitDataBits s) OR 1\<rparr>
      else s)"

definition ISR_DOOR :: "32 word \<Rightarrow> sys \<Rightarrow> sys" where
  "ISR_DOOR ms s = s\<lparr>doorTrigger := ms, state := state s OR STATE_DOOR_TRIGGER\<rparr>"

text \<open>
  Everything that assigns a program variable of the model, as one event each: a pass of
  \<open>loop()\<close>, the five interrupt handlers (with the \<open>millis()\<close> they read), the network,
  update and time callbacks that set or clear a bit of \<open>state\<close>, and \<open>handleSave\<close>,
  which replaces the configuration. Interrupts are taken between passes; the handlers
  write only the capture state of their channel, \<open>doorTrigger\<close> and the door-trigger flag.
\<close>

datatype event =
    Pass reads
  | Entry_D0 "32 word"
  | Entry_D1 "32 word"
  | Exit_D0 "32 word"
  | Exit_D1 "32 word"
  | Door "32 word"
  | Got_IP
  | Disconnected
  | Ota_end
  | Ota_error
  | Ntp_sync
  | Saved cfg

fun step :: "event \<Rightarrow> sys \<Rightarrow> sys" where
  "step (Pass r) s = loop r s"
| "step (Entry_D0 ms) s = ISR_ENTRY_D0 ms s"
| "step (Entry_D1 ms) s = ISR_ENTRY_D1 ms s"
| "step (Exit_D0 ms) s = ISR_EXIT_D0 ms s"
| "step (Exit_D1 ms) s = ISR_EXIT_D1 ms s"
| "step (Door ms) s = ISR_DOOR ms s"
| "step Got_IP s = s\<lparr>state := state s OR STATE_GOT_IP_ADDRESS\<rparr>"
| "step Disconnected s = s\<lparr>state := state s AND NOT STATE_GOT_IP_ADDRESS\<rparr>"
| "step Ota_end s = s\<lparr>state := state s OR STATE_OTA_FLASH\<rparr>"
| "step Ota_error s = s\<lparr>state := state s AND NOT STATE_OTA_FLASH\<rparr>"
| "step Ntp_sync s = s\<lparr>state := state s OR STATE_NTP_GOT_TIME\<rparr>"
| "step (Saved c) s = s\<lparr>conf := c\<rparr>"

text \<open>
  The program variables when \<open>setup()\<close> returns with configuration \<open>c\<close>: all zero, both
  solenoid pins written low.
\<close>

definition boot :: "cfg \<Rightarrow> sys" where
  "boot c =
     \<lparr>state = 0,
      entryDataBits = 0, entryBitCount = 0, entryLastBit = 0,
      exitDataBits = 0, exitBitCount = 0, exitLastBit = 0,
      doorTrigger = 0, catInOut = 0, catTime = replicate CFG_NCATS 0, conf = c,
      entryCloseAt = 0, exitCloseAt = 0, entryCloseTime = 0, exitCloseTime = 0,
      lastFacilityCode = 0, lastCardCode = 0,
      ntfy_calls = [],
      pins = [DigitalWrite PIN_ENTRY_SOLENOID 0, DigitalWrite PIN_EXIT_SOLENOID 0]\<rparr>"

definition run :: "event list \<Rightarrow> sys \<Rightarrow> sys" where
  "run evs s = fold step evs s"

subsection \<open>Reading the lock state off the flags\<close>

datatype lock_state = Locked | Unlocked | LockedOpen

definition entry_lock :: "sys \<Rightarrow> lock_state" where
  "entry_lock s =
     (if state s AND STATE_ENTRY_LOCKED_OPEN \<noteq> 0 then LockedOpen
      else if state s AND STATE_ENTRY_OPEN \<noteq> 0 then Unlocked else Locked)"

definition exit_lock :: "sys \<Rightarrow> lock_state" where
  "exit_lock s =
     (if state s AND STATE_EXIT_LOCKED_OPEN \<noteq> 0 then LockedOpen
      else if state s AND STATE_EXIT_OPEN \<noteq> 0 then Unlocked else Locked)"

subsection \<open>State predicates\<close>

text \<open>A direction's locked-open flag is only set together with its open flag.\<close>

definition open_flags_ok :: "sys \<Rightarrow> bool" where
  "open_flags_ok s =
     ((state s AND STATE_ENTRY_LOCKED_OPEN \<noteq> 0 \<longrightarrow> state s AND STATE_ENTRY_OPEN \<noteq> 0) \<and>
      (state s AND STATE_EXIT_LOCKED_OPEN \<noteq> 0 \<longrightarrow> state s AND STATE_EXIT_OPEN \<noteq> 0))"

text \<open>At most one of the two locks is away from \<open>Locked\<close>.\<close>

definition one_open :: "sys \<Rightarrow> bool" where
  "one_open s = (entry_lock s = Locked \<or> exit_lock s = Locked)"

subsection \<open>Capture state\<close>

text \<open>
  The capture state of a channel is its bit buffer, its bit count and its deadline; the
  deadline 0 stands for "none". A frame is ready for a pass when its done flag is already
  set or the pass finds the deadline set and passed.
\<close>

definition entry_capture :: "sys \<Rightarrow> 64 word \<times> 8 word \<times> 32 word" where
  "entry_capture s = (entryDataBits s, entryBitCount s, entryLastBit s)"

definition exit_capture :: "sys \<Rightarrow> 64 word \<times> 8 word \<times> 32 word" where
  "exit_capture s = (exitDataBits s, exitBitCount s, exitLastBit s)"

definition entry_frame_ready :: "reads \<Rightarrow> sys \<Rightarrow> bool" where
  "entry_frame_ready r s =
     (state s AND STATE_ENTRY_WEIGAND_DONE \<noteq> 0 \<or>
      entryLastBit s \<noteq> 0 \<and> entryLastBit s \<le> ms_entry r)"

definition exit_frame_ready :: "reads \<Rightarrow> sys \<Rightarrow> bool" where
  "exit_frame_ready r s =
     (state s AND STATE_EXIT_WEIGAND_DONE \<noteq> 0 \<or>
      exitLastBit s \<noteq> 0 \<and> exitLastBit s \<le> ms_exit r)"

subsection \<open>What a pass did to one direction\<close>

text \<open>
  The writes to one solenoid pin among the pin operations so far, and the locked-open
  notifications for one direction among the calls of the notification sink so far.
\<close>

definition on_pin :: "nat \<Rightarrow> pin_op \<Rightarrow> bool" where
  "on_pin p op =
     (case op of DigitalWrite q v \<Rightarrow> q = p | AnalogWrite q v \<Rightarrow> q = p | Delay ms \<Rightarrow> False)"

definition entry_pulses :: "sys \<Rightarrow> pin_op list" where
  "entry_pulses s = filter (on_pin PIN_ENTRY_SOLENOID) (pins s)"

definition exit_pulses :: "sys \<Rightarrow> pin_op list" where
  "exit_pulses s = filter (on_pin PIN_EXIT_SOLENOID) (pins s)"

definition locked_open_notes :: "direction \<Rightarrow> sys \<Rightarrow> notification list" where
  "locked_open_notes dir s = filter (\<lambda>n. text_of n = Locked_open dir) (ntfy_calls s)"

subsection \<open>Cards admitted by a pass\<close>

text \<open>
  A pass admits a card at a reader when the frame block of that direction reaches
  \<open>case 1\<close> of its switch: a frame is ready, it decodes, the other direction's open flag is
  clear and \<open>checkCard\<close> returns 1. Both predicates are stated on the program variables
  at the start of the pass. The exit block runs after the entry block and tests the entry
  open flag as the entry block has left it, so it admits nothing in a pass that admits an
  entry card. The two locals matter to the decoder only when it fails.
\<close>

definition entry_admitted :: "reads \<Rightarrow> sys \<Rightarrow> bool" where
  "entry_admitted r s =
     (entry_frame_ready r s \<and>
      (case weigandDecode (facilityCode0 r) (cardCode0 r) (entryBitCount s) (entryDataBits s) of
         (ok, facilityCode, cardCode) \<Rightarrow>
           ok \<and> NOT (state s) AND STATE_EXIT_OPEN \<noteq> 0 \<and>
           fst (checkCard ENTRY facilityCode cardCode s) = 1))"

definition exit_admitted :: "reads \<Rightarrow> sys \<Rightarrow> bool" where
  "exit_admitted r s =
     (exit_frame_ready r s \<and>
      (case weigandDecode (facilityCode0 r) (cardCode0 r) (exitBitCount s) (exitDataBits s) of
         (ok, facilityCode, cardCode) \<Rightarrow>
           ok \<and> NOT (state s) AND STATE_ENTRY_OPEN \<noteq> 0 \<and> \<not> entry_admitted r s \<and>
           fst (checkCard EXIT facilityCode cardCode s) = 1))"

subsection \<open>Inside a pass\<close>

text \<open>
  The program variables when a pass reaches its locked-open checks (line 362), after the
  entry check (line 368) and after both (line 374); \<open>loop\<close> is the delay and the two
  re-lock blocks applied to the last.
\<close>

definition before_checks :: "reads \<Rightarrow> sys \<Rightarrow> sys" where
  "before_checks r s = doorSwing (now_swing_entry r) (now_swing_exit r) (loop_frames r s)"

definition after_entry_check :: "reads \<Rightarrow> sys \<Rightarrow> sys" where
  "after_entry_check r s =
     entryLockedOpen (now_open_entry r) (door_open_entry r) (before_checks r s)"

definition after_checks :: "reads \<Rightarrow> sys \<Rightarrow> sys" where
  "after_checks r s =
     exitLockedOpen (now_open_exit r) (door_open_exit r) (after_entry_check r s)"

text \<open>The conditions of the two checks, each on the program variables it is evaluated on.\<close>

definition entry_check_fires :: "reads \<Rightarrow> sys \<Rightarrow> bool" where
  "entry_check_fires r s =
     (NOT (state (before_checks r s)) AND STATE_ENTRY_OPEN \<noteq> 0 \<and>
      NOT (state (before_checks r s)) AND STATE_ENTRY_LOCKED_OPEN \<noteq> 0 \<and>
      now_open_entry r - entryCloseTime (before_checks r s) < 2 \<and> door_open_entry r)"

definition exit_check_fires :: "reads \<Rightarrow> sys \<Rightarrow> bool" where
  "exit_check_fires r s =
     (NOT (state (after_entry_check r s)) AND STATE_EXIT_OPEN \<noteq> 0 \<and>
      NOT (state (after_entry_check r s)) AND STATE_EXIT_LOCKED_OPEN \<noteq> 0 \<and>
      now_open_exit r - exitCloseTime (after_entry_check r s) < 2 \<and> door_open_exit r)"

text \<open>
  A locked-open check of the pass fires while the lock of the other direction is away
  from \<open>Locked\<close>.
\<close>

definition cross_detection :: "reads \<Rightarrow> sys \<Rightarrow> bool" where
  "cross_detection r s =
     (entry_check_fires r s \<and> exit_lock (before_checks r s) \<noteq> Locked \<or>
      exit_check_fires r s \<and> entry_lock (after_entry_check r s) \<noteq> Locked)"

text \<open>The conditions of the two re-lock blocks, each on the program variables it is evaluated on.\<close>

definition entry_relocks :: "reads \<Rightarrow> sys \<Rightarrow> bool" where
  "entry_relocks r s =
     (let x = lockedOpenDelay (after_checks r s)
      in state x AND STATE_ENTRY_OPEN \<noteq> 0 \<and> \<not> door_relock_entry r \<and>
         entryCloseAt x < now_relock_entry r)"

definition exit_relocks :: "reads \<Rightarrow> sys \<Rightarrow> bool" where
  "exit_relocks r s =
     (let y = entryRelock (door_relock_entry r) (now_relock_entry r) (now_locked_entry r)
                (lockedOpenDelay (after_checks r s))
      in state y AND STATE_EXIT_OPEN \<noteq> 0 \<and> \<not> door_relock_exit r \<and>
         exitCloseAt y < now_relock_exit r)"

text \<open>
  A history, started in a state, in which no locked-open check fires while the lock of the
  other direction is away from \<open>Locked\<close>.
\<close>

fun detection_apart :: "event \<Rightarrow> sys \<Rightarrow> bool" where
  "detection_apart (Pass r) s = (\<not> cross_detection r s)"
| "detection_apart e s = True"

fun detections_apart :: "event list \<Rightarrow> sys \<Rightarrow> bool" where
  "detections_apart [] s = True"
| "detections_apart (e # evs) s = (detection_apart e s \<and> detections_apart evs (step e s))"

text \<open>
  At most one lock is away from \<open>Locked\<close> at every point of a history started in a state:
  at the start, after each event, and inside each pass after its two locked-open checks,
  where every lock that the pass has found open or has opened is open.
\<close>

fun never_both_open :: "event list \<Rightarrow> sys \<Rightarrow> bool" where
  "never_both_open [] s = one_open s"
| "never_both_open (Pass r # evs) s =
     (one_open s \<and> one_open (after_checks r s) \<and> never_both_open evs (loop r s))"
| "never_both_open (e # evs) s = (one_open s \<and> never_both_open evs (step e s))"

subsection \<open>The configuration in the EEPROM\<close>

text \<open>
  The bytes of \<open>struct cfg\<close>: its members in order with nothing between them, each of
  the seven \<open>cat[]\<close> elements with its two padding bytes; the integers are stored least
  significant byte first, as on the ESP8266. The members before \<open>cat\<close> take 262 bytes,
  element \<open>i\<close> starts at \<open>262 + 90 * i\<close>, \<open>ntfy\<close> at 892 and \<open>crc\<close> at 1052, and
  \<open>sizeof(struct cfg)\<close> is 1054.
\<close>

definition sizeof_cfg :: nat where "sizeof_cfg = 1054"

definition byte_of_char :: "char \<Rightarrow> 8 word" where
  "byte_of_char c = word_of_nat (of_char c)"

definition char_of_byte :: "8 word \<Rightarrow> char" where
  "char_of_byte b = char_of (unat b)"

definition le16 :: "16 word \<Rightarrow> 8 word list" where
  "le16 w = [ucast w, ucast (drop_bit 8 w)]"

definition le32 :: "32 word \<Rightarrow> 8 word list" where
  "le32 w = [ucast w, ucast (drop_bit 8 w), ucast (drop_bit 16 w), ucast (drop_bit 24 w)]"

definition of_le16 :: "8 word list \<Rightarrow> 16 word" where
  "of_le16 bs = ucast (bs ! 0) OR push_bit 8 (ucast (bs ! 1))"

definition of_le32 :: "8 word list \<Rightarrow> 32 word" where
  "of_le32 bs = ucast (bs ! 0) OR push_bit 8 (ucast (bs ! 1)) OR
                push_bit 16 (ucast (bs ! 2)) OR push_bit 24 (ucast (bs ! 3))"

definition cat_bytes :: "cat_entry \<Rightarrow> 8 word list" where
  "cat_bytes e =
     map byte_of_char (cat_name e) @ map byte_of_char (cat_topic e) @
     [cat_facility e] @ [cat_pad0 e] @ le16 (cat_id e) @ [cat_flags e] @ [cat_pad1 e]"

definition cat_of_bytes :: "8 word list \<Rightarrow> cat_entry" where
  "cat_of_bytes bs =
     \<lparr>cat_name = map char_of_byte (take 20 bs),
      cat_topic = map char_of_byte (take 64 (drop 20 bs)),
      cat_facility = bs ! 84,
      cat_pad0 = bs ! 85,
      cat_id = of_le16 (take 2 (drop 86 bs)),
      cat_flags = bs ! 88,
      cat_pad1 = bs ! 89\<rparr>"

definition ntfy_bytes :: "ntfy_settings \<Rightarrow> 8 word list" where
  "ntfy_bytes n =
     map byte_of_char (ntfy_url n) @ map byte_of_char (ntfy_topic n) @
     map byte_of_char (ntfy_username n) @ map byte_of_char (ntfy_password n)"

definition ntfy_of_bytes :: "8 word list \<Rightarrow> ntfy_settings" where
  "ntfy_of_bytes bs =
     \<lparr>ntfy_url = map char_of_byte (take 64 bs),
      ntfy_topic = map char_of_byte (take 64 (drop 64 bs)),
      ntfy_username = map char_of_byte (take 16 (drop 128 bs)),
      ntfy_password = map char_of_byte (take 16 (drop 144 bs))\<rparr>"

definition cfg_bytes :: "cfg \<Rightarrow> 8 word list" where
  "cfg_bytes c =
     le32 (magic c) @ map byte_of_char (hostname c) @ map byte_of_char (ssid c) @
     map byte_of_char (wpakey c) @ map byte_of_char (ntpserver c) @
     map byte_of_char (timezone c) @ [flags c] @ concat (map cat_bytes (cat c)) @
     ntfy_bytes (ntfy_conf c) @ le16 (crc c)"

definition cfg_of_bytes :: "8 word list \<Rightarrow> cfg" where
  "cfg_of_bytes bs =
     \<lparr>magic = of_le32 (take 4 bs),
      hostname = map char_of_byte (take 33 (drop 4 bs)),
      ssid = map char_of_byte (take 64 (drop 37 bs)),
      wpakey = map char_of_byte (take 64 (drop 101 bs)),
      ntpserver = map char_of_byte (take 64 (drop 165 bs)),
      timezone = map char_of_byte (take 32 (drop 229 bs)),
      flags = bs ! 261,
      cat = map (\<lambda>i. cat_of_bytes (take 90 (drop (262 + 90 * i) bs))) [0..<CFG_NCATS],
      ntfy_conf = ntfy_of_bytes (take 160 (drop 892 bs)),
      crc = of_le16 (take 2 (drop 1052 bs))\<rparr>"

text \<open>
  The EEPROM library keeps a byte buffer that \<open>read\<close> and \<open>write\<close> work on, and
  \<open>commit\<close> copies the buffer to the flash. A read outside the buffer gives 0 and a
  write outside it does nothing. The checksum \<open>CRC16.ccitt\<close> belongs to the FastCRC
  library; the functions that use it take it as the parameter \<open>ccitt\<close>.
\<close>

record eeprom =
  data :: "8 word list"
  flash :: "8 word list"

definition EEPROM_read :: "eeprom \<Rightarrow> nat \<Rightarrow> 8 word" where
  "EEPROM_read ee i = (if i < length (data ee) then data ee ! i else 0)"

definition EEPROM_write :: "nat \<Rightarrow> 8 word \<Rightarrow> eeprom \<Rightarrow> eeprom" where
  "EEPROM_write i v ee = ee\<lparr>data := (data ee)[i := v]\<rparr>"

definition EEPROM_commit :: "eeprom \<Rightarrow> eeprom" where
  "EEPROM_commit ee = ee\<lparr>flash := data ee\<rparr>"

text \<open>
  \<open>strcpy\<close> into a character array that has room for the string and its NUL, and
  \<open>String::toCharArray\<close>, which copies at most \<open>bufsize - 1\<close> characters and ends them
  with a NUL.
\<close>

definition strcpy :: "string \<Rightarrow> string \<Rightarrow> string" where
  "strcpy dst src = src @ [NUL] @ drop (length src + 1) dst"

definition toCharArray :: "string \<Rightarrow> string \<Rightarrow> nat \<Rightarrow> string" where
  "toCharArray str buf bufsize =
     (let n = min (bufsize - 1) (length str)
      in take n str @ [NUL] @ drop (n + 1) buf)"

text \<open>The record after \<open>memset(&conf, '\0', sizeof(conf))\<close>: every byte zero, the padding too.\<close>

definition zero_cfg :: cfg where
  "zero_cfg =
     \<lparr>magic = 0, hostname = replicate 33 NUL, ssid = replicate 64 NUL,
      wpakey = replicate 64 NUL, ntpserver = replicate 64 NUL, timezone = replicate 32 NUL,
      flags = 0,
      cat = replicate CFG_NCATS
              \<lparr>cat_name = replicate 20 NUL, cat_topic = replicate 64 NUL,
               cat_facility = 0, cat_pad0 = 0, cat_id = 0, cat_flags = 0, cat_pad1 = 0\<rparr>,
      ntfy_conf = \<lparr>ntfy_url = replicate 64 NUL, ntfy_topic = replicate 64 NUL,
                   ntfy_username = replicate 16 NUL, ntfy_password = replicate 16 NUL\<rparr>,
      crc = 0\<rparr>"

text \<open>\<open>configDefault\<close>; \<open>mac\<close> is the text \<open>WiFi.macAddress()\<close> returns.\<close>

definition configDefault :: "string \<Rightarrow> cfg" where
  "configDefault mac =
     (let c0 = zero_cfg;
          c1 = c0\<lparr>hostname := toCharArray mac (hostname c0) 32\<rparr>;
          c2 = c1\<lparr>magic := MAGIC\<rparr>;
          c3 = c2\<lparr>timezone := strcpy (timezone c2) ''EST5EDT,M3.2.0,M11.1.0''\<rparr>;
          c4 = c3\<lparr>ssid := strcpy (ssid c3) []\<rparr>;
          c5 = c4\<lparr>wpakey := strcpy (wpakey c4) []\<rparr>
      in c5\<lparr>ntpserver := strcpy (ntpserver c5) ''pool.ntp.org''\<rparr>)"

definition configSave :: "(8 word list \<Rightarrow> 16 word) \<Rightarrow> cfg \<Rightarrow> eeprom \<Rightarrow> cfg \<times> eeprom" where
  "configSave ccitt c ee =
     (let c1 = c\<lparr>crc := ccitt (take (sizeof_cfg - 2) (cfg_bytes c))\<rparr>;
          ee1 = fold (\<lambda>i e. EEPROM_write i (cfg_bytes c1 ! i) e) [0..<sizeof_cfg] ee
      in (c1, EEPROM_commit ee1))"

definition configInit :: "(8 word list \<Rightarrow> 16 word) \<Rightarrow> string \<Rightarrow> eeprom \<Rightarrow> cfg \<times> eeprom" where
  "configInit ccitt mac ee =
     (let c = cfg_of_bytes (map (EEPROM_read ee) [0..<sizeof_cfg])
      in if magic c \<noteq> MAGIC \<or> crc c \<noteq> ccitt (take (sizeof_cfg - 2) (cfg_bytes c))
         then configSave ccitt (configDefault mac) ee
         else (c, ee))"

text \<open>
  The integrity check of \<open>configInit\<close> as a predicate of a record, and a checksum to run
  the functions with: CRC-16 with polynomial \<open>0x1021\<close> and start value \<open>0xFFFF\<close>, most
  significant bit first.
\<close>

definition cfg_intact :: "(8 word list \<Rightarrow> 16 word) \<Rightarrow> cfg \<Rightarrow> bool" where
  "cfg_intact ccitt c =
     (magic c = MAGIC \<and> crc c = ccitt (take (sizeof_cfg - 2) (cfg_bytes c)))"

definition crc16_bit :: "16 word \<Rightarrow> 16 word" where
  "crc16_bit w = (if bit w 15 then push_bit 1 w XOR 0x1021 else push_bit 1 w)"

definition crc16_byte :: "8 word \<Rightarrow> 16 word \<Rightarrow> 16 word" where
  "crc16_byte b w = (crc16_bit ^^ 8) (w XOR push_bit 8 (ucast b))"

definition crc16_ccitt :: "8 word list \<Rightarrow> 16 word" where
  "crc16_ccitt bs = fold crc16_byte bs 0xFFFF"

text \<open>A record whose arrays have the sizes that \<open>struct cfg\<close> declares.\<close>

definition cfg_sized :: "cfg \<Rightarrow> bool" where
  "cfg_sized c =
     (length (hostname c) = 33 \<and> length (ssid c) = 64 \<and> length (wpakey c) = 64 \<and>
      length (ntpserver c) = 64 \<and> length (timezone c) = 32 \<and>
      length (cat c) = CFG_NCATS \<and>
      list_all (\<lambda>e. length (cat_name e) = 20 \<and> length (cat_topic e) = 64) (cat c) \<and>
      length (ntfy_url (ntfy_conf c)) = 64 \<and> length (ntfy_topic (ntfy_conf c)) = 64 \<and>
      length (ntfy_username (ntfy_conf c)) = 16 \<and> length (ntfy_password (ntfy_conf c)) = 16)"

text \<open>
  The default record as \<open>configSave\<close> leaves it, and a factory-fresh EEPROM buffer and
  flash of 1536 bytes, all \<open>0xFF\<close>.
\<close>

definition saved_default :: "(8 word list \<Rightarrow> 16 word) \<Rightarrow> string \<Rightarrow> cfg" where
  "saved_default ccitt mac =
     (configDefault mac)\<lparr>crc := ccitt (take (sizeof_cfg - 2) (cfg_bytes (configDefault mac)))\<rparr>"

definition blank_eeprom :: eeprom where
  "blank_eeprom = \<lparr>data = replicate 1536 0xFF, flash = replicate 1536 0xFF\<rparr>"

text \<open>
  The integrity check as the specification words it, on the stored bytes: the magic
  marker matches, and the checksum over all bytes of the record before the checksum field
  equals the stored checksum.
\<close>

definition stored_intact :: "(8 word list \<Rightarrow> 16 word) \<Rightarrow> eeprom \<Rightarrow> bool" where
  "stored_intact ccitt ee =
     (of_le32 (take 4 (data ee)) = MAGIC \<and>
      of_le16 (take 2 (drop (sizeof_cfg - 2) (data ee))) = ccitt (take (sizeof_cfg - 2) (data ee)))"

subsection \<open>Scenarios\<close>

text \<open>
  A card held to a reader: its 26 bits arrive most significant first, a zero as a pulse
  on data line 0 and a one as a pulse on data line 1, all within the same millisecond.
\<close>

definition card_pulses :: "direction \<Rightarrow> 32 word \<Rightarrow> 64 word \<Rightarrow> event list" where
  "card_pulses dir ms w =
     map (\<lambda>i. case dir of
                 ENTRY \<Rightarrow> (if bit w i then Entry_D1 ms else Entry_D0 ms)
               | EXIT \<Rightarrow> (if bit w i then Exit_D1 ms else Exit_D0 ms))
         (rev [0..<26])"

text \<open>A pass during which every read of a counter, the clock or the sensor gives the same value.\<close>

definition steady :: "32 word \<Rightarrow> int \<Rightarrow> bool \<Rightarrow> reads" where
  "steady ms now door =
     \<lparr>facilityCode0 = 0, cardCode0 = 0, ms_entry = ms, ms_exit = ms,
      now_entry_unlock = now, now_entry_cat = now, now_exit_unlock = now, now_exit_cat = now,
      now_swing_entry = now, now_swing_exit = now,
      now_open_entry = now, door_open_entry = door, now_open_exit = now, door_open_exit = door,
      door_relock_entry = door, now_relock_entry = now, now_locked_entry = now,
      door_relock_exit = door, now_relock_exit = now, now_locked_exit = now\<rparr>"

text \<open>An all-zero slot, and a configuration whose first two cats share facility code 10.\<close>

definition blank_cat :: cat_entry where
  "blank_cat = \<lparr>cat_name = replicate 20 NUL, cat_topic = replicate 64 NUL,
                cat_facility = 0, cat_pad0 = 0, cat_id = 0, cat_flags = 0, cat_pad1 = 0\<rparr>"

definition two_cats :: cfg where
  "two_cats =
     \<lparr>magic = MAGIC, hostname = replicate 33 NUL, ssid = replicate 64 NUL,
      wpakey = replicate 64 NUL, ntpserver = replicate 64 NUL, timezone = replicate 32 NUL,
      flags = CFG_NTFY_ENABLE,
      cat = [blank_cat\<lparr>cat_name := ''Tom'' @ replicate 17 NUL, cat_facility := 10, cat_id := 500,
                         cat_flags := CFG_CAT_EXIT OR CFG_CAT_ENTRY\<rparr>,
             blank_cat\<lparr>cat_name := ''Kit'' @ replicate 17 NUL, cat_facility := 10, cat_id := 501,
                         cat_flags := CFG_CAT_EXIT OR CFG_CAT_ENTRY\<rparr>,
             blank_cat, blank_cat, blank_cat, blank_cat, blank_cat],
      ntfy_conf = \<lparr>ntfy_url = replicate 64 NUL, ntfy_topic = ''cats'' @ replicate 60 NUL,
                   ntfy_username = replicate 16 NUL, ntfy_password = replicate 16 NUL\<rparr>,
      crc = 0\<rparr>"

subsection \<open>Histories\<close>

text \<open>
  Three histories from boot. \<open>cold_start\<close>: one pass within two seconds of clock value 0
  with the door sensor reading open. \<open>tom_in_kit_out\<close>: Tom's card (10, 500) opens the
  entry lock at time 5000; the lock closes again at 5061; one second later Kit's card
  (10, 501) is read at the exit reader while the flap is pushed open. \<open>exit_refused\<close>:
  Tom's card opens the entry lock, and Kit's card is read at the exit reader while it is
  still open; the sensor reads closed throughout.
\<close>

definition cold_start :: "event list" where
  "cold_start = [Pass (steady 500 1 True)]"

definition tom_in_kit_out :: "event list" where
  "tom_in_kit_out =
     card_pulses ENTRY 100 0x1403E9 @
     [Pass (steady 1000 5000 False), Pass (steady 62000 5061 False)] @
     card_pulses EXIT 63000 0x1403EA @ [Pass (steady 63100 5062 True)]"

definition exit_refused :: "event list" where
  "exit_refused =
     card_pulses ENTRY 100 0x1403E9 @ [Pass (steady 1000 5000 False)] @
     card_pulses EXIT 1500 0x1403EA @ [Pass (steady 2000 5001 False)]"


text \<open>Tom's card at the entry reader, and two stray pulses on the exit reader's lines.\<close>

definition two_frames :: "event list" where
  "two_frames = card_pulses ENTRY 100 0x1403E9 @ [Exit_D1 100, Exit_D0 101]"

text \<open>Tom's card opens the entry lock at time 5000 and the lock closes again at 5061.\<close>

definition tom_in_and_closed :: "event list" where
  "tom_in_and_closed =
     card_pulses ENTRY 100 0x1403E9 @
     [Pass (steady 1000 5000 False), Pass (steady 62000 5061 False)]"

text \<open>Tom's card opens the entry lock at time 5000, and the door sensor changes after.\<close>

definition tom_in_then_nudge :: "event list" where
  "tom_in_then_nudge =
     card_pulses ENTRY 100 0x1403E9 @ [Pass (steady 1000 5000 False), Door 1500]"

text \<open>Tom's card at the entry reader, and Kit's card at the same reader one second later.\<close>

definition tom_then_kit_in :: "event list" where
  "tom_then_kit_in =
     card_pulses ENTRY 100 0x1403E9 @ [Pass (steady 1000 5000 False)] @
     card_pulses ENTRY 1500 0x1403EA @ [Pass (steady 2000 5001 False)]"

text \<open>
  Tom's card opens the entry lock at time 5000; Tom pushes the flap, which shortens the
  deadline to 5004; the lock closes at 5005, and a second later the flap is found open.
\<close>

definition tom_in_flap_stuck :: "event list" where
  "tom_in_flap_stuck =
     card_pulses ENTRY 100 0x1403E9 @
     [Pass (steady 1000 5000 False), Door 1500, Pass (steady 2000 5001 True),
      Pass (steady 6000 5005 False), Pass (steady 7000 5006 True)]"

text \<open>
  Tom's card opens the entry lock at time 5000, the lock closes again at 5061, and Tom's
  card is read at the entry reader once more before the next pass.
\<close>

definition tom_back_at_door :: "event list" where
  "tom_back_at_door = tom_in_and_closed @ card_pulses ENTRY 62500 0x1403E9"

section \<open>Properties\<close>

subsection \<open>The flags of \<open>state\<close>\<close>

lemma flag_pows:
  "STATE_ENTRY_WEIGAND_DONE = 2 ^ 0 \<and> (0::nat) < 16"
  "STATE_EXIT_WEIGAND_DONE = 2 ^ Suc 0 \<and> Suc 0 < 16"
  "STATE_OTA_FLASH = 2 ^ 2 \<and> (2::nat) < 16"
  "STATE_NTP_GOT_TIME = 2 ^ 3 \<and> (3::nat) < 16"
  "STATE_DOOR_TRIGGER = 2 ^ 4 \<and> (4::nat) < 16"
  "STATE_GOT_IP_ADDRESS = 2 ^ 5 \<and> (5::nat) < 16"
  "STATE_BOOTUP_NTFY = 2 ^ 6 \<and> (6::nat) < 16"
  "STATE_ENTRY_OPEN = 2 ^ 7 \<and> (7::nat) < 16"
  "STATE_EXIT_OPEN = 2 ^ 8 \<and> (8::nat) < 16"
  "STATE_ENTRY_LOCKED_OPEN = 2 ^ 9 \<and> (9::nat) < 16"
  "STATE_EXIT_LOCKED_OPEN = 2 ^ 10 \<and> (10::nat) < 16"
  by (simp_all add: STATE_ENTRY_WEIGAND_DONE_def STATE_EXIT_WEIGAND_DONE_def STATE_OTA_FLASH_def
      STATE_NTP_GOT_TIME_def STATE_DOOR_TRIGGER_def STATE_GOT_IP_ADDRESS_def STATE_BOOTUP_NTFY_def
      STATE_ENTRY_OPEN_def STATE_EXIT_OPEN_def STATE_ENTRY_LOCKED_OPEN_def STATE_EXIT_LOCKED_OPEN_def)

lemma flag_test: "X = 2 ^ k \<and> k < 16 \<Longrightarrow> ((w::16 word) AND X \<noteq> 0) = bit w k"
  by (simp add: and_exp_eq_0_iff_not_bit)

lemma flag_test_not: "X = 2 ^ k \<and> k < 16 \<Longrightarrow> (NOT (w::16 word) AND X \<noteq> 0) = (\<not> bit w k)"
  by (simp add: and_exp_eq_0_iff_not_bit bit_not_iff)

lemma flag_set: "X = 2 ^ k \<and> k < 16 \<Longrightarrow> bit ((w::16 word) OR X) n = (bit w n \<or> n = k)"
  by (auto simp add: bit_or_iff bit_exp_iff)

lemma flag_clear: "X = 2 ^ k \<and> k < 16 \<Longrightarrow> bit ((w::16 word) AND NOT X) n = (bit w n \<and> n \<noteq> k)"
  by (auto simp add: bit_and_iff bit_not_iff bit_exp_iff dest: bit_imp_le_length)

lemma flag_clear2:
  "X = 2 ^ k \<and> k < 16 \<Longrightarrow> Y = 2 ^ j \<and> j < 16 \<Longrightarrow>
   bit ((w::16 word) AND (NOT X AND NOT Y)) n = (bit w n \<and> n \<noteq> k \<and> n \<noteq> j)"
  by (auto simp add: bit_and_iff bit_not_iff bit_exp_iff dest: bit_imp_le_length)

lemma flag_test2:
  "X = 2 ^ k \<and> k < 16 \<Longrightarrow> Y = 2 ^ j \<and> j < 16 \<Longrightarrow>
   ((w::16 word) AND (X OR Y) \<noteq> 0) = (bit w k \<or> bit w j)"
  by (simp add: bit.conj_disj_distrib or_eq_0_iff and_exp_eq_0_iff_not_bit)

lemmas flag_simps =
  flag_pows [THEN flag_test] flag_pows [THEN flag_test_not]
  flag_pows [THEN flag_set] flag_pows [THEN flag_clear]
  flag_clear2 [OF flag_pows(8) flag_pows(10)] flag_clear2 [OF flag_pows(9) flag_pows(11)]
  flag_test2 [OF flag_pows(10) flag_pows(11)]
  bit_not_iff [where 'a = "16 word"]

subsection \<open>What each block of the loop does to \<open>state\<close>\<close>

lemma ntfy_fields [simp]:
  "state (ntfy tp tg pr m s) = state s"
  "conf (ntfy tp tg pr m s) = conf s"
  "pins (ntfy tp tg pr m s) = pins s"
  "catInOut (ntfy tp tg pr m s) = catInOut s"
  "catTime (ntfy tp tg pr m s) = catTime s"
  "lastFacilityCode (ntfy tp tg pr m s) = lastFacilityCode s"
  "lastCardCode (ntfy tp tg pr m s) = lastCardCode s"
  "entryCloseAt (ntfy tp tg pr m s) = entryCloseAt s"
  "exitCloseAt (ntfy tp tg pr m s) = exitCloseAt s"
  "entryCloseTime (ntfy tp tg pr m s) = entryCloseTime s"
  "exitCloseTime (ntfy tp tg pr m s) = exitCloseTime s"
  "entryBitCount (ntfy tp tg pr m s) = entryBitCount s"
  "entryDataBits (ntfy tp tg pr m s) = entryDataBits s"
  "entryLastBit (ntfy tp tg pr m s) = entryLastBit s"
  "exitBitCount (ntfy tp tg pr m s) = exitBitCount s"
  "exitDataBits (ntfy tp tg pr m s) = exitDataBits s"
  "exitLastBit (ntfy tp tg pr m s) = exitLastBit s"
  by (simp_all add: ntfy_def)

lemma checkCard_state [simp]: "state (snd (checkCard dir fc cc s)) = state s"
  by (simp add: checkCard_def Let_def)

lemma entryPermitted_state [simp]:
  "state (entryPermitted a b fc cc s) = state s OR STATE_ENTRY_OPEN"
  by (simp add: entryPermitted_def entryUnlock_def Let_def)

lemma exitPermitted_state [simp]:
  "state (exitPermitted a b fc cc s) = state s OR STATE_EXIT_OPEN"
  by (simp add: exitPermitted_def exitUnlock_def Let_def)

lemma entryReset_state [simp]: "state (entryReset s) = state s AND NOT STATE_ENTRY_WEIGAND_DONE"
  by (simp add: entryReset_def)

lemma exitReset_state [simp]: "state (exitReset s) = state s AND NOT STATE_EXIT_WEIGAND_DONE"
  by (simp add: exitReset_def)

lemma entryFrame_state:
  "state (snd (entryFrame a b loc s)) = state s \<or>
   state (snd (entryFrame a b loc s)) = state s AND NOT STATE_ENTRY_WEIGAND_DONE \<or>
   (NOT (state s) AND STATE_EXIT_OPEN \<noteq> 0 \<and>
    state (snd (entryFrame a b loc s)) = (state s OR STATE_ENTRY_OPEN) AND NOT STATE_ENTRY_WEIGAND_DONE)"
proof (cases "weigandDecode (fst loc) (snd loc) (entryBitCount s) (entryDataBits s)")
  case (fields ok fc cc)
  obtain r s1 where c: "checkCard ENTRY fc cc s = (r, s1)" by (cases "checkCard ENTRY fc cc s")
  have s1: "state s1 = state s" using checkCard_state [of ENTRY fc cc s] c by simp
  show ?thesis
    by (simp add: entryFrame_def fields c s1)
qed

lemma exitFrame_state:
  "state (snd (exitFrame a b loc s)) = state s \<or>
   state (snd (exitFrame a b loc s)) = state s AND NOT STATE_EXIT_WEIGAND_DONE \<or>
   (NOT (state s) AND STATE_ENTRY_OPEN \<noteq> 0 \<and>
    state (snd (exitFrame a b loc s)) = (state s OR STATE_EXIT_OPEN) AND NOT STATE_EXIT_WEIGAND_DONE)"
proof (cases "weigandDecode (fst loc) (snd loc) (exitBitCount s) (exitDataBits s)")
  case (fields ok fc cc)
  obtain r s1 where c: "checkCard EXIT fc cc s = (r, s1)" by (cases "checkCard EXIT fc cc s")
  have s1: "state s1 = state s" using checkCard_state [of EXIT fc cc s] c by simp
  show ?thesis
    by (simp add: exitFrame_def fields c s1)
qed

lemma open_flags_ok_bits:
  "open_flags_ok s = ((bit (state s) 9 \<longrightarrow> bit (state s) 7) \<and> (bit (state s) 10 \<longrightarrow> bit (state s) 8))"
  by (simp add: open_flags_ok_def flag_simps)

lemma one_open_bits:
  "one_open s = ((\<not> bit (state s) 7 \<and> \<not> bit (state s) 9) \<or> (\<not> bit (state s) 8 \<and> \<not> bit (state s) 10))"
  by (auto simp add: one_open_def entry_lock_def exit_lock_def flag_simps)

lemma lock_state_bits:
  "(entry_lock s = Locked) = (\<not> bit (state s) 7 \<and> \<not> bit (state s) 9)"
  "(entry_lock s = Unlocked) = (bit (state s) 7 \<and> \<not> bit (state s) 9)"
  "(entry_lock s = LockedOpen) = bit (state s) 9"
  "(exit_lock s = Locked) = (\<not> bit (state s) 8 \<and> \<not> bit (state s) 10)"
  "(exit_lock s = Unlocked) = (bit (state s) 8 \<and> \<not> bit (state s) 10)"
  "(exit_lock s = LockedOpen) = bit (state s) 10"
  by (simp_all add: entry_lock_def exit_lock_def flag_simps)

lemma bootupNtfy_bits:
  "n \<noteq> 6 \<Longrightarrow> bit (state (bootupNtfy s)) n = bit (state s) n"
  by (simp add: bootupNtfy_def Let_def flag_simps)

lemma weigandDone_bits:
  "n \<noteq> 0 \<Longrightarrow> bit (state (entryWeigandDone ms s)) n = bit (state s) n"
  "n \<noteq> Suc 0 \<Longrightarrow> bit (state (exitWeigandDone ms s)) n = bit (state s) n"
  by (simp_all add: entryWeigandDone_def exitWeigandDone_def flag_simps)

lemma entryFrame_bits:
  "n \<noteq> 0 \<Longrightarrow> n \<noteq> 7 \<Longrightarrow> bit (state (snd (entryFrame a b loc s))) n = bit (state s) n"
  "bit (state s) 7 \<Longrightarrow> bit (state (snd (entryFrame a b loc s))) 7"
  "bit (state (snd (entryFrame a b loc s))) 7 \<Longrightarrow> bit (state s) 7 \<or> \<not> bit (state s) 8"
  using entryFrame_state [of a b loc s] by (auto simp add: flag_simps)

lemma exitFrame_bits:
  "n \<noteq> Suc 0 \<Longrightarrow> n \<noteq> 8 \<Longrightarrow> bit (state (snd (exitFrame a b loc s))) n = bit (state s) n"
  "bit (state s) 8 \<Longrightarrow> bit (state (snd (exitFrame a b loc s))) 8"
  "bit (state (snd (exitFrame a b loc s))) 8 \<Longrightarrow> bit (state s) 8 \<or> \<not> bit (state s) 7"
  using exitFrame_state [of a b loc s] by (auto simp add: flag_simps)

lemma doorSwing_bits:
  "n \<noteq> 4 \<Longrightarrow> bit (state (doorSwing a b s)) n = bit (state s) n"
  by (simp add: doorSwing_def Let_def flag_simps)

lemma entryLockedOpen_bits:
  "n \<noteq> 7 \<Longrightarrow> n \<noteq> 9 \<Longrightarrow> bit (state (entryLockedOpen t d s)) n = bit (state s) n"
  "bit (state (entryLockedOpen t d s)) 9 = (bit (state s) 9 \<or> (\<not> bit (state s) 7 \<and> t - entryCloseTime s < 2 \<and> d))"
  "bit (state (entryLockedOpen t d s)) 7 = (bit (state s) 7 \<or> (\<not> bit (state s) 9 \<and> t - entryCloseTime s < 2 \<and> d))"
  by (auto simp add: entryLockedOpen_def entryUnlock_def Let_def flag_simps)

lemma exitLockedOpen_bits:
  "n \<noteq> 8 \<Longrightarrow> n \<noteq> 10 \<Longrightarrow> bit (state (exitLockedOpen t d s)) n = bit (state s) n"
  "bit (state (exitLockedOpen t d s)) 10 = (bit (state s) 10 \<or> (\<not> bit (state s) 8 \<and> t - exitCloseTime s < 2 \<and> d))"
  "bit (state (exitLockedOpen t d s)) 8 = (bit (state s) 8 \<or> (\<not> bit (state s) 10 \<and> t - exitCloseTime s < 2 \<and> d))"
  by (auto simp add: exitLockedOpen_def exitUnlock_def Let_def flag_simps)

lemma lockedOpenDelay_state [simp]: "state (lockedOpenDelay s) = state s"
  by (simp add: lockedOpenDelay_def)

lemma entryRelock_bits:
  "n \<noteq> 7 \<Longrightarrow> n \<noteq> 9 \<Longrightarrow> bit (state (entryRelock d t t' s)) n = bit (state s) n"
  "bit (state (entryRelock d t t' s)) 7 = (bit (state s) 7 \<and> \<not> (\<not> d \<and> entryCloseAt s < t))"
  "bit (state (entryRelock d t t' s)) 9 = (bit (state s) 9 \<and> \<not> (bit (state s) 7 \<and> \<not> d \<and> entryCloseAt s < t))"
  by (auto simp add: entryRelock_def entryLock_def Let_def flag_simps)

lemma exitRelock_bits:
  "n \<noteq> 8 \<Longrightarrow> n \<noteq> 10 \<Longrightarrow> bit (state (exitRelock d t t' s)) n = bit (state s) n"
  "bit (state (exitRelock d t t' s)) 8 = (bit (state s) 8 \<and> \<not> (\<not> d \<and> exitCloseAt s < t))"
  "bit (state (exitRelock d t t' s)) 10 = (bit (state s) 10 \<and> \<not> (bit (state s) 8 \<and> \<not> d \<and> exitCloseAt s < t))"
  by (auto simp add: exitRelock_def exitLock_def Let_def flag_simps)

subsection \<open>Invariants of the run\<close>

lemma loop_frames_bits:
  "n \<noteq> 0 \<Longrightarrow> n \<noteq> Suc 0 \<Longrightarrow> n \<noteq> 6 \<Longrightarrow> n \<noteq> 7 \<Longrightarrow> n \<noteq> 8 \<Longrightarrow>
   bit (state (loop_frames r s)) n = bit (state s) n"
  by (simp add: loop_frames_def Let_def exitFrame_bits entryFrame_bits weigandDone_bits bootupNtfy_bits)

lemma loop_frames_open_mono:
  "bit (state s) 7 \<Longrightarrow> bit (state (loop_frames r s)) 7"
  "bit (state s) 8 \<Longrightarrow> bit (state (loop_frames r s)) 8"
  by (simp_all add: loop_frames_def Let_def exitFrame_bits entryFrame_bits weigandDone_bits bootupNtfy_bits)

lemma loop_frames_one_open:
  assumes "\<not> (bit (state s) 7 \<and> bit (state s) 8)"
  shows "\<not> (bit (state (loop_frames r s)) 7 \<and> bit (state (loop_frames r s)) 8)"
proof -
  define s1 where "s1 = exitWeigandDone (ms_exit r) (entryWeigandDone (ms_entry r) (bootupNtfy s))"
  define e where "e = entryFrame (now_entry_unlock r) (now_entry_cat r) (facilityCode0 r, cardCode0 r) s1"
  define x where "x = exitFrame (now_exit_unlock r) (now_exit_cat r) (fst e) (snd e)"
  have s1: "bit (state s1) 7 = bit (state s) 7" "bit (state s1) 8 = bit (state s) 8"
    by (simp_all add: s1_def weigandDone_bits bootupNtfy_bits)
  have e8: "bit (state (snd e)) 8 = bit (state s1) 8"
    unfolding e_def by (simp add: entryFrame_bits)
  have e7: "bit (state (snd e)) 7 \<Longrightarrow> bit (state s1) 7 \<or> \<not> bit (state s1) 8"
    unfolding e_def by (rule entryFrame_bits(3))
  have x7: "bit (state (snd x)) 7 = bit (state (snd e)) 7"
    unfolding x_def by (simp add: exitFrame_bits)
  have x8: "bit (state (snd x)) 8 \<Longrightarrow> bit (state (snd e)) 8 \<or> \<not> bit (state (snd e)) 7"
    unfolding x_def by (rule exitFrame_bits(3))
  have "loop_frames r s = snd x"
    by (simp add: loop_frames_def Let_def x_def e_def s1_def)
  then show ?thesis
    using assms s1 e8 e7 x7 x8 by auto
qed

lemma loop_locks_bits:
  "n \<noteq> 7 \<Longrightarrow> n \<noteq> 8 \<Longrightarrow> n \<noteq> 9 \<Longrightarrow> n \<noteq> 10 \<Longrightarrow>
   bit (state (loop_locks r s)) n = bit (state s) n"
  by (simp add: loop_locks_def exitRelock_bits entryRelock_bits exitLockedOpen_bits entryLockedOpen_bits)

text \<open>The four lock flags after the locked-open checks and the re-lock blocks.\<close>

lemma loop_locks_flags_ok:
  assumes "open_flags_ok s"
  shows "open_flags_ok (loop_locks r s)"
  using assms
  by (auto simp add: open_flags_ok_bits loop_locks_def exitRelock_bits entryRelock_bits
      exitLockedOpen_bits entryLockedOpen_bits)

lemma loop_flags_ok:
  assumes "open_flags_ok s"
  shows "open_flags_ok (loop r s)"
proof -
  have "open_flags_ok (loop_frames r s)"
    using assms loop_frames_open_mono [of s r]
    by (auto simp add: open_flags_ok_bits loop_frames_bits)
  then have "open_flags_ok (doorSwing (now_swing_entry r) (now_swing_exit r) (loop_frames r s))"
    by (simp add: open_flags_ok_bits doorSwing_bits)
  then show ?thesis
    unfolding loop_def by (rule loop_locks_flags_ok)
qed

lemma ISR_state:
  "n \<noteq> 4 \<Longrightarrow> bit (state (ISR_DOOR ms s)) n = bit (state s) n"
  "state (ISR_ENTRY_D0 ms s) = state s"
  "state (ISR_ENTRY_D1 ms s) = state s"
  "state (ISR_EXIT_D0 ms s) = state s"
  "state (ISR_EXIT_D1 ms s) = state s"
  by (simp_all add: ISR_DOOR_def ISR_ENTRY_D0_def ISR_ENTRY_D1_def ISR_EXIT_D0_def
      ISR_EXIT_D1_def flag_simps)

lemma step_flags_ok:
  assumes "open_flags_ok s"
  shows "open_flags_ok (step e s)"
proof (cases e)
  case (Pass r)
  then show ?thesis using assms by (simp add: loop_flags_ok)
qed (use assms in \<open>simp_all add: open_flags_ok_bits ISR_state flag_simps\<close>)

lemma boot_flags_ok: "open_flags_ok (boot c)"
  by (simp add: open_flags_ok_bits boot_def)

lemma run_flags_ok:
  "open_flags_ok s \<Longrightarrow> open_flags_ok (run evs s)"
  unfolding run_def by (induction evs arbitrary: s) (simp_all add: step_flags_ok)

text \<open>
  C10. In every state reached from boot by passes of the loop, interrupts and callbacks in
  any order, a direction's locked-open flag is set only if its open flag is set.
\<close>

theorem locked_open_implies_open:
  "open_flags_ok (run evs (boot c))"
  by (rule run_flags_ok) (rule boot_flags_ok)

text \<open>
  The theorem at \<open>cold_start\<close>, where both locked-open checks fire in the first pass: the
  exit direction's locked-open flag is set, and so is its open flag.
\<close>

theorem locked_open_implies_open_witness:
  "state (run cold_start (boot two_cats)) AND STATE_EXIT_LOCKED_OPEN \<noteq> 0 \<and>
   state (run cold_start (boot two_cats)) AND STATE_EXIT_OPEN \<noteq> 0"
proof -
  have a: "state (run cold_start (boot two_cats)) AND STATE_EXIT_LOCKED_OPEN \<noteq> 0"
    by code_simp
  have "open_flags_ok (run cold_start (boot two_cats))"
    by (rule locked_open_implies_open)
  with a show ?thesis by (simp add: open_flags_ok_def)
qed

subsection \<open>Mutual exclusion of the two locks\<close>

lemma loop_after_checks:
  "loop r s =
     exitRelock (door_relock_exit r) (now_relock_exit r) (now_locked_exit r)
       (entryRelock (door_relock_entry r) (now_relock_entry r) (now_locked_entry r)
         (lockedOpenDelay (after_checks r s)))"
  by (simp add: loop_def loop_locks_def after_checks_def after_entry_check_def before_checks_def)

lemma before_checks_ok:
  assumes "one_open s" "open_flags_ok s"
  shows "one_open (before_checks r s)" and "open_flags_ok (before_checks r s)"
proof -
  let ?f = "loop_frames r s"
  have "\<not> (bit (state s) 7 \<and> bit (state s) 8)"
    using assms by (auto simp add: one_open_bits open_flags_ok_bits)
  then have f: "\<not> (bit (state ?f) 7 \<and> bit (state ?f) 8)"
    by (rule loop_frames_one_open)
  have fo: "open_flags_ok ?f"
    using assms(2) loop_frames_open_mono [of s r]
    by (auto simp add: open_flags_ok_bits loop_frames_bits)
  have "one_open ?f"
    using f fo by (auto simp add: one_open_bits open_flags_ok_bits)
  then show "one_open (before_checks r s)"
    by (simp add: before_checks_def one_open_bits doorSwing_bits)
  show "open_flags_ok (before_checks r s)"
    using fo by (simp add: before_checks_def open_flags_ok_bits doorSwing_bits)
qed

lemma after_checks_one_open:
  assumes "one_open s" "open_flags_ok s"
  shows "one_open (after_checks r s) = (\<not> cross_detection r s)"
  using before_checks_ok [OF assms, of r]
  by (auto simp add: one_open_bits open_flags_ok_bits cross_detection_def entry_check_fires_def
      exit_check_fires_def after_checks_def after_entry_check_def lock_state_bits flag_simps
      exitLockedOpen_bits entryLockedOpen_bits)

lemma after_checks_flags_ok:
  assumes "open_flags_ok s"
  shows "open_flags_ok (after_checks r s)"
proof -
  have "open_flags_ok (loop_frames r s)"
    using assms loop_frames_open_mono [of s r]
    by (auto simp add: open_flags_ok_bits loop_frames_bits)
  then show ?thesis
    by (auto simp add: open_flags_ok_bits after_checks_def after_entry_check_def before_checks_def
        doorSwing_bits exitLockedOpen_bits entryLockedOpen_bits)
qed

lemma loop_one_open_iff:
  assumes "one_open s" "open_flags_ok s"
  shows "one_open (loop r s) = (\<not> cross_detection r s \<or> entry_relocks r s \<or> exit_relocks r s)"
  using after_checks_one_open [OF assms, of r] after_checks_flags_ok [OF assms(2), of r]
  by (auto simp add: loop_after_checks one_open_bits open_flags_ok_bits entry_relocks_def
      exit_relocks_def Let_def flag_simps exitRelock_bits entryRelock_bits)

lemma step_one_open_apart:
  assumes "one_open s" "open_flags_ok s" "detection_apart e s"
  shows "one_open (step e s)"
proof (cases e)
  case (Pass r)
  then show ?thesis using assms loop_one_open_iff [OF assms(1,2), of r] by simp
qed (use assms in \<open>simp_all add: one_open_bits ISR_state flag_simps\<close>)

lemma run_one_open_apart:
  "one_open s \<Longrightarrow> open_flags_ok s \<Longrightarrow> detections_apart evs s \<Longrightarrow> one_open (run evs s)"
  unfolding run_def
proof (induction evs arbitrary: s)
  case Nil
  then show ?case by simp
next
  case (Cons e evs)
  have "one_open (step e s)" using Cons.prems by (simp add: step_one_open_apart)
  moreover have "open_flags_ok (step e s)" using Cons.prems by (simp add: step_flags_ok)
  ultimately show ?case using Cons.IH Cons.prems by simp
qed

lemma never_both_open_iff:
  "one_open s \<Longrightarrow> open_flags_ok s \<Longrightarrow> never_both_open evs s = detections_apart evs s"
proof (induction evs arbitrary: s)
  case Nil
  then show ?case by simp
next
  case (Cons e evs)
  show ?case
  proof (cases "detection_apart e s")
    case True
    have "one_open (step e s)" "open_flags_ok (step e s)"
      using Cons.prems True by (simp_all add: step_one_open_apart step_flags_ok)
    then have ih: "never_both_open evs (step e s) = detections_apart evs (step e s)"
      by (rule Cons.IH)
    show ?thesis
    proof (cases e)
      case (Pass r)
      then show ?thesis
        using Cons.prems True ih after_checks_one_open [OF Cons.prems, of r] by simp
    qed (use Cons.prems ih in simp_all)
  next
    case False
    then obtain r where e: "e = Pass r" and c: "cross_detection r s"
      by (cases e) simp_all
    show ?thesis
      using Cons.prems c after_checks_one_open [OF Cons.prems, of r] by (simp add: e)
  qed
qed

lemma boot_one_open: "one_open (boot c)"
  by (simp add: one_open_bits boot_def)

text \<open>
  C1, as amended. Take a state in which at most one lock is away from \<open>Locked\<close> and a
  locked-open flag is set only with its open flag; the state at boot is one. Every history
  of passes, interrupts and callbacks from it, in which no locked-open check fires while
  the lock of the other direction is away from \<open>Locked\<close>, ends with at most one lock
  away from \<open>Locked\<close>: a card opens a lock only while the other direction's open flag is
  clear, and the door trigger, the re-lock blocks, the interrupt handlers and the callbacks
  open nothing. These are the only histories that keep the two locks apart: at most one
  lock is away from \<open>Locked\<close> at every point of a history exactly when no locked-open
  check in it fires while the lock of the other direction is away from \<open>Locked\<close>.
  Within a pass from such a state, at most one lock is away from \<open>Locked\<close> when the
  pass reaches the locked-open checks; after the two checks this is so exactly when
  neither fired while the other direction's lock was away from \<open>Locked\<close>; and at the
  end of the pass exactly when that is so or one of the two re-lock blocks ran.
\<close>

theorem one_open_unless_cross_detection:
  assumes "one_open s" and "open_flags_ok s"
  shows "(detections_apart evs s \<longrightarrow> one_open (run evs s)) \<and>
         never_both_open evs s = detections_apart evs s \<and>
         one_open (before_checks r s) \<and>
         one_open (after_checks r s) = (\<not> cross_detection r s) \<and>
         one_open (loop r s) = (\<not> cross_detection r s \<or> entry_relocks r s \<or> exit_relocks r s)"
  using assms
  by (intro conjI impI run_one_open_apart never_both_open_iff before_checks_ok
      after_checks_one_open loop_one_open_iff)

text \<open>
  The theorem at \<open>tom_in_flap_stuck\<close>, where the flap is pushed while the entry lock is
  open and the entry lock is later found locked open and opened again, and at
  \<open>exit_refused\<close>, where Kit's card at the exit reader is not acted on while the entry
  lock is open. And at the last pass of \<open>tom_in_kit_out\<close>, where the entry check fires
  with the exit lock open.
\<close>

theorem one_open_unless_cross_detection_witness:
  "one_open (run tom_in_flap_stuck (boot two_cats)) \<and>
   never_both_open tom_in_flap_stuck (boot two_cats) \<and>
   entry_lock (run tom_in_flap_stuck (boot two_cats)) = LockedOpen \<and>
   one_open (run exit_refused (boot two_cats)) \<and>
   entry_lock (run exit_refused (boot two_cats)) = Unlocked \<and>
   cross_detection (steady 63100 5062 True)
     (run (tom_in_and_closed @ card_pulses EXIT 63000 0x1403EA) (boot two_cats)) \<and>
   \<not> one_open (after_checks (steady 63100 5062 True)
     (run (tom_in_and_closed @ card_pulses EXIT 63000 0x1403EA) (boot two_cats)))"
proof -
  let ?s = "run (tom_in_and_closed @ card_pulses EXIT 63000 0x1403EA) (boot two_cats)"
  have a: "detections_apart tom_in_flap_stuck (boot two_cats)"
    "detections_apart exit_refused (boot two_cats)" by code_simp+
  have b: "one_open (run tom_in_flap_stuck (boot two_cats))"
    using one_open_unless_cross_detection [of "boot two_cats" tom_in_flap_stuck]
      boot_one_open boot_flags_ok a(1) by blast
  have c: "one_open (run exit_refused (boot two_cats))"
    using one_open_unless_cross_detection [of "boot two_cats" exit_refused]
      boot_one_open boot_flags_ok a(2) by blast
  have b': "never_both_open tom_in_flap_stuck (boot two_cats)"
    using one_open_unless_cross_detection [of "boot two_cats" tom_in_flap_stuck]
      boot_one_open boot_flags_ok a(1) by blast
  have d: "entry_lock (run tom_in_flap_stuck (boot two_cats)) = LockedOpen"
    "entry_lock (run exit_refused (boot two_cats)) = Unlocked" by code_simp+
  have e: "one_open ?s" "open_flags_ok ?s" by code_simp+
  have f: "cross_detection (steady 63100 5062 True) ?s" by code_simp
  have g: "\<not> one_open (after_checks (steady 63100 5062 True) ?s)"
    using one_open_unless_cross_detection [OF e, of _ "steady 63100 5062 True"] f by blast
  show ?thesis using b b' c d f g by (intro conjI)
qed

text \<open>
  C1 as stated fails. The locked-open check of a direction does not look at the other
  direction: in \<open>tom_in_kit_out\<close> the exit lock is opened by a card in the pass in which
  the entry lock, closed one second before, is found locked open and opened again.
\<close>

theorem both_open_counterexample:
  "entry_lock (run tom_in_kit_out (boot two_cats)) = LockedOpen \<and>
   exit_lock (run tom_in_kit_out (boot two_cats)) = Unlocked \<and>
   \<not> one_open (run tom_in_kit_out (boot two_cats))"
  by code_simp

subsection \<open>Resetting the capture state\<close>

lemma checkCard_frame:
  "snd (checkCard dir fc cc s) = s\<lparr>ntfy_calls := ntfy_calls (snd (checkCard dir fc cc s))\<rparr>"
  by (simp add: checkCard_def Let_def ntfy_def)

lemma checkCard_capture [simp]:
  "entry_capture (snd (checkCard dir fc cc s)) = entry_capture s"
  "exit_capture (snd (checkCard dir fc cc s)) = exit_capture s"
  by (simp_all add: checkCard_def Let_def ntfy_def entry_capture_def exit_capture_def)

lemma ntfy_capture [simp]:
  "entry_capture (ntfy tp tg pr m s) = entry_capture s"
  "exit_capture (ntfy tp tg pr m s) = exit_capture s"
  by (simp_all add: entry_capture_def exit_capture_def)

lemma permitted_capture [simp]:
  "entry_capture (entryPermitted a b fc cc s) = entry_capture s"
  "exit_capture (entryPermitted a b fc cc s) = exit_capture s"
  "entry_capture (exitPermitted a b fc cc s) = entry_capture s"
  "exit_capture (exitPermitted a b fc cc s) = exit_capture s"
  by (simp_all add: entryPermitted_def exitPermitted_def entryUnlock_def exitUnlock_def Let_def
      entry_capture_def exit_capture_def ntfy_def)

lemma reset_capture [simp]:
  "entry_capture (entryReset s) = (0, 0, 0)"
  "exit_capture (entryReset s) = exit_capture s"
  "exit_capture (exitReset s) = (0, 0, 0)"
  "entry_capture (exitReset s) = entry_capture s"
  by (simp_all add: entryReset_def exitReset_def entry_capture_def exit_capture_def)

lemma entryFrame_capture:
  "exit_capture (snd (entryFrame a b loc s)) = exit_capture s"
  "bit (state s) 0 \<Longrightarrow> entry_capture (snd (entryFrame a b loc s)) = (0, 0, 0)"
  "bit (state s) 0 \<Longrightarrow> \<not> bit (state (snd (entryFrame a b loc s))) 0"
proof -
  obtain ok fc cc where d: "weigandDecode (fst loc) (snd loc) (entryBitCount s) (entryDataBits s) = (ok, fc, cc)"
    by (cases "weigandDecode (fst loc) (snd loc) (entryBitCount s) (entryDataBits s)")
  obtain r s1 where c: "checkCard ENTRY fc cc s = (r, s1)" by (cases "checkCard ENTRY fc cc s")
  have s1: "exit_capture s1 = exit_capture s"
    using checkCard_capture(2) [of ENTRY fc cc s] c by simp
  show "exit_capture (snd (entryFrame a b loc s)) = exit_capture s"
    by (simp add: entryFrame_def d c s1)
  show "bit (state s) 0 \<Longrightarrow> entry_capture (snd (entryFrame a b loc s)) = (0, 0, 0)"
    by (simp add: entryFrame_def d c flag_simps)
  show "bit (state s) 0 \<Longrightarrow> \<not> bit (state (snd (entryFrame a b loc s))) 0"
    by (simp add: entryFrame_def d c flag_simps)
qed

lemma exitFrame_capture:
  "entry_capture (snd (exitFrame a b loc s)) = entry_capture s"
  "bit (state s) (Suc 0) \<Longrightarrow> exit_capture (snd (exitFrame a b loc s)) = (0, 0, 0)"
  "bit (state s) (Suc 0) \<Longrightarrow> \<not> bit (state (snd (exitFrame a b loc s))) (Suc 0)"
proof -
  obtain ok fc cc where d: "weigandDecode (fst loc) (snd loc) (exitBitCount s) (exitDataBits s) = (ok, fc, cc)"
    by (cases "weigandDecode (fst loc) (snd loc) (exitBitCount s) (exitDataBits s)")
  obtain r s1 where c: "checkCard EXIT fc cc s = (r, s1)" by (cases "checkCard EXIT fc cc s")
  have s1: "entry_capture s1 = entry_capture s"
    using checkCard_capture(1) [of EXIT fc cc s] c by simp
  show "entry_capture (snd (exitFrame a b loc s)) = entry_capture s"
    by (simp add: exitFrame_def d c s1)
  show "bit (state s) (Suc 0) \<Longrightarrow> exit_capture (snd (exitFrame a b loc s)) = (0, 0, 0)"
    by (simp add: exitFrame_def d c flag_simps)
  show "bit (state s) (Suc 0) \<Longrightarrow> \<not> bit (state (snd (exitFrame a b loc s))) (Suc 0)"
    by (simp add: exitFrame_def d c flag_simps)
qed

lemma early_capture [simp]:
  "entry_capture (bootupNtfy s) = entry_capture s"
  "exit_capture (bootupNtfy s) = exit_capture s"
  "entry_capture (entryWeigandDone ms s) = entry_capture s"
  "exit_capture (entryWeigandDone ms s) = exit_capture s"
  "entry_capture (exitWeigandDone ms s) = entry_capture s"
  "exit_capture (exitWeigandDone ms s) = exit_capture s"
  by (simp_all add: bootupNtfy_def entryWeigandDone_def exitWeigandDone_def Let_def
      entry_capture_def exit_capture_def)

lemma late_capture [simp]:
  "entry_capture (doorSwing a b s) = entry_capture s"
  "exit_capture (doorSwing a b s) = exit_capture s"
  "entry_capture (entryLockedOpen t d s) = entry_capture s"
  "exit_capture (entryLockedOpen t d s) = exit_capture s"
  "entry_capture (exitLockedOpen t d s) = entry_capture s"
  "exit_capture (exitLockedOpen t d s) = exit_capture s"
  "entry_capture (lockedOpenDelay s) = entry_capture s"
  "exit_capture (lockedOpenDelay s) = exit_capture s"
  "entry_capture (entryRelock d t t' s) = entry_capture s"
  "exit_capture (entryRelock d t t' s) = exit_capture s"
  "entry_capture (exitRelock d t t' s) = entry_capture s"
  "exit_capture (exitRelock d t t' s) = exit_capture s"
  by (simp_all add: doorSwing_def entryLockedOpen_def exitLockedOpen_def lockedOpenDelay_def
      entryRelock_def exitRelock_def entryLock_def exitLock_def entryUnlock_def exitUnlock_def
      Let_def entry_capture_def exit_capture_def)

lemma loop_tail_capture [simp]:
  "entry_capture (loop_locks r (doorSwing a b s)) = entry_capture s"
  "exit_capture (loop_locks r (doorSwing a b s)) = exit_capture s"
  by (simp_all add: loop_locks_def)

lemma loop_tail_done_bits:
  "n < 2 \<Longrightarrow> bit (state (loop_locks r (doorSwing a b s))) n = bit (state s) n"
  by (simp add: loop_locks_bits doorSwing_bits)

lemma entryWeigandDone_ready:
  "bit (state (entryWeigandDone (ms_entry r) s)) 0 = entry_frame_ready r s"
  by (auto simp add: entryWeigandDone_def entry_frame_ready_def flag_simps)

lemma exitWeigandDone_ready:
  "bit (state (exitWeigandDone (ms_exit r) s)) (Suc 0) = exit_frame_ready r s"
  by (auto simp add: exitWeigandDone_def exit_frame_ready_def flag_simps)

lemma loop_frames_entry:
  assumes "entry_frame_ready r s"
  shows "entry_capture (loop_frames r s) = (0, 0, 0)"
    and "\<not> bit (state (loop_frames r s)) 0"
proof -
  define s1 where "s1 = exitWeigandDone (ms_exit r) (entryWeigandDone (ms_entry r) (bootupNtfy s))"
  have "entry_frame_ready r (bootupNtfy s)"
    using assms early_capture(1) [of s]
    by (auto simp add: entry_frame_ready_def entry_capture_def flag_simps bootupNtfy_bits)
  then have "bit (state (entryWeigandDone (ms_entry r) (bootupNtfy s))) 0"
    by (simp add: entryWeigandDone_ready)
  then have b: "bit (state s1) 0" by (simp add: s1_def weigandDone_bits)
  show "entry_capture (loop_frames r s) = (0, 0, 0)"
    using b by (simp add: loop_frames_def Let_def s1_def [symmetric] exitFrame_capture entryFrame_capture)
  show "\<not> bit (state (loop_frames r s)) 0"
    using b by (simp add: loop_frames_def Let_def s1_def [symmetric] exitFrame_bits entryFrame_capture)
qed

lemma loop_frames_exit:
  assumes "exit_frame_ready r s"
  shows "exit_capture (loop_frames r s) = (0, 0, 0)"
    and "\<not> bit (state (loop_frames r s)) (Suc 0)"
proof -
  define s1 where "s1 = exitWeigandDone (ms_exit r) (entryWeigandDone (ms_entry r) (bootupNtfy s))"
  define e where "e = entryFrame (now_entry_unlock r) (now_entry_cat r) (facilityCode0 r, cardCode0 r) s1"
  have "exit_frame_ready r (entryWeigandDone (ms_entry r) (bootupNtfy s))"
    using assms early_capture(2) [of s] early_capture(4) [of "ms_entry r" "bootupNtfy s"]
    by (auto simp add: exit_frame_ready_def exit_capture_def flag_simps bootupNtfy_bits weigandDone_bits)
  then have "bit (state s1) (Suc 0)" by (simp add: s1_def exitWeigandDone_ready)
  then have b: "bit (state (snd e)) (Suc 0)" by (simp add: e_def entryFrame_bits)
  show "exit_capture (loop_frames r s) = (0, 0, 0)"
    using b by (simp add: loop_frames_def Let_def s1_def [symmetric] e_def [symmetric] exitFrame_capture)
  show "\<not> bit (state (loop_frames r s)) (Suc 0)"
    using b by (simp add: loop_frames_def Let_def s1_def [symmetric] e_def [symmetric] exitFrame_capture)
qed

lemma reset_twice:
  "entryReset (entryReset s) = entryReset s"
  "exitReset (exitReset s) = exitReset s"
  by (simp_all add: entryReset_def exitReset_def bit_eq_iff [where 'a = "16 word"] flag_simps)

lemma reset_empty:
  "entry_capture s = (0, 0, 0) \<Longrightarrow> state s AND STATE_ENTRY_WEIGAND_DONE = 0 \<Longrightarrow> entryReset s = s"
  "exit_capture s = (0, 0, 0) \<Longrightarrow> state s AND STATE_EXIT_WEIGAND_DONE = 0 \<Longrightarrow> exitReset s = s"
proof -
  have e: "state s AND NOT STATE_ENTRY_WEIGAND_DONE = state s"
    if "state s AND STATE_ENTRY_WEIGAND_DONE = 0"
  proof -
    have nb: "\<not> bit (state s) 0" using that flag_simps(1) [of "state s"] by simp
    show ?thesis
    proof (rule bit_eqI)
      fix n
      show "bit (state s AND NOT STATE_ENTRY_WEIGAND_DONE) n = bit (state s) n"
        using nb by (cases "n = 0") (simp_all add: flag_simps)
    qed
  qed
  have x: "state s AND NOT STATE_EXIT_WEIGAND_DONE = state s"
    if "state s AND STATE_EXIT_WEIGAND_DONE = 0"
  proof -
    have nb: "\<not> bit (state s) (Suc 0)" using that flag_simps(2) [of "state s"] by simp
    show ?thesis
    proof (rule bit_eqI)
      fix n
      show "bit (state s AND NOT STATE_EXIT_WEIGAND_DONE) n = bit (state s) n"
        using nb by (cases "n = Suc 0") (simp_all add: flag_simps)
    qed
  qed
  show "entry_capture s = (0, 0, 0) \<Longrightarrow> state s AND STATE_ENTRY_WEIGAND_DONE = 0 \<Longrightarrow> entryReset s = s"
    using e by (simp add: entryReset_def entry_capture_def)
  show "exit_capture s = (0, 0, 0) \<Longrightarrow> state s AND STATE_EXIT_WEIGAND_DONE = 0 \<Longrightarrow> exitReset s = s"
    using x by (simp add: exitReset_def exit_capture_def)
qed

text \<open>
  C8. A pass that finds a frame ready on a channel leaves that channel's capture state
  empty and its done flag clear, whatever the frame decodes to and whatever the decision
  is; the same holds for both channels in one pass. The reset itself always gives the
  empty capture state, doing it twice is doing it once, and on an empty capture state
  with the done flag clear it changes nothing.
\<close>

theorem capture_reset_after_frame:
  "(entry_frame_ready r s \<longrightarrow>
      entry_capture (loop r s) = (0, 0, 0) \<and> state (loop r s) AND STATE_ENTRY_WEIGAND_DONE = 0) \<and>
   (exit_frame_ready r s \<longrightarrow>
      exit_capture (loop r s) = (0, 0, 0) \<and> state (loop r s) AND STATE_EXIT_WEIGAND_DONE = 0) \<and>
   entry_capture (entryReset s) = (0, 0, 0) \<and> exit_capture (exitReset s) = (0, 0, 0) \<and>
   entryReset (entryReset s) = entryReset s \<and> exitReset (exitReset s) = exitReset s \<and>
   (entry_capture s = (0, 0, 0) \<and> state s AND STATE_ENTRY_WEIGAND_DONE = 0 \<longrightarrow> entryReset s = s) \<and>
   (exit_capture s = (0, 0, 0) \<and> state s AND STATE_EXIT_WEIGAND_DONE = 0 \<longrightarrow> exitReset s = s)"
proof -
  have a: "entry_frame_ready r s \<longrightarrow>
      entry_capture (loop r s) = (0, 0, 0) \<and> state (loop r s) AND STATE_ENTRY_WEIGAND_DONE = 0"
    using loop_frames_entry [of r s] flag_simps(1) [of "state (loop r s)"]
    by (auto simp add: loop_def loop_tail_done_bits)
  have b: "exit_frame_ready r s \<longrightarrow>
      exit_capture (loop r s) = (0, 0, 0) \<and> state (loop r s) AND STATE_EXIT_WEIGAND_DONE = 0"
    using loop_frames_exit [of r s] flag_simps(2) [of "state (loop r s)"]
    by (auto simp add: loop_def loop_tail_done_bits)
  show ?thesis using a b reset_twice [of s] reset_empty [of s] by simp
qed

text \<open>
  The theorem at the pass that follows a complete 26-bit frame on the entry channel and
  two stray bits on the exit channel.
\<close>

theorem capture_reset_after_frame_witness:
  "entry_capture (run two_frames (boot two_cats)) = (0x1403E9, 26, 120) \<and>
   exit_capture (run two_frames (boot two_cats)) = (2, 2, 121) \<and>
   entry_capture (loop (steady 1000 5000 False) (run two_frames (boot two_cats))) = (0, 0, 0) \<and>
   exit_capture (loop (steady 1000 5000 False) (run two_frames (boot two_cats))) = (0, 0, 0)"
proof -
  have a: "entry_frame_ready (steady 1000 5000 False) (run two_frames (boot two_cats))"
    by code_simp
  have b: "exit_frame_ready (steady 1000 5000 False) (run two_frames (boot two_cats))"
    by code_simp
  have c: "entry_capture (run two_frames (boot two_cats)) = (0x1403E9, 26, 120)"
    by code_simp
  have d: "exit_capture (run two_frames (boot two_cats)) = (2, 2, 121)"
    by code_simp
  show ?thesis
    using capture_reset_after_frame [of "steady 1000 5000 False" "run two_frames (boot two_cats)"]
      a b c d by simp
qed

subsection \<open>Locked-open detection\<close>

lemma ntfy_enabled_iff:
  "(NOT (w::8 word) AND CFG_NTFY_ENABLE = 0) = (w AND CFG_NTFY_ENABLE \<noteq> 0)"
proof -
  have a: "(NOT w AND 2 ^ 0 = 0) = (\<not> bit (NOT w) 0)"
    by (rule and_exp_eq_0_iff_not_bit)
  have b: "(w AND 2 ^ 0 = 0) = (\<not> bit w 0)"
    by (rule and_exp_eq_0_iff_not_bit)
  have c: "bit (NOT w) 0 = (\<not> bit w 0)"
    by (simp add: bit_not_iff)
  show ?thesis
    using a b c by (simp add: CFG_NTFY_ENABLE_def)
qed

text \<open>The locked-open check of a direction, on the state it is run on.\<close>

lemma locked_open_check:
  "(entry_lock s = Locked \<and> door \<and> now - entryCloseTime s < 2 \<longrightarrow>
      entry_lock (entryLockedOpen now door s) = LockedOpen \<and>
      state (entryLockedOpen now door s) AND STATE_ENTRY_OPEN \<noteq> 0 \<and>
      pins (entryLockedOpen now door s) =
        pins s @ [DigitalWrite PIN_ENTRY_SOLENOID OPEN, Delay 30, AnalogWrite PIN_ENTRY_SOLENOID 180] \<and>
      ntfy_calls (entryLockedOpen now door s) =
        ntfy_calls s @ [\<lparr>topic = c_str (ntfy_topic (ntfy_conf (conf s))), tags = ''lock,unlock'',
                          priority = 3, text_of = Locked_open ENTRY,
                          sent = (flags (conf s) AND CFG_NTFY_ENABLE \<noteq> 0)\<rparr>]) \<and>
   (entry_lock s = Locked \<and> 2 \<le> now - entryCloseTime s \<longrightarrow> entryLockedOpen now door s = s) \<and>
   (exit_lock s = Locked \<and> door \<and> now - exitCloseTime s < 2 \<longrightarrow>
      exit_lock (exitLockedOpen now door s) = LockedOpen \<and>
      state (exitLockedOpen now door s) AND STATE_EXIT_OPEN \<noteq> 0 \<and>
      pins (exitLockedOpen now door s) =
        pins s @ [DigitalWrite PIN_EXIT_SOLENOID OPEN, Delay 20, AnalogWrite PIN_EXIT_SOLENOID 50] \<and>
      ntfy_calls (exitLockedOpen now door s) =
        ntfy_calls s @ [\<lparr>topic = c_str (ntfy_topic (ntfy_conf (conf s))), tags = ''lock,unlock'',
                          priority = 3, text_of = Locked_open EXIT,
                          sent = (flags (conf s) AND CFG_NTFY_ENABLE \<noteq> 0)\<rparr>]) \<and>
   (exit_lock s = Locked \<and> 2 \<le> now - exitCloseTime s \<longrightarrow> exitLockedOpen now door s = s)"
proof -
  have e1: "entry_lock s = Locked \<and> door \<and> now - entryCloseTime s < 2 \<longrightarrow>
      entry_lock (entryLockedOpen now door s) = LockedOpen \<and>
      state (entryLockedOpen now door s) AND STATE_ENTRY_OPEN \<noteq> 0"
    by (simp add: lock_state_bits entryLockedOpen_bits flag_simps)
  have e2: "entry_lock s = Locked \<and> door \<and> now - entryCloseTime s < 2 \<longrightarrow>
      pins (entryLockedOpen now door s) =
        pins s @ [DigitalWrite PIN_ENTRY_SOLENOID OPEN, Delay 30, AnalogWrite PIN_ENTRY_SOLENOID 180] \<and>
      ntfy_calls (entryLockedOpen now door s) =
        ntfy_calls s @ [\<lparr>topic = c_str (ntfy_topic (ntfy_conf (conf s))), tags = ''lock,unlock'',
                          priority = 3, text_of = Locked_open ENTRY,
                          sent = (flags (conf s) AND CFG_NTFY_ENABLE \<noteq> 0)\<rparr>]"
    by (simp add: lock_state_bits entryLockedOpen_def entryUnlock_def ntfy_def Let_def flag_simps
        ntfy_enabled_iff)
  have e3: "entry_lock s = Locked \<and> 2 \<le> now - entryCloseTime s \<longrightarrow> entryLockedOpen now door s = s"
    by (simp add: entryLockedOpen_def)
  have x1: "exit_lock s = Locked \<and> door \<and> now - exitCloseTime s < 2 \<longrightarrow>
      exit_lock (exitLockedOpen now door s) = LockedOpen \<and>
      state (exitLockedOpen now door s) AND STATE_EXIT_OPEN \<noteq> 0"
    by (simp add: lock_state_bits exitLockedOpen_bits flag_simps)
  have x2: "exit_lock s = Locked \<and> door \<and> now - exitCloseTime s < 2 \<longrightarrow>
      pins (exitLockedOpen now door s) =
        pins s @ [DigitalWrite PIN_EXIT_SOLENOID OPEN, Delay 20, AnalogWrite PIN_EXIT_SOLENOID 50] \<and>
      ntfy_calls (exitLockedOpen now door s) =
        ntfy_calls s @ [\<lparr>topic = c_str (ntfy_topic (ntfy_conf (conf s))), tags = ''lock,unlock'',
                          priority = 3, text_of = Locked_open EXIT,
                          sent = (flags (conf s) AND CFG_NTFY_ENABLE \<noteq> 0)\<rparr>]"
    by (simp add: lock_state_bits exitLockedOpen_def exitUnlock_def ntfy_def Let_def flag_simps
        ntfy_enabled_iff)
  have x3: "exit_lock s = Locked \<and> 2 \<le> now - exitCloseTime s \<longrightarrow> exitLockedOpen now door s = s"
    by (simp add: exitLockedOpen_def)
  show ?thesis using e1 e2 e3 x1 x2 x3 by blast
qed

lemma frame_idle:
  "\<not> bit (state s) 0 \<Longrightarrow> entryFrame a b loc s = (loc, s)"
  "\<not> bit (state s) (Suc 0) \<Longrightarrow> exitFrame a b loc s = (loc, s)"
  by (simp_all add: entryFrame_def exitFrame_def flag_simps)

lemma checkCard_stamps [simp]:
  "entryCloseTime (snd (checkCard dir fc cc s)) = entryCloseTime s"
  "exitCloseTime (snd (checkCard dir fc cc s)) = exitCloseTime s"
  by (simp_all add: checkCard_def Let_def)

lemma permitted_stamps [simp]:
  "entryCloseTime (entryPermitted a b fc cc s) = entryCloseTime s"
  "exitCloseTime (entryPermitted a b fc cc s) = exitCloseTime s"
  "entryCloseTime (exitPermitted a b fc cc s) = entryCloseTime s"
  "exitCloseTime (exitPermitted a b fc cc s) = exitCloseTime s"
  by (simp_all add: entryPermitted_def exitPermitted_def entryUnlock_def exitUnlock_def Let_def)

lemma reset_stamps [simp]:
  "entryCloseTime (entryReset s) = entryCloseTime s"
  "exitCloseTime (entryReset s) = exitCloseTime s"
  "entryCloseTime (exitReset s) = entryCloseTime s"
  "exitCloseTime (exitReset s) = exitCloseTime s"
  by (simp_all add: entryReset_def exitReset_def)

lemma entryFrame_stamps [simp]:
  "entryCloseTime (snd (entryFrame a b loc s)) = entryCloseTime s"
  "exitCloseTime (snd (entryFrame a b loc s)) = exitCloseTime s"
proof -
  obtain ok fc cc where d: "weigandDecode (fst loc) (snd loc) (entryBitCount s) (entryDataBits s) = (ok, fc, cc)"
    by (cases "weigandDecode (fst loc) (snd loc) (entryBitCount s) (entryDataBits s)")
  obtain r s1 where c: "checkCard ENTRY fc cc s = (r, s1)" by (cases "checkCard ENTRY fc cc s")
  have s1: "entryCloseTime s1 = entryCloseTime s" "exitCloseTime s1 = exitCloseTime s"
    using checkCard_stamps [of ENTRY fc cc s] c by simp_all
  show "entryCloseTime (snd (entryFrame a b loc s)) = entryCloseTime s"
    "exitCloseTime (snd (entryFrame a b loc s)) = exitCloseTime s"
    by (simp_all add: entryFrame_def d c s1)
qed

lemma exitFrame_stamps [simp]:
  "entryCloseTime (snd (exitFrame a b loc s)) = entryCloseTime s"
  "exitCloseTime (snd (exitFrame a b loc s)) = exitCloseTime s"
proof -
  obtain ok fc cc where d: "weigandDecode (fst loc) (snd loc) (exitBitCount s) (exitDataBits s) = (ok, fc, cc)"
    by (cases "weigandDecode (fst loc) (snd loc) (exitBitCount s) (exitDataBits s)")
  obtain r s1 where c: "checkCard EXIT fc cc s = (r, s1)" by (cases "checkCard EXIT fc cc s")
  have s1: "entryCloseTime s1 = entryCloseTime s" "exitCloseTime s1 = exitCloseTime s"
    using checkCard_stamps [of EXIT fc cc s] c by simp_all
  show "entryCloseTime (snd (exitFrame a b loc s)) = entryCloseTime s"
    "exitCloseTime (snd (exitFrame a b loc s)) = exitCloseTime s"
    by (simp_all add: exitFrame_def d c s1)
qed

lemma early_stamps [simp]:
  "entryCloseTime (bootupNtfy s) = entryCloseTime s"
  "exitCloseTime (bootupNtfy s) = exitCloseTime s"
  "entryCloseTime (entryWeigandDone ms s) = entryCloseTime s"
  "exitCloseTime (entryWeigandDone ms s) = exitCloseTime s"
  "entryCloseTime (exitWeigandDone ms s) = entryCloseTime s"
  "exitCloseTime (exitWeigandDone ms s) = exitCloseTime s"
  "entryCloseTime (doorSwing a b s) = entryCloseTime s"
  "exitCloseTime (doorSwing a b s) = exitCloseTime s"
  "exitCloseTime (entryLockedOpen t d s) = exitCloseTime s"
  by (simp_all add: bootupNtfy_def entryWeigandDone_def exitWeigandDone_def doorSwing_def
      entryLockedOpen_def entryUnlock_def Let_def)

lemma loop_frames_stamps [simp]:
  "entryCloseTime (loop_frames r s) = entryCloseTime s"
  "exitCloseTime (loop_frames r s) = exitCloseTime s"
  by (simp_all add: loop_frames_def Let_def)

lemma ntfy_traces [simp]:
  "entry_pulses (ntfy tp tg pr m s) = entry_pulses s"
  "exit_pulses (ntfy tp tg pr m s) = exit_pulses s"
  "locked_open_notes dir (ntfy tp tg pr m s) =
     locked_open_notes dir s @
     (if m = Locked_open dir
      then [\<lparr>topic = tp, tags = tg, priority = pr, text_of = m,
             sent = (flags (conf s) AND CFG_NTFY_ENABLE \<noteq> 0)\<rparr>]
      else [])"
  by (simp_all add: entry_pulses_def exit_pulses_def locked_open_notes_def ntfy_def ntfy_enabled_iff)

lemma state_update_traces [simp]:
  "entry_pulses (s\<lparr>state := w\<rparr>) = entry_pulses s"
  "exit_pulses (s\<lparr>state := w\<rparr>) = exit_pulses s"
  "locked_open_notes dir (s\<lparr>state := w\<rparr>) = locked_open_notes dir s"
  by (simp_all add: entry_pulses_def exit_pulses_def locked_open_notes_def)

lemma checkCard_traces [simp]:
  "entry_pulses (snd (checkCard dir fc cc s)) = entry_pulses s"
  "exit_pulses (snd (checkCard dir fc cc s)) = exit_pulses s"
  "locked_open_notes d (snd (checkCard dir fc cc s)) = locked_open_notes d s"
  by (simp_all add: checkCard_def Let_def)

lemma unlock_traces [simp]:
  "entry_pulses (entryUnlock s) =
     entry_pulses s @ [DigitalWrite PIN_ENTRY_SOLENOID OPEN, AnalogWrite PIN_ENTRY_SOLENOID 180]"
  "exit_pulses (entryUnlock s) = exit_pulses s"
  "locked_open_notes d (entryUnlock s) = locked_open_notes d s"
  "exit_pulses (exitUnlock s) =
     exit_pulses s @ [DigitalWrite PIN_EXIT_SOLENOID OPEN, AnalogWrite PIN_EXIT_SOLENOID 50]"
  "entry_pulses (exitUnlock s) = entry_pulses s"
  "locked_open_notes d (exitUnlock s) = locked_open_notes d s"
  by (simp_all add: entry_pulses_def exit_pulses_def locked_open_notes_def entryUnlock_def
      exitUnlock_def on_pin_def PIN_ENTRY_SOLENOID_def PIN_EXIT_SOLENOID_def)

lemma actuator_conf [simp]:
  "conf (entryUnlock s) = conf s"
  "conf (exitUnlock s) = conf s"
  "conf (entryLock s) = conf s"
  "conf (exitLock s) = conf s"
  by (simp_all add: entryUnlock_def exitUnlock_def entryLock_def exitLock_def)

lemma lock_traces [simp]:
  "entry_pulses (entryLock s) =
     entry_pulses s @ [DigitalWrite PIN_ENTRY_SOLENOID LOCK, AnalogWrite PIN_ENTRY_SOLENOID 180,
                       DigitalWrite PIN_ENTRY_SOLENOID LOCK]"
  "exit_pulses (entryLock s) = exit_pulses s"
  "locked_open_notes d (entryLock s) = locked_open_notes d s"
  "exit_pulses (exitLock s) =
     exit_pulses s @ [DigitalWrite PIN_EXIT_SOLENOID LOCK, AnalogWrite PIN_EXIT_SOLENOID 180,
                      DigitalWrite PIN_EXIT_SOLENOID LOCK]"
  "entry_pulses (exitLock s) = entry_pulses s"
  "locked_open_notes d (exitLock s) = locked_open_notes d s"
  by (simp_all add: entry_pulses_def exit_pulses_def locked_open_notes_def entryLock_def
      exitLock_def on_pin_def PIN_ENTRY_SOLENOID_def PIN_EXIT_SOLENOID_def)

lemma permitted_traces [simp]:
  "exit_pulses (entryPermitted a b fc cc s) = exit_pulses s"
  "locked_open_notes d (entryPermitted a b fc cc s) = locked_open_notes d s"
  "entry_pulses (exitPermitted a b fc cc s) = entry_pulses s"
  "locked_open_notes d (exitPermitted a b fc cc s) = locked_open_notes d s"
  by (simp_all add: entryPermitted_def exitPermitted_def Let_def)
    (simp_all add: entry_pulses_def exit_pulses_def locked_open_notes_def entryUnlock_def exitUnlock_def
      on_pin_def PIN_ENTRY_SOLENOID_def PIN_EXIT_SOLENOID_def ntfy_def)

lemma reset_traces [simp]:
  "entry_pulses (entryReset s) = entry_pulses s"
  "exit_pulses (entryReset s) = exit_pulses s"
  "locked_open_notes d (entryReset s) = locked_open_notes d s"
  "entry_pulses (exitReset s) = entry_pulses s"
  "exit_pulses (exitReset s) = exit_pulses s"
  "locked_open_notes d (exitReset s) = locked_open_notes d s"
  by (simp_all add: entry_pulses_def exit_pulses_def locked_open_notes_def entryReset_def exitReset_def)

lemma entryFrame_traces [simp]:
  "exit_pulses (snd (entryFrame a b loc s)) = exit_pulses s"
  "locked_open_notes d (snd (entryFrame a b loc s)) = locked_open_notes d s"
proof -
  obtain ok fc cc where d: "weigandDecode (fst loc) (snd loc) (entryBitCount s) (entryDataBits s) = (ok, fc, cc)"
    by (cases "weigandDecode (fst loc) (snd loc) (entryBitCount s) (entryDataBits s)")
  obtain r s1 where c: "checkCard ENTRY fc cc s = (r, s1)" by (cases "checkCard ENTRY fc cc s")
  have s1: "exit_pulses s1 = exit_pulses s" "locked_open_notes d s1 = locked_open_notes d s"
    using checkCard_traces [where dir = ENTRY and fc = fc and cc = cc and s = s] c by simp_all
  show "exit_pulses (snd (entryFrame a b loc s)) = exit_pulses s"
    "locked_open_notes d (snd (entryFrame a b loc s)) = locked_open_notes d s"
    by (simp_all add: entryFrame_def d c s1)
qed

lemma exitFrame_traces [simp]:
  "entry_pulses (snd (exitFrame a b loc s)) = entry_pulses s"
  "locked_open_notes d (snd (exitFrame a b loc s)) = locked_open_notes d s"
proof -
  obtain ok fc cc where d: "weigandDecode (fst loc) (snd loc) (exitBitCount s) (exitDataBits s) = (ok, fc, cc)"
    by (cases "weigandDecode (fst loc) (snd loc) (exitBitCount s) (exitDataBits s)")
  obtain r s1 where c: "checkCard EXIT fc cc s = (r, s1)" by (cases "checkCard EXIT fc cc s")
  have s1: "entry_pulses s1 = entry_pulses s" "locked_open_notes d s1 = locked_open_notes d s"
    using checkCard_traces [where dir = EXIT and fc = fc and cc = cc and s = s] c by simp_all
  show "entry_pulses (snd (exitFrame a b loc s)) = entry_pulses s"
    "locked_open_notes d (snd (exitFrame a b loc s)) = locked_open_notes d s"
    by (simp_all add: exitFrame_def d c s1)
qed

lemma early_traces [simp]:
  "entry_pulses (bootupNtfy s) = entry_pulses s"
  "exit_pulses (bootupNtfy s) = exit_pulses s"
  "locked_open_notes d (bootupNtfy s) = locked_open_notes d s"
  "entry_pulses (entryWeigandDone ms s) = entry_pulses s"
  "exit_pulses (entryWeigandDone ms s) = exit_pulses s"
  "locked_open_notes d (entryWeigandDone ms s) = locked_open_notes d s"
  "entry_pulses (exitWeigandDone ms s) = entry_pulses s"
  "exit_pulses (exitWeigandDone ms s) = exit_pulses s"
  "locked_open_notes d (exitWeigandDone ms s) = locked_open_notes d s"
  "entry_pulses (doorSwing t1 t2 s) = entry_pulses s"
  "exit_pulses (doorSwing t1 t2 s) = exit_pulses s"
  "locked_open_notes d (doorSwing t1 t2 s) = locked_open_notes d s"
  "entry_pulses (lockedOpenDelay s) = entry_pulses s"
  "exit_pulses (lockedOpenDelay s) = exit_pulses s"
  "locked_open_notes d (lockedOpenDelay s) = locked_open_notes d s"
  by (simp_all add: bootupNtfy_def entryWeigandDone_def exitWeigandDone_def Let_def)
    (simp_all add: doorSwing_def lockedOpenDelay_def Let_def entry_pulses_def exit_pulses_def
      locked_open_notes_def on_pin_def)

lemma entryLockedOpen_traces:
  "entry_pulses (entryLockedOpen t d s) =
     entry_pulses s @
     (if \<not> bit (state s) 7 \<and> \<not> bit (state s) 9 \<and> t - entryCloseTime s < 2 \<and> d
      then [DigitalWrite PIN_ENTRY_SOLENOID OPEN, AnalogWrite PIN_ENTRY_SOLENOID 180] else [])"
  "locked_open_notes ENTRY (entryLockedOpen t d s) =
     locked_open_notes ENTRY s @
     (if \<not> bit (state s) 7 \<and> \<not> bit (state s) 9 \<and> t - entryCloseTime s < 2 \<and> d
      then [\<lparr>topic = c_str (ntfy_topic (ntfy_conf (conf s))), tags = ''lock,unlock'',
             priority = 3, text_of = Locked_open ENTRY,
             sent = (flags (conf s) AND CFG_NTFY_ENABLE \<noteq> 0)\<rparr>]
      else [])"
  "exit_pulses (entryLockedOpen t d s) = exit_pulses s"
  "locked_open_notes EXIT (entryLockedOpen t d s) = locked_open_notes EXIT s"
  by (simp_all add: entryLockedOpen_def Let_def flag_simps)

lemma exitLockedOpen_traces:
  "exit_pulses (exitLockedOpen t d s) =
     exit_pulses s @
     (if \<not> bit (state s) 8 \<and> \<not> bit (state s) 10 \<and> t - exitCloseTime s < 2 \<and> d
      then [DigitalWrite PIN_EXIT_SOLENOID OPEN, AnalogWrite PIN_EXIT_SOLENOID 50] else [])"
  "locked_open_notes EXIT (exitLockedOpen t d s) =
     locked_open_notes EXIT s @
     (if \<not> bit (state s) 8 \<and> \<not> bit (state s) 10 \<and> t - exitCloseTime s < 2 \<and> d
      then [\<lparr>topic = c_str (ntfy_topic (ntfy_conf (conf s))), tags = ''lock,unlock'',
             priority = 3, text_of = Locked_open EXIT,
             sent = (flags (conf s) AND CFG_NTFY_ENABLE \<noteq> 0)\<rparr>]
      else [])"
  "entry_pulses (exitLockedOpen t d s) = entry_pulses s"
  "locked_open_notes ENTRY (exitLockedOpen t d s) = locked_open_notes ENTRY s"
  by (simp_all add: exitLockedOpen_def Let_def flag_simps)

lemma field_update_traces [simp]:
  "entry_pulses (s\<lparr>lastFacilityCode := f, lastCardCode := c\<rparr>) = entry_pulses s"
  "exit_pulses (s\<lparr>lastFacilityCode := f, lastCardCode := c\<rparr>) = exit_pulses s"
  "locked_open_notes dir (s\<lparr>lastFacilityCode := f, lastCardCode := c\<rparr>) = locked_open_notes dir s"
  "entry_pulses (s\<lparr>entryCloseTime := t\<rparr>) = entry_pulses s"
  "exit_pulses (s\<lparr>entryCloseTime := t\<rparr>) = exit_pulses s"
  "locked_open_notes dir (s\<lparr>entryCloseTime := t\<rparr>) = locked_open_notes dir s"
  "entry_pulses (s\<lparr>exitCloseTime := t\<rparr>) = entry_pulses s"
  "exit_pulses (s\<lparr>exitCloseTime := t\<rparr>) = exit_pulses s"
  "locked_open_notes dir (s\<lparr>exitCloseTime := t\<rparr>) = locked_open_notes dir s"
  "entry_pulses (s\<lparr>entryCloseAt := t\<rparr>) = entry_pulses s"
  "exit_pulses (s\<lparr>entryCloseAt := t\<rparr>) = exit_pulses s"
  "locked_open_notes dir (s\<lparr>entryCloseAt := t\<rparr>) = locked_open_notes dir s"
  "entry_pulses (s\<lparr>exitCloseAt := t\<rparr>) = entry_pulses s"
  "exit_pulses (s\<lparr>exitCloseAt := t\<rparr>) = exit_pulses s"
  "locked_open_notes dir (s\<lparr>exitCloseAt := t\<rparr>) = locked_open_notes dir s"
  by (simp_all add: entry_pulses_def exit_pulses_def locked_open_notes_def)

lemma relock_traces:
  "entry_pulses (entryRelock d t t' s) =
     entry_pulses s @
     (if bit (state s) 7 \<and> \<not> d \<and> entryCloseAt s < t
      then [DigitalWrite PIN_ENTRY_SOLENOID LOCK, AnalogWrite PIN_ENTRY_SOLENOID 180,
            DigitalWrite PIN_ENTRY_SOLENOID LOCK] else [])"
  "exit_pulses (entryRelock d t t' s) = exit_pulses s"
  "locked_open_notes dir (entryRelock d t t' s) = locked_open_notes dir s"
  "exit_pulses (exitRelock d t t' s) =
     exit_pulses s @
     (if bit (state s) 8 \<and> \<not> d \<and> exitCloseAt s < t
      then [DigitalWrite PIN_EXIT_SOLENOID LOCK, AnalogWrite PIN_EXIT_SOLENOID 180,
            DigitalWrite PIN_EXIT_SOLENOID LOCK] else [])"
  "entry_pulses (exitRelock d t t' s) = entry_pulses s"
  "locked_open_notes dir (exitRelock d t t' s) = locked_open_notes dir s"
  by (simp_all add: entryRelock_def exitRelock_def Let_def flag_simps)

lemma loop_frames_traces:
  "locked_open_notes d (loop_frames r s) = locked_open_notes d s"
  "\<not> entry_frame_ready r s \<Longrightarrow> entry_pulses (loop_frames r s) = entry_pulses s"
  "\<not> exit_frame_ready r s \<Longrightarrow> exit_pulses (loop_frames r s) = exit_pulses s"
proof -
  define s1 where "s1 = exitWeigandDone (ms_exit r) (entryWeigandDone (ms_entry r) (bootupNtfy s))"
  define e where "e = entryFrame (now_entry_unlock r) (now_entry_cat r) (facilityCode0 r, cardCode0 r) s1"
  have lf: "loop_frames r s = snd (exitFrame (now_exit_unlock r) (now_exit_cat r) (fst e) (snd e))"
    by (simp add: loop_frames_def Let_def s1_def e_def)
  show "locked_open_notes d (loop_frames r s) = locked_open_notes d s"
    by (simp add: lf e_def s1_def)
  show "entry_pulses (loop_frames r s) = entry_pulses s" if "\<not> entry_frame_ready r s"
  proof -
    have "\<not> entry_frame_ready r (bootupNtfy s)"
      using that early_capture(1) [of s]
      by (auto simp add: entry_frame_ready_def entry_capture_def flag_simps bootupNtfy_bits)
    then have "\<not> bit (state (entryWeigandDone (ms_entry r) (bootupNtfy s))) 0"
      by (simp add: entryWeigandDone_ready)
    then have "\<not> bit (state s1) 0" by (simp add: s1_def weigandDone_bits)
    then have "snd e = s1" by (simp add: e_def frame_idle)
    then show ?thesis by (simp add: lf s1_def)
  qed
  show "exit_pulses (loop_frames r s) = exit_pulses s" if "\<not> exit_frame_ready r s"
  proof -
    have "\<not> exit_frame_ready r (entryWeigandDone (ms_entry r) (bootupNtfy s))"
      using that early_capture(2) [of s] early_capture(4) [of "ms_entry r" "bootupNtfy s"]
      by (auto simp add: exit_frame_ready_def exit_capture_def flag_simps bootupNtfy_bits weigandDone_bits)
    then have "\<not> bit (state s1) (Suc 0)" by (simp add: s1_def exitWeigandDone_ready)
    then have "\<not> bit (state (snd e)) (Suc 0)" by (simp add: e_def entryFrame_bits)
    then have "loop_frames r s = snd e" by (simp add: lf frame_idle)
    then show ?thesis by (simp add: e_def s1_def)
  qed
qed

text \<open>What the frame blocks do when they reach \<open>case 1\<close>, and what a pass does with it.\<close>

lemma weigandDecode_ok:
  "fst (weigandDecode a b n d) = (n = 26)"
  "n = 26 \<Longrightarrow> weigandDecode a b n d = weigandDecode a' b' n d"
  by (simp_all add: weigandDecode_def)

lemma checkCard_conf:
  "conf s' = conf s \<Longrightarrow> fst (checkCard dir fc cc s') = fst (checkCard dir fc cc s)"
  by (simp add: checkCard_def Let_def)

lemma checkCard_deadlines [simp]:
  "entryCloseAt (snd (checkCard dir fc cc s)) = entryCloseAt s"
  "exitCloseAt (snd (checkCard dir fc cc s)) = exitCloseAt s"
  "conf (snd (checkCard dir fc cc s)) = conf s"
  by (simp_all add: checkCard_def Let_def)

lemma permitted_effects [simp]:
  "entry_pulses (entryPermitted a b fc cc s) =
     entry_pulses s @ [DigitalWrite PIN_ENTRY_SOLENOID OPEN, AnalogWrite PIN_ENTRY_SOLENOID 180]"
  "exit_pulses (exitPermitted a b fc cc s) =
     exit_pulses s @ [DigitalWrite PIN_EXIT_SOLENOID OPEN, AnalogWrite PIN_EXIT_SOLENOID 50]"
  "entryCloseAt (entryPermitted a b fc cc s) = a + DOOR_TIMEOUT_DEFAULT"
  "exitCloseAt (entryPermitted a b fc cc s) = exitCloseAt s"
  "exitCloseAt (exitPermitted a b fc cc s) = a + DOOR_TIMEOUT_DEFAULT"
  "entryCloseAt (exitPermitted a b fc cc s) = entryCloseAt s"
  "conf (entryPermitted a b fc cc s) = conf s"
  "conf (exitPermitted a b fc cc s) = conf s"
  by (simp_all add: entryPermitted_def exitPermitted_def Let_def)
    (simp_all add: entry_pulses_def exit_pulses_def entryUnlock_def exitUnlock_def
      on_pin_def PIN_ENTRY_SOLENOID_def PIN_EXIT_SOLENOID_def ntfy_def)

lemma reset_deadlines [simp]:
  "entryCloseAt (entryReset s) = entryCloseAt s"
  "exitCloseAt (entryReset s) = exitCloseAt s"
  "conf (entryReset s) = conf s"
  "entryCloseAt (exitReset s) = entryCloseAt s"
  "exitCloseAt (exitReset s) = exitCloseAt s"
  "conf (exitReset s) = conf s"
  by (simp_all add: entryReset_def exitReset_def)

lemma entryFrame_case1:
  assumes d: "weigandDecode (fst loc) (snd loc) (entryBitCount s) (entryDataBits s) = (ok, fc, cc)"
  shows "bit (state (snd (entryFrame a b loc s))) 7 =
           (bit (state s) 7 \<or>
            bit (state s) 0 \<and> ok \<and> \<not> bit (state s) 8 \<and> fst (checkCard ENTRY fc cc s) = 1)"
    and "entry_pulses (snd (entryFrame a b loc s)) =
           entry_pulses s @
           (if bit (state s) 0 \<and> ok \<and> \<not> bit (state s) 8 \<and> fst (checkCard ENTRY fc cc s) = 1
            then [DigitalWrite PIN_ENTRY_SOLENOID OPEN, AnalogWrite PIN_ENTRY_SOLENOID 180] else [])"
    and "entryCloseAt (snd (entryFrame a b loc s)) =
           (if bit (state s) 0 \<and> ok \<and> \<not> bit (state s) 8 \<and> fst (checkCard ENTRY fc cc s) = 1
            then a + DOOR_TIMEOUT_DEFAULT else entryCloseAt s)"
    and "exitCloseAt (snd (entryFrame a b loc s)) = exitCloseAt s"
    and "conf (snd (entryFrame a b loc s)) = conf s"
proof -
  obtain r s1 where c: "checkCard ENTRY fc cc s = (r, s1)" by (cases "checkCard ENTRY fc cc s")
  have s1: "state s1 = state s" "entry_pulses s1 = entry_pulses s"
    "entryCloseAt s1 = entryCloseAt s" "exitCloseAt s1 = exitCloseAt s" "conf s1 = conf s"
    using checkCard_state [of ENTRY fc cc s] checkCard_traces(1) [of ENTRY fc cc s]
      checkCard_deadlines [of ENTRY fc cc s] c by simp_all
  show "bit (state (snd (entryFrame a b loc s))) 7 =
           (bit (state s) 7 \<or>
            bit (state s) 0 \<and> ok \<and> \<not> bit (state s) 8 \<and> fst (checkCard ENTRY fc cc s) = 1)"
    by (auto simp add: entryFrame_def d c s1 flag_simps)
  show "entry_pulses (snd (entryFrame a b loc s)) =
           entry_pulses s @
           (if bit (state s) 0 \<and> ok \<and> \<not> bit (state s) 8 \<and> fst (checkCard ENTRY fc cc s) = 1
            then [DigitalWrite PIN_ENTRY_SOLENOID OPEN, AnalogWrite PIN_ENTRY_SOLENOID 180] else [])"
    by (simp add: entryFrame_def d c s1 flag_simps)
  show "entryCloseAt (snd (entryFrame a b loc s)) =
           (if bit (state s) 0 \<and> ok \<and> \<not> bit (state s) 8 \<and> fst (checkCard ENTRY fc cc s) = 1
            then a + DOOR_TIMEOUT_DEFAULT else entryCloseAt s)"
    by (simp add: entryFrame_def d c s1 flag_simps)
  show "exitCloseAt (snd (entryFrame a b loc s)) = exitCloseAt s"
    by (simp add: entryFrame_def d c s1 flag_simps)
  show "conf (snd (entryFrame a b loc s)) = conf s"
    by (simp add: entryFrame_def d c s1 flag_simps)
qed

lemma exitFrame_case1:
  assumes d: "weigandDecode (fst loc) (snd loc) (exitBitCount s) (exitDataBits s) = (ok, fc, cc)"
  shows "bit (state (snd (exitFrame a b loc s))) 8 =
           (bit (state s) 8 \<or>
            bit (state s) (Suc 0) \<and> ok \<and> \<not> bit (state s) 7 \<and> fst (checkCard EXIT fc cc s) = 1)"
    and "exit_pulses (snd (exitFrame a b loc s)) =
           exit_pulses s @
           (if bit (state s) (Suc 0) \<and> ok \<and> \<not> bit (state s) 7 \<and> fst (checkCard EXIT fc cc s) = 1
            then [DigitalWrite PIN_EXIT_SOLENOID OPEN, AnalogWrite PIN_EXIT_SOLENOID 50] else [])"
    and "exitCloseAt (snd (exitFrame a b loc s)) =
           (if bit (state s) (Suc 0) \<and> ok \<and> \<not> bit (state s) 7 \<and> fst (checkCard EXIT fc cc s) = 1
            then a + DOOR_TIMEOUT_DEFAULT else exitCloseAt s)"
    and "entryCloseAt (snd (exitFrame a b loc s)) = entryCloseAt s"
    and "conf (snd (exitFrame a b loc s)) = conf s"
proof -
  obtain r s1 where c: "checkCard EXIT fc cc s = (r, s1)" by (cases "checkCard EXIT fc cc s")
  have s1: "state s1 = state s" "exit_pulses s1 = exit_pulses s"
    "entryCloseAt s1 = entryCloseAt s" "exitCloseAt s1 = exitCloseAt s" "conf s1 = conf s"
    using checkCard_state [of EXIT fc cc s] checkCard_traces(2) [of EXIT fc cc s]
      checkCard_deadlines [of EXIT fc cc s] c by simp_all
  show "bit (state (snd (exitFrame a b loc s))) 8 =
           (bit (state s) 8 \<or>
            bit (state s) (Suc 0) \<and> ok \<and> \<not> bit (state s) 7 \<and> fst (checkCard EXIT fc cc s) = 1)"
    by (auto simp add: exitFrame_def d c s1 flag_simps)
  show "exit_pulses (snd (exitFrame a b loc s)) =
           exit_pulses s @
           (if bit (state s) (Suc 0) \<and> ok \<and> \<not> bit (state s) 7 \<and> fst (checkCard EXIT fc cc s) = 1
            then [DigitalWrite PIN_EXIT_SOLENOID OPEN, AnalogWrite PIN_EXIT_SOLENOID 50] else [])"
    by (simp add: exitFrame_def d c s1 flag_simps)
  show "exitCloseAt (snd (exitFrame a b loc s)) =
           (if bit (state s) (Suc 0) \<and> ok \<and> \<not> bit (state s) 7 \<and> fst (checkCard EXIT fc cc s) = 1
            then a + DOOR_TIMEOUT_DEFAULT else exitCloseAt s)"
    by (simp add: exitFrame_def d c s1 flag_simps)
  show "entryCloseAt (snd (exitFrame a b loc s)) = entryCloseAt s"
    by (simp add: exitFrame_def d c s1 flag_simps)
  show "conf (snd (exitFrame a b loc s)) = conf s"
    by (simp add: exitFrame_def d c s1 flag_simps)
qed


lemma ready_early:
  "entry_frame_ready r (bootupNtfy s) = entry_frame_ready r s"
  "exit_frame_ready r (entryWeigandDone ms (bootupNtfy s)) = exit_frame_ready r s"
  using early_capture(1) [of s] early_capture(2) [of s] early_capture(4) [of ms "bootupNtfy s"]
  by (auto simp add: entry_frame_ready_def exit_frame_ready_def entry_capture_def exit_capture_def
      flag_simps bootupNtfy_bits weigandDone_bits)

lemma early_conf [simp]:
  "conf (bootupNtfy s) = conf s"
  "conf (entryWeigandDone ms s) = conf s"
  "conf (exitWeigandDone ms s) = conf s"
  "entryCloseAt (bootupNtfy s) = entryCloseAt s"
  "entryCloseAt (entryWeigandDone ms s) = entryCloseAt s"
  "entryCloseAt (exitWeigandDone ms s) = entryCloseAt s"
  "exitCloseAt (bootupNtfy s) = exitCloseAt s"
  "exitCloseAt (entryWeigandDone ms s) = exitCloseAt s"
  "exitCloseAt (exitWeigandDone ms s) = exitCloseAt s"
  by (simp_all add: bootupNtfy_def entryWeigandDone_def exitWeigandDone_def Let_def)

lemma loop_frames_entry_admitted:
  "bit (state (loop_frames r s)) 7 = (bit (state s) 7 \<or> entry_admitted r s)"
  "entry_pulses (loop_frames r s) =
     entry_pulses s @
     (if entry_admitted r s
      then [DigitalWrite PIN_ENTRY_SOLENOID OPEN, AnalogWrite PIN_ENTRY_SOLENOID 180] else [])"
  "entryCloseAt (loop_frames r s) =
     (if entry_admitted r s then now_entry_unlock r + DOOR_TIMEOUT_DEFAULT else entryCloseAt s)"
proof -
  define s1 where "s1 = exitWeigandDone (ms_exit r) (entryWeigandDone (ms_entry r) (bootupNtfy s))"
  define e where "e = entryFrame (now_entry_unlock r) (now_entry_cat r) (facilityCode0 r, cardCode0 r) s1"
  have lf: "loop_frames r s = snd (exitFrame (now_exit_unlock r) (now_exit_cat r) (fst e) (snd e))"
    by (simp add: loop_frames_def Let_def s1_def e_def)
  obtain ok fc cc where
    d: "weigandDecode (facilityCode0 r) (cardCode0 r) (entryBitCount s) (entryDataBits s) = (ok, fc, cc)"
    by (cases "weigandDecode (facilityCode0 r) (cardCode0 r) (entryBitCount s) (entryDataBits s)")
  have "entry_capture s1 = entry_capture s" by (simp add: s1_def)
  then have cap: "entryBitCount s1 = entryBitCount s" "entryDataBits s1 = entryDataBits s"
    by (simp_all add: entry_capture_def)
  have b0: "bit (state s1) 0 = entry_frame_ready r s"
    using entryWeigandDone_ready [of r "bootupNtfy s"]
    by (simp add: s1_def weigandDone_bits ready_early)
  have b78: "bit (state s1) 7 = bit (state s) 7" "bit (state s1) 8 = bit (state s) 8"
    by (simp_all add: s1_def weigandDone_bits bootupNtfy_bits)
  have cf: "fst (checkCard ENTRY fc cc s1) = fst (checkCard ENTRY fc cc s)"
    by (rule checkCard_conf) (simp add: s1_def)
  have adm: "(bit (state s1) 0 \<and> ok \<and> \<not> bit (state s1) 8 \<and> fst (checkCard ENTRY fc cc s1) = 1) =
             entry_admitted r s"
    by (simp add: entry_admitted_def d b0 b78 cf flag_simps)
  have d1: "weigandDecode (fst (facilityCode0 r, cardCode0 r)) (snd (facilityCode0 r, cardCode0 r))
              (entryBitCount s1) (entryDataBits s1) = (ok, fc, cc)"
    using d by (simp add: cap)
  note ef = entryFrame_case1 [OF d1, of "now_entry_unlock r" "now_entry_cat r", folded e_def,
      unfolded adm]
  show "bit (state (loop_frames r s)) 7 = (bit (state s) 7 \<or> entry_admitted r s)"
    using ef(1) b78 by (simp add: lf exitFrame_bits)
  show "entry_pulses (loop_frames r s) =
     entry_pulses s @
     (if entry_admitted r s
      then [DigitalWrite PIN_ENTRY_SOLENOID OPEN, AnalogWrite PIN_ENTRY_SOLENOID 180] else [])"
    using ef(2) by (simp add: lf s1_def)
  have "entryCloseAt (loop_frames r s) = entryCloseAt (snd e)"
    unfolding lf
  proof -
    obtain ok' fc' cc' where
      d2: "weigandDecode (fst (fst e)) (snd (fst e)) (exitBitCount (snd e)) (exitDataBits (snd e)) =
             (ok', fc', cc')"
      by (cases "weigandDecode (fst (fst e)) (snd (fst e)) (exitBitCount (snd e)) (exitDataBits (snd e))")
    show "entryCloseAt (snd (exitFrame (now_exit_unlock r) (now_exit_cat r) (fst e) (snd e))) =
          entryCloseAt (snd e)"
      by (rule exitFrame_case1(4) [OF d2])
  qed
  then show "entryCloseAt (loop_frames r s) =
     (if entry_admitted r s then now_entry_unlock r + DOOR_TIMEOUT_DEFAULT else entryCloseAt s)"
    using ef(3) by (simp add: s1_def)
qed

lemma loop_frames_exit_admitted:
  "bit (state (loop_frames r s)) 8 = (bit (state s) 8 \<or> exit_admitted r s)"
  "exit_pulses (loop_frames r s) =
     exit_pulses s @
     (if exit_admitted r s
      then [DigitalWrite PIN_EXIT_SOLENOID OPEN, AnalogWrite PIN_EXIT_SOLENOID 50] else [])"
  "exitCloseAt (loop_frames r s) =
     (if exit_admitted r s then now_exit_unlock r + DOOR_TIMEOUT_DEFAULT else exitCloseAt s)"
proof -
  define s1 where "s1 = exitWeigandDone (ms_exit r) (entryWeigandDone (ms_entry r) (bootupNtfy s))"
  define e where "e = entryFrame (now_entry_unlock r) (now_entry_cat r) (facilityCode0 r, cardCode0 r) s1"
  have lf: "loop_frames r s = snd (exitFrame (now_exit_unlock r) (now_exit_cat r) (fst e) (snd e))"
    by (simp add: loop_frames_def Let_def s1_def e_def)
  obtain ok1 fc1 cc1 where
    d1: "weigandDecode (fst (facilityCode0 r, cardCode0 r)) (snd (facilityCode0 r, cardCode0 r))
           (entryBitCount s1) (entryDataBits s1) = (ok1, fc1, cc1)"
    by (cases "weigandDecode (fst (facilityCode0 r, cardCode0 r)) (snd (facilityCode0 r, cardCode0 r))
           (entryBitCount s1) (entryDataBits s1)")
  note ef = entryFrame_case1 [OF d1, of "now_entry_unlock r" "now_entry_cat r", folded e_def]
  have e7: "bit (state (snd e)) 7 = (bit (state s) 7 \<or> entry_admitted r s)"
    using loop_frames_entry_admitted(1) [of r s] by (simp add: lf exitFrame_bits)
  have "exit_capture (snd e) = exit_capture s"
    by (simp add: e_def s1_def entryFrame_capture)
  then have cap: "exitBitCount (snd e) = exitBitCount s" "exitDataBits (snd e) = exitDataBits s"
    by (simp_all add: exit_capture_def)
  have b1: "bit (state (snd e)) (Suc 0) = exit_frame_ready r s"
    using exitWeigandDone_ready [of r "entryWeigandDone (ms_entry r) (bootupNtfy s)"]
    by (simp add: e_def s1_def entryFrame_bits ready_early)
  have b8: "bit (state (snd e)) 8 = bit (state s) 8"
    by (simp add: e_def s1_def entryFrame_bits weigandDone_bits bootupNtfy_bits)
  have cfe: "conf (snd e) = conf s"
    using ef(5) by (simp add: s1_def)
  obtain ok fc cc where
    d: "weigandDecode (fst (fst e)) (snd (fst e)) (exitBitCount (snd e)) (exitDataBits (snd e)) =
          (ok, fc, cc)"
    by (cases "weigandDecode (fst (fst e)) (snd (fst e)) (exitBitCount (snd e)) (exitDataBits (snd e))")
  have cf: "fst (checkCard EXIT fc cc (snd e)) = fst (checkCard EXIT fc cc s)"
    using cfe by (rule checkCard_conf)
  have adm: "(bit (state (snd e)) (Suc 0) \<and> ok \<and> \<not> bit (state (snd e)) 7 \<and>
              fst (checkCard EXIT fc cc (snd e)) = 1) = exit_admitted r s"
    using d by (auto simp add: exit_admitted_def b1 e7 cf cap flag_simps weigandDecode_def
        split: if_splits)
  note xf = exitFrame_case1 [OF d, of "now_exit_unlock r" "now_exit_cat r", folded lf, unfolded adm]
  show "bit (state (loop_frames r s)) 8 = (bit (state s) 8 \<or> exit_admitted r s)"
    using xf(1) b8 by simp
  show "exit_pulses (loop_frames r s) =
     exit_pulses s @
     (if exit_admitted r s
      then [DigitalWrite PIN_EXIT_SOLENOID OPEN, AnalogWrite PIN_EXIT_SOLENOID 50] else [])"
    using xf(2) by (simp add: e_def s1_def)
  show "exitCloseAt (loop_frames r s) =
     (if exit_admitted r s then now_exit_unlock r + DOOR_TIMEOUT_DEFAULT else exitCloseAt s)"
    using xf(3) ef(4) by (simp add: s1_def)
qed


lemma late_deadlines [simp]:
  "entryCloseAt (entryLockedOpen t d s) = entryCloseAt s"
  "exitCloseAt (entryLockedOpen t d s) = exitCloseAt s"
  "entryCloseAt (exitLockedOpen t d s) = entryCloseAt s"
  "exitCloseAt (exitLockedOpen t d s) = exitCloseAt s"
  "entryCloseTime (exitLockedOpen t d s) = entryCloseTime s"
  "entryCloseAt (lockedOpenDelay s) = entryCloseAt s"
  "exitCloseAt (lockedOpenDelay s) = exitCloseAt s"
  "exitCloseAt (entryRelock d t t' s) = exitCloseAt s"
  by (simp_all add: entryLockedOpen_def exitLockedOpen_def lockedOpenDelay_def entryRelock_def
      entryLock_def entryUnlock_def exitUnlock_def Let_def)

lemma late_conf [simp]:
  "conf (doorSwing a b s) = conf s"
  "conf (entryLockedOpen t d s) = conf s"
  "conf (exitLockedOpen t d s) = conf s"
  "conf (lockedOpenDelay s) = conf s"
  by (simp_all add: doorSwing_def entryLockedOpen_def exitLockedOpen_def lockedOpenDelay_def Let_def)

lemma loop_frames_conf [simp]: "conf (loop_frames r s) = conf s"
proof -
  define s1 where "s1 = exitWeigandDone (ms_exit r) (entryWeigandDone (ms_entry r) (bootupNtfy s))"
  define e where "e = entryFrame (now_entry_unlock r) (now_entry_cat r) (facilityCode0 r, cardCode0 r) s1"
  have lf: "loop_frames r s = snd (exitFrame (now_exit_unlock r) (now_exit_cat r) (fst e) (snd e))"
    by (simp add: loop_frames_def Let_def s1_def e_def)
  obtain ok fc cc where
    d: "weigandDecode (fst (facilityCode0 r, cardCode0 r)) (snd (facilityCode0 r, cardCode0 r))
          (entryBitCount s1) (entryDataBits s1) = (ok, fc, cc)"
    by (cases "weigandDecode (fst (facilityCode0 r, cardCode0 r)) (snd (facilityCode0 r, cardCode0 r))
          (entryBitCount s1) (entryDataBits s1)")
  obtain ok' fc' cc' where
    d': "weigandDecode (fst (fst e)) (snd (fst e)) (exitBitCount (snd e)) (exitDataBits (snd e)) =
           (ok', fc', cc')"
    by (cases "weigandDecode (fst (fst e)) (snd (fst e)) (exitBitCount (snd e)) (exitDataBits (snd e))")
  have "conf (snd e) = conf s1"
    unfolding e_def by (rule entryFrame_case1(5) [OF d])
  moreover have "conf (loop_frames r s) = conf (snd e)"
    unfolding lf by (rule exitFrame_case1(5) [OF d'])
  ultimately show ?thesis by (simp add: s1_def)
qed

lemma doorSwing_deadlines:
  "entryCloseAt (doorSwing a b s) =
     (if bit (state s) 4 \<and> bit (state s) 7 then a + DOOR_SWING_TIMEOUT_DEFAULT else entryCloseAt s)"
  "exitCloseAt (doorSwing a b s) =
     (if bit (state s) 4 \<and> bit (state s) 8 then b + DOOR_SWING_TIMEOUT_DEFAULT else exitCloseAt s)"
  by (simp_all add: doorSwing_def Let_def flag_simps)

lemma tick_entry_locked:
  assumes l: "entry_lock s = Locked"
  shows "\<not> entry_admitted r s \<and> door_open_entry r \<and> now_open_entry r - entryCloseTime s < 2 \<longrightarrow>
           locked_open_notes ENTRY (loop r s) = locked_open_notes ENTRY s @
             [\<lparr>topic = c_str (ntfy_topic (ntfy_conf (conf s))), tags = ''lock,unlock'',
               priority = 3, text_of = Locked_open ENTRY,
               sent = (flags (conf s) AND CFG_NTFY_ENABLE \<noteq> 0)\<rparr>] \<and>
           (if \<not> door_relock_entry r \<and> entryCloseAt s < now_relock_entry r
            then entry_lock (loop r s) = Locked \<and>
                 entry_pulses (loop r s) =
                   entry_pulses s @
                   [DigitalWrite PIN_ENTRY_SOLENOID OPEN, AnalogWrite PIN_ENTRY_SOLENOID 180,
                    DigitalWrite PIN_ENTRY_SOLENOID LOCK, AnalogWrite PIN_ENTRY_SOLENOID 180,
                    DigitalWrite PIN_ENTRY_SOLENOID LOCK]
            else entry_lock (loop r s) = LockedOpen \<and>
                 entry_pulses (loop r s) =
                   entry_pulses s @
                   [DigitalWrite PIN_ENTRY_SOLENOID OPEN, AnalogWrite PIN_ENTRY_SOLENOID 180])"
    and "\<not> entry_admitted r s \<and> \<not> (door_open_entry r \<and> now_open_entry r - entryCloseTime s < 2) \<longrightarrow>
           entry_lock (loop r s) = Locked \<and> entry_pulses (loop r s) = entry_pulses s \<and>
           locked_open_notes ENTRY (loop r s) = locked_open_notes ENTRY s"
    and "entry_admitted r s \<longrightarrow>
           entry_lock (loop r s) \<noteq> LockedOpen \<and>
           locked_open_notes ENTRY (loop r s) = locked_open_notes ENTRY s \<and>
           entry_pulses (loop r s) =
             entry_pulses s @
             [DigitalWrite PIN_ENTRY_SOLENOID OPEN, AnalogWrite PIN_ENTRY_SOLENOID 180] @
             (if entry_lock (loop r s) = Locked
              then [DigitalWrite PIN_ENTRY_SOLENOID LOCK, AnalogWrite PIN_ENTRY_SOLENOID 180,
                    DigitalWrite PIN_ENTRY_SOLENOID LOCK] else [])"
proof -
  let ?d = "doorSwing (now_swing_entry r) (now_swing_exit r) (loop_frames r s)"
  have s79: "\<not> bit (state s) 7" "\<not> bit (state s) 9"
    using l by (simp_all add: lock_state_bits)
  have b: "bit (state ?d) 7 = entry_admitted r s" "\<not> bit (state ?d) 9"
    "entryCloseTime ?d = entryCloseTime s"
    using s79 by (simp_all add: doorSwing_bits loop_frames_bits loop_frames_entry_admitted)
  have t: "entry_pulses ?d =
             entry_pulses s @
             (if entry_admitted r s
              then [DigitalWrite PIN_ENTRY_SOLENOID OPEN, AnalogWrite PIN_ENTRY_SOLENOID 180] else [])"
    "locked_open_notes ENTRY ?d = locked_open_notes ENTRY s"
    by (simp_all add: loop_frames_traces loop_frames_entry_admitted)
  have c: "\<not> entry_admitted r s \<Longrightarrow> entryCloseAt ?d = entryCloseAt s"
    using s79 by (simp add: doorSwing_deadlines loop_frames_entry_admitted)
  note sm = loop_def loop_locks_def lock_state_bits relock_traces exitLockedOpen_traces
    entryLockedOpen_traces exitRelock_bits entryRelock_bits exitLockedOpen_bits entryLockedOpen_bits
  show "\<not> entry_admitted r s \<and> door_open_entry r \<and> now_open_entry r - entryCloseTime s < 2 \<longrightarrow>
           locked_open_notes ENTRY (loop r s) = locked_open_notes ENTRY s @
             [\<lparr>topic = c_str (ntfy_topic (ntfy_conf (conf s))), tags = ''lock,unlock'',
               priority = 3, text_of = Locked_open ENTRY,
               sent = (flags (conf s) AND CFG_NTFY_ENABLE \<noteq> 0)\<rparr>] \<and>
           (if \<not> door_relock_entry r \<and> entryCloseAt s < now_relock_entry r
            then entry_lock (loop r s) = Locked \<and>
                 entry_pulses (loop r s) =
                   entry_pulses s @
                   [DigitalWrite PIN_ENTRY_SOLENOID OPEN, AnalogWrite PIN_ENTRY_SOLENOID 180,
                    DigitalWrite PIN_ENTRY_SOLENOID LOCK, AnalogWrite PIN_ENTRY_SOLENOID 180,
                    DigitalWrite PIN_ENTRY_SOLENOID LOCK]
            else entry_lock (loop r s) = LockedOpen \<and>
                 entry_pulses (loop r s) =
                   entry_pulses s @
                   [DigitalWrite PIN_ENTRY_SOLENOID OPEN, AnalogWrite PIN_ENTRY_SOLENOID 180])"
    using b t c by (simp add: sm)
  show "\<not> entry_admitted r s \<and> \<not> (door_open_entry r \<and> now_open_entry r - entryCloseTime s < 2) \<longrightarrow>
           entry_lock (loop r s) = Locked \<and> entry_pulses (loop r s) = entry_pulses s \<and>
           locked_open_notes ENTRY (loop r s) = locked_open_notes ENTRY s"
    using b t c by (auto simp add: sm)
  show "entry_admitted r s \<longrightarrow>
           entry_lock (loop r s) \<noteq> LockedOpen \<and>
           locked_open_notes ENTRY (loop r s) = locked_open_notes ENTRY s \<and>
           entry_pulses (loop r s) =
             entry_pulses s @
             [DigitalWrite PIN_ENTRY_SOLENOID OPEN, AnalogWrite PIN_ENTRY_SOLENOID 180] @
             (if entry_lock (loop r s) = Locked
              then [DigitalWrite PIN_ENTRY_SOLENOID LOCK, AnalogWrite PIN_ENTRY_SOLENOID 180,
                    DigitalWrite PIN_ENTRY_SOLENOID LOCK] else [])"
    using b t by (auto simp add: sm)
qed

lemma tick_exit_locked:
  assumes l: "exit_lock s = Locked"
  shows "\<not> exit_admitted r s \<and> door_open_exit r \<and> now_open_exit r - exitCloseTime s < 2 \<longrightarrow>
           locked_open_notes EXIT (loop r s) = locked_open_notes EXIT s @
             [\<lparr>topic = c_str (ntfy_topic (ntfy_conf (conf s))), tags = ''lock,unlock'',
               priority = 3, text_of = Locked_open EXIT,
               sent = (flags (conf s) AND CFG_NTFY_ENABLE \<noteq> 0)\<rparr>] \<and>
           (if \<not> door_relock_exit r \<and> exitCloseAt s < now_relock_exit r
            then exit_lock (loop r s) = Locked \<and>
                 exit_pulses (loop r s) =
                   exit_pulses s @
                   [DigitalWrite PIN_EXIT_SOLENOID OPEN, AnalogWrite PIN_EXIT_SOLENOID 50,
                    DigitalWrite PIN_EXIT_SOLENOID LOCK, AnalogWrite PIN_EXIT_SOLENOID 180,
                    DigitalWrite PIN_EXIT_SOLENOID LOCK]
            else exit_lock (loop r s) = LockedOpen \<and>
                 exit_pulses (loop r s) =
                   exit_pulses s @
                   [DigitalWrite PIN_EXIT_SOLENOID OPEN, AnalogWrite PIN_EXIT_SOLENOID 50])"
    and "\<not> exit_admitted r s \<and> \<not> (door_open_exit r \<and> now_open_exit r - exitCloseTime s < 2) \<longrightarrow>
           exit_lock (loop r s) = Locked \<and> exit_pulses (loop r s) = exit_pulses s \<and>
           locked_open_notes EXIT (loop r s) = locked_open_notes EXIT s"
    and "exit_admitted r s \<longrightarrow>
           exit_lock (loop r s) \<noteq> LockedOpen \<and>
           locked_open_notes EXIT (loop r s) = locked_open_notes EXIT s \<and>
           exit_pulses (loop r s) =
             exit_pulses s @
             [DigitalWrite PIN_EXIT_SOLENOID OPEN, AnalogWrite PIN_EXIT_SOLENOID 50] @
             (if exit_lock (loop r s) = Locked
              then [DigitalWrite PIN_EXIT_SOLENOID LOCK, AnalogWrite PIN_EXIT_SOLENOID 180,
                    DigitalWrite PIN_EXIT_SOLENOID LOCK] else [])"
proof -
  let ?d = "doorSwing (now_swing_entry r) (now_swing_exit r) (loop_frames r s)"
  have s810: "\<not> bit (state s) 8" "\<not> bit (state s) 10"
    using l by (simp_all add: lock_state_bits)
  have b: "bit (state ?d) 8 = exit_admitted r s" "\<not> bit (state ?d) 10"
    "exitCloseTime ?d = exitCloseTime s"
    using s810 by (simp_all add: doorSwing_bits loop_frames_bits loop_frames_exit_admitted)
  have t: "exit_pulses ?d =
             exit_pulses s @
             (if exit_admitted r s
              then [DigitalWrite PIN_EXIT_SOLENOID OPEN, AnalogWrite PIN_EXIT_SOLENOID 50] else [])"
    "locked_open_notes EXIT ?d = locked_open_notes EXIT s"
    by (simp_all add: loop_frames_traces loop_frames_exit_admitted)
  have c: "\<not> exit_admitted r s \<Longrightarrow> exitCloseAt ?d = exitCloseAt s"
    using s810 by (simp add: doorSwing_deadlines loop_frames_exit_admitted)
  note sm = loop_def loop_locks_def lock_state_bits relock_traces exitLockedOpen_traces
    entryLockedOpen_traces exitRelock_bits entryRelock_bits exitLockedOpen_bits entryLockedOpen_bits
  show "\<not> exit_admitted r s \<and> door_open_exit r \<and> now_open_exit r - exitCloseTime s < 2 \<longrightarrow>
           locked_open_notes EXIT (loop r s) = locked_open_notes EXIT s @
             [\<lparr>topic = c_str (ntfy_topic (ntfy_conf (conf s))), tags = ''lock,unlock'',
               priority = 3, text_of = Locked_open EXIT,
               sent = (flags (conf s) AND CFG_NTFY_ENABLE \<noteq> 0)\<rparr>] \<and>
           (if \<not> door_relock_exit r \<and> exitCloseAt s < now_relock_exit r
            then exit_lock (loop r s) = Locked \<and>
                 exit_pulses (loop r s) =
                   exit_pulses s @
                   [DigitalWrite PIN_EXIT_SOLENOID OPEN, AnalogWrite PIN_EXIT_SOLENOID 50,
                    DigitalWrite PIN_EXIT_SOLENOID LOCK, AnalogWrite PIN_EXIT_SOLENOID 180,
                    DigitalWrite PIN_EXIT_SOLENOID LOCK]
            else exit_lock (loop r s) = LockedOpen \<and>
                 exit_pulses (loop r s) =
                   exit_pulses s @
                   [DigitalWrite PIN_EXIT_SOLENOID OPEN, AnalogWrite PIN_EXIT_SOLENOID 50])"
    using b t c by (simp add: sm)
  show "\<not> exit_admitted r s \<and> \<not> (door_open_exit r \<and> now_open_exit r - exitCloseTime s < 2) \<longrightarrow>
           exit_lock (loop r s) = Locked \<and> exit_pulses (loop r s) = exit_pulses s \<and>
           locked_open_notes EXIT (loop r s) = locked_open_notes EXIT s"
    using b t c by (auto simp add: sm)
  show "exit_admitted r s \<longrightarrow>
           exit_lock (loop r s) \<noteq> LockedOpen \<and>
           locked_open_notes EXIT (loop r s) = locked_open_notes EXIT s \<and>
           exit_pulses (loop r s) =
             exit_pulses s @
             [DigitalWrite PIN_EXIT_SOLENOID OPEN, AnalogWrite PIN_EXIT_SOLENOID 50] @
             (if exit_lock (loop r s) = Locked
              then [DigitalWrite PIN_EXIT_SOLENOID LOCK, AnalogWrite PIN_EXIT_SOLENOID 180,
                    DigitalWrite PIN_EXIT_SOLENOID LOCK] else [])"
    using b t by (auto simp add: sm)
qed

lemma relock_stamps:
  "entryCloseTime (entryRelock d t t' s) =
     (if bit (state s) 7 \<and> \<not> d \<and> entryCloseAt s < t \<and> \<not> bit (state s) 9
      then t' else entryCloseTime s)"
  "exitCloseTime (entryRelock d t t' s) = exitCloseTime s"
  "exitCloseTime (exitRelock d t t' s) =
     (if bit (state s) 8 \<and> \<not> d \<and> exitCloseAt s < t \<and> \<not> bit (state s) 10
      then t' else exitCloseTime s)"
  "entryCloseTime (exitRelock d t t' s) = entryCloseTime s"
  by (simp_all add: entryRelock_def exitRelock_def entryLock_def exitLock_def Let_def flag_simps)

lemma check_stamps [simp]:
  "entryCloseTime (entryLockedOpen t d s) = entryCloseTime s"
  "exitCloseTime (exitLockedOpen t d s) = exitCloseTime s"
  "entryCloseTime (lockedOpenDelay s) = entryCloseTime s"
  "exitCloseTime (lockedOpenDelay s) = exitCloseTime s"
  by (simp_all add: entryLockedOpen_def exitLockedOpen_def lockedOpenDelay_def entryUnlock_def
      exitUnlock_def Let_def)

lemma pass_stamps:
  "entryCloseTime (loop r s) =
     (if entry_relocks r s \<and> entry_lock (after_checks r s) \<noteq> LockedOpen
      then now_locked_entry r else entryCloseTime s)"
  "exitCloseTime (loop r s) =
     (if exit_relocks r s \<and> exit_lock (after_checks r s) \<noteq> LockedOpen
      then now_locked_exit r else exitCloseTime s)"
proof -
  have a: "entryCloseTime (after_checks r s) = entryCloseTime s"
    "exitCloseTime (after_checks r s) = exitCloseTime s"
    by (simp_all add: after_checks_def after_entry_check_def before_checks_def)
  show "entryCloseTime (loop r s) =
     (if entry_relocks r s \<and> entry_lock (after_checks r s) \<noteq> LockedOpen
      then now_locked_entry r else entryCloseTime s)"
    using a by (simp add: loop_after_checks relock_stamps entry_relocks_def Let_def flag_simps
        lock_state_bits)
  show "exitCloseTime (loop r s) =
     (if exit_relocks r s \<and> exit_lock (after_checks r s) \<noteq> LockedOpen
      then now_locked_exit r else exitCloseTime s)"
    using a by (simp add: loop_after_checks relock_stamps exit_relocks_def Let_def flag_simps
        lock_state_bits entryRelock_bits)
qed

lemma conj_impI: "(L \<Longrightarrow> A \<longrightarrow> C) \<Longrightarrow> L \<and> A \<longrightarrow> C"
  by blast

lemma tick_entry:
  "entry_lock s = Locked \<and> \<not> entry_admitted r s \<and>
      door_open_entry r \<and> now_open_entry r - entryCloseTime s < 2 \<longrightarrow>
      locked_open_notes ENTRY (loop r s) = locked_open_notes ENTRY s @
        [\<lparr>topic = c_str (ntfy_topic (ntfy_conf (conf s))), tags = ''lock,unlock'',
          priority = 3, text_of = Locked_open ENTRY,
          sent = (flags (conf s) AND CFG_NTFY_ENABLE \<noteq> 0)\<rparr>] \<and>
      (if \<not> door_relock_entry r \<and> entryCloseAt s < now_relock_entry r
       then entry_lock (loop r s) = Locked \<and>
            entry_pulses (loop r s) =
              entry_pulses s @
              [DigitalWrite PIN_ENTRY_SOLENOID OPEN, AnalogWrite PIN_ENTRY_SOLENOID 180,
               DigitalWrite PIN_ENTRY_SOLENOID LOCK, AnalogWrite PIN_ENTRY_SOLENOID 180,
               DigitalWrite PIN_ENTRY_SOLENOID LOCK]
       else entry_lock (loop r s) = LockedOpen \<and>
            entry_pulses (loop r s) =
              entry_pulses s @
              [DigitalWrite PIN_ENTRY_SOLENOID OPEN, AnalogWrite PIN_ENTRY_SOLENOID 180])"
  "entry_lock s = Locked \<and> \<not> entry_admitted r s \<and>
      \<not> (door_open_entry r \<and> now_open_entry r - entryCloseTime s < 2) \<longrightarrow>
      entry_lock (loop r s) = Locked \<and> entry_pulses (loop r s) = entry_pulses s \<and>
      locked_open_notes ENTRY (loop r s) = locked_open_notes ENTRY s"
  "entry_lock s = Locked \<and> entry_admitted r s \<longrightarrow>
      entry_lock (loop r s) \<noteq> LockedOpen \<and>
      locked_open_notes ENTRY (loop r s) = locked_open_notes ENTRY s \<and>
      entry_pulses (loop r s) =
        entry_pulses s @
        [DigitalWrite PIN_ENTRY_SOLENOID OPEN, AnalogWrite PIN_ENTRY_SOLENOID 180] @
        (if entry_lock (loop r s) = Locked
         then [DigitalWrite PIN_ENTRY_SOLENOID LOCK, AnalogWrite PIN_ENTRY_SOLENOID 180,
               DigitalWrite PIN_ENTRY_SOLENOID LOCK] else [])"
  by (rule conj_impI, rule tick_entry_locked, assumption)+

lemma tick_exit:
  "exit_lock s = Locked \<and> \<not> exit_admitted r s \<and>
      door_open_exit r \<and> now_open_exit r - exitCloseTime s < 2 \<longrightarrow>
      locked_open_notes EXIT (loop r s) = locked_open_notes EXIT s @
        [\<lparr>topic = c_str (ntfy_topic (ntfy_conf (conf s))), tags = ''lock,unlock'',
          priority = 3, text_of = Locked_open EXIT,
          sent = (flags (conf s) AND CFG_NTFY_ENABLE \<noteq> 0)\<rparr>] \<and>
      (if \<not> door_relock_exit r \<and> exitCloseAt s < now_relock_exit r
       then exit_lock (loop r s) = Locked \<and>
            exit_pulses (loop r s) =
              exit_pulses s @
              [DigitalWrite PIN_EXIT_SOLENOID OPEN, AnalogWrite PIN_EXIT_SOLENOID 50,
               DigitalWrite PIN_EXIT_SOLENOID LOCK, AnalogWrite PIN_EXIT_SOLENOID 180,
               DigitalWrite PIN_EXIT_SOLENOID LOCK]
       else exit_lock (loop r s) = LockedOpen \<and>
            exit_pulses (loop r s) =
              exit_pulses s @
              [DigitalWrite PIN_EXIT_SOLENOID OPEN, AnalogWrite PIN_EXIT_SOLENOID 50])"
  "exit_lock s = Locked \<and> \<not> exit_admitted r s \<and>
      \<not> (door_open_exit r \<and> now_open_exit r - exitCloseTime s < 2) \<longrightarrow>
      exit_lock (loop r s) = Locked \<and> exit_pulses (loop r s) = exit_pulses s \<and>
      locked_open_notes EXIT (loop r s) = locked_open_notes EXIT s"
  "exit_lock s = Locked \<and> exit_admitted r s \<longrightarrow>
      exit_lock (loop r s) \<noteq> LockedOpen \<and>
      locked_open_notes EXIT (loop r s) = locked_open_notes EXIT s \<and>
      exit_pulses (loop r s) =
        exit_pulses s @
        [DigitalWrite PIN_EXIT_SOLENOID OPEN, AnalogWrite PIN_EXIT_SOLENOID 50] @
        (if exit_lock (loop r s) = Locked
         then [DigitalWrite PIN_EXIT_SOLENOID LOCK, AnalogWrite PIN_EXIT_SOLENOID 180,
               DigitalWrite PIN_EXIT_SOLENOID LOCK] else [])"
  by (rule conj_impI, rule tick_exit_locked, assumption)+

text \<open>
  C7, as amended. Take a pass that starts with a direction \<open>Locked\<close> and does not admit a
  card for that direction. If its locked-open check reads the door sensor open and the
  clock less than two seconds past the direction's stamp (\<open>entryCloseTime\<close>,
  \<open>exitCloseTime\<close>), the pass drives the lock open and calls the notification sink once
  with the locked-open message, on the default topic; the message is posted if
  notifications are enabled. The pass ends with the direction \<open>LockedOpen\<close>, unless the
  direction's re-lock block, which reads the sensor and the clock again, finds the sensor
  closed and the deadline passed: then the pass also drives the lock closed and ends with
  the direction \<open>Locked\<close>. If the check reads the sensor closed, or the clock two seconds
  or more past the stamp, the pass writes nothing to the direction's pin, makes no
  locked-open call and ends with the direction \<open>Locked\<close>. A pass that starts with the
  direction \<open>Locked\<close> and admits a card for it drives the lock open for the card; it
  makes no locked-open call and ends with the direction \<open>Unlocked\<close>, or \<open>Locked\<close> when
  the re-lock block ran, but never \<open>LockedOpen\<close>. Both directions.

  The stamp of a direction is written by that direction's re-lock block alone, with the
  clock value the block reads after locking, and only when the direction is not
  \<open>LockedOpen\<close> at that moment. So it is the time of the last re-lock that did not end a
  locked-open episode, and it keeps its initial value 0 until the first such re-lock.
\<close>

theorem locked_open_tick:
  "(entry_lock s = Locked \<and> \<not> entry_admitted r s \<and>
      door_open_entry r \<and> now_open_entry r - entryCloseTime s < 2 \<longrightarrow>
      locked_open_notes ENTRY (loop r s) = locked_open_notes ENTRY s @
        [\<lparr>topic = c_str (ntfy_topic (ntfy_conf (conf s))), tags = ''lock,unlock'',
          priority = 3, text_of = Locked_open ENTRY,
          sent = (flags (conf s) AND CFG_NTFY_ENABLE \<noteq> 0)\<rparr>] \<and>
      (if \<not> door_relock_entry r \<and> entryCloseAt s < now_relock_entry r
       then entry_lock (loop r s) = Locked \<and>
            entry_pulses (loop r s) =
              entry_pulses s @
              [DigitalWrite PIN_ENTRY_SOLENOID OPEN, AnalogWrite PIN_ENTRY_SOLENOID 180,
               DigitalWrite PIN_ENTRY_SOLENOID LOCK, AnalogWrite PIN_ENTRY_SOLENOID 180,
               DigitalWrite PIN_ENTRY_SOLENOID LOCK]
       else entry_lock (loop r s) = LockedOpen \<and>
            entry_pulses (loop r s) =
              entry_pulses s @
              [DigitalWrite PIN_ENTRY_SOLENOID OPEN, AnalogWrite PIN_ENTRY_SOLENOID 180])) \<and>
   (entry_lock s = Locked \<and> \<not> entry_admitted r s \<and>
      \<not> (door_open_entry r \<and> now_open_entry r - entryCloseTime s < 2) \<longrightarrow>
      entry_lock (loop r s) = Locked \<and> entry_pulses (loop r s) = entry_pulses s \<and>
      locked_open_notes ENTRY (loop r s) = locked_open_notes ENTRY s) \<and>
   (entry_lock s = Locked \<and> entry_admitted r s \<longrightarrow>
      entry_lock (loop r s) \<noteq> LockedOpen \<and>
      locked_open_notes ENTRY (loop r s) = locked_open_notes ENTRY s \<and>
      entry_pulses (loop r s) =
        entry_pulses s @
        [DigitalWrite PIN_ENTRY_SOLENOID OPEN, AnalogWrite PIN_ENTRY_SOLENOID 180] @
        (if entry_lock (loop r s) = Locked
         then [DigitalWrite PIN_ENTRY_SOLENOID LOCK, AnalogWrite PIN_ENTRY_SOLENOID 180,
               DigitalWrite PIN_ENTRY_SOLENOID LOCK] else [])) \<and>
   (exit_lock s = Locked \<and> \<not> exit_admitted r s \<and>
      door_open_exit r \<and> now_open_exit r - exitCloseTime s < 2 \<longrightarrow>
      locked_open_notes EXIT (loop r s) = locked_open_notes EXIT s @
        [\<lparr>topic = c_str (ntfy_topic (ntfy_conf (conf s))), tags = ''lock,unlock'',
          priority = 3, text_of = Locked_open EXIT,
          sent = (flags (conf s) AND CFG_NTFY_ENABLE \<noteq> 0)\<rparr>] \<and>
      (if \<not> door_relock_exit r \<and> exitCloseAt s < now_relock_exit r
       then exit_lock (loop r s) = Locked \<and>
            exit_pulses (loop r s) =
              exit_pulses s @
              [DigitalWrite PIN_EXIT_SOLENOID OPEN, AnalogWrite PIN_EXIT_SOLENOID 50,
               DigitalWrite PIN_EXIT_SOLENOID LOCK, AnalogWrite PIN_EXIT_SOLENOID 180,
               DigitalWrite PIN_EXIT_SOLENOID LOCK]
       else exit_lock (loop r s) = LockedOpen \<and>
            exit_pulses (loop r s) =
              exit_pulses s @
              [DigitalWrite PIN_EXIT_SOLENOID OPEN, AnalogWrite PIN_EXIT_SOLENOID 50])) \<and>
   (exit_lock s = Locked \<and> \<not> exit_admitted r s \<and>
      \<not> (door_open_exit r \<and> now_open_exit r - exitCloseTime s < 2) \<longrightarrow>
      exit_lock (loop r s) = Locked \<and> exit_pulses (loop r s) = exit_pulses s \<and>
      locked_open_notes EXIT (loop r s) = locked_open_notes EXIT s) \<and>
   (exit_lock s = Locked \<and> exit_admitted r s \<longrightarrow>
      exit_lock (loop r s) \<noteq> LockedOpen \<and>
      locked_open_notes EXIT (loop r s) = locked_open_notes EXIT s \<and>
      exit_pulses (loop r s) =
        exit_pulses s @
        [DigitalWrite PIN_EXIT_SOLENOID OPEN, AnalogWrite PIN_EXIT_SOLENOID 50] @
        (if exit_lock (loop r s) = Locked
         then [DigitalWrite PIN_EXIT_SOLENOID LOCK, AnalogWrite PIN_EXIT_SOLENOID 180,
               DigitalWrite PIN_EXIT_SOLENOID LOCK] else [])) \<and>
   entryCloseTime (loop r s) =
     (if entry_relocks r s \<and> entry_lock (after_checks r s) \<noteq> LockedOpen
      then now_locked_entry r else entryCloseTime s) \<and>
   exitCloseTime (loop r s) =
     (if exit_relocks r s \<and> exit_lock (after_checks r s) \<noteq> LockedOpen
      then now_locked_exit r else exitCloseTime s)"
  by (intro conjI tick_entry tick_exit pass_stamps)

text \<open>
  The theorem at the state in which the entry lock closed at time 5061, for four passes:
  at 5062 with the door open throughout; at 5062 with the door open at the check and
  closed at the re-lock block; at 5064; and at 5062 with Tom's card waiting at the entry
  reader. And for the exit direction: at boot, in a pass at clock value 1 and in a pass
  at clock value 10, both with the door open; and with Kit's card waiting at the exit
  reader.
\<close>

theorem locked_open_tick_witness:
  "entry_lock (run tom_in_and_closed (boot two_cats)) = Locked \<and>
   entryCloseTime (run tom_in_and_closed (boot two_cats)) = 5061 \<and>
   entry_lock (loop (steady 63000 5062 True) (run tom_in_and_closed (boot two_cats))) = LockedOpen \<and>
   locked_open_notes ENTRY (loop (steady 63000 5062 True) (run tom_in_and_closed (boot two_cats))) =
     [\<lparr>topic = ''cats'', tags = ''lock,unlock'', priority = 3, text_of = Locked_open ENTRY,
       sent = True\<rparr>] \<and>
   entry_lock (loop ((steady 63000 5062 True)\<lparr>door_relock_entry := False\<rparr>)
     (run tom_in_and_closed (boot two_cats))) = Locked \<and>
   locked_open_notes ENTRY (loop ((steady 63000 5062 True)\<lparr>door_relock_entry := False\<rparr>)
     (run tom_in_and_closed (boot two_cats))) =
     [\<lparr>topic = ''cats'', tags = ''lock,unlock'', priority = 3, text_of = Locked_open ENTRY,
       sent = True\<rparr>] \<and>
   entry_lock (loop (steady 65000 5064 True) (run tom_in_and_closed (boot two_cats))) = Locked \<and>
   entry_pulses (loop (steady 65000 5064 True) (run tom_in_and_closed (boot two_cats))) =
     entry_pulses (run tom_in_and_closed (boot two_cats)) \<and>
   entry_lock (loop (steady 63000 5062 True) (run tom_back_at_door (boot two_cats))) \<noteq> LockedOpen \<and>
   locked_open_notes ENTRY (loop (steady 63000 5062 True) (run tom_back_at_door (boot two_cats))) = [] \<and>
   exit_lock (loop (steady 500 1 True) (boot two_cats)) = LockedOpen \<and>
   exit_lock (loop (steady 5000 10 True) (boot two_cats)) = Locked \<and>
   exit_pulses (loop (steady 5000 10 True) (boot two_cats)) = exit_pulses (boot two_cats) \<and>
   exit_lock (loop (steady 1000 5000 False) (run (card_pulses EXIT 100 0x1403EA) (boot two_cats))) \<noteq>
     LockedOpen \<and>
   locked_open_notes EXIT
     (loop (steady 1000 5000 False) (run (card_pulses EXIT 100 0x1403EA) (boot two_cats))) = []"
proof -
  let ?s = "run tom_in_and_closed (boot two_cats)"
  let ?s' = "run tom_back_at_door (boot two_cats)"
  let ?r1 = "steady 63000 5062 True"
  let ?r2 = "(steady 63000 5062 True)\<lparr>door_relock_entry := False\<rparr>"
  let ?r3 = "steady 65000 5064 True"
  let ?r4 = "steady 500 1 True"
  let ?r5 = "steady 5000 10 True"
  let ?r6 = "steady 1000 5000 False"
  let ?k = "run (card_pulses EXIT 100 0x1403EA) (boot two_cats)"
  have a: "entry_lock ?s = Locked" by code_simp
  have b: "entryCloseTime ?s = 5061" "entryCloseAt ?s = 0" by code_simp+
  have c: "\<not> entry_admitted ?r1 ?s" "\<not> entry_admitted ?r2 ?s" "\<not> entry_admitted ?r3 ?s"
    by code_simp+
  have d: "locked_open_notes ENTRY ?s = []"
    "c_str (ntfy_topic (ntfy_conf (conf ?s))) = ''cats''"
    "flags (conf ?s) AND CFG_NTFY_ENABLE \<noteq> 0" by code_simp+
  have e: "door_open_entry ?r1" "door_relock_entry ?r1" "now_open_entry ?r1 = 5062"
    "door_open_entry ?r2" "\<not> door_relock_entry ?r2" "now_open_entry ?r2 = 5062"
    "now_relock_entry ?r2 = 5062" "now_open_entry ?r3 = 5064"
    by (simp_all add: steady_def)
  have a': "entry_lock ?s' = Locked" by code_simp
  have c': "entry_admitted ?r1 ?s'" by code_simp
  have d': "locked_open_notes ENTRY ?s' = []" by code_simp
  have x: "exit_lock (boot two_cats) = Locked" "\<not> exit_admitted ?r4 (boot two_cats)"
    "exitCloseTime (boot two_cats) = 0" by code_simp+
  have y: "door_open_exit ?r4" "door_relock_exit ?r4" "now_open_exit ?r4 = 1"
    "now_open_exit ?r5 = 10"
    by (simp_all add: steady_def)
  have x': "\<not> exit_admitted ?r5 (boot two_cats)" by code_simp
  have k: "exit_lock ?k = Locked" "exit_admitted ?r6 ?k" "locked_open_notes EXIT ?k = []"
    by code_simp+
  note t1 = locked_open_tick [of ?s ?r1]
  note t2 = locked_open_tick [of ?s ?r2]
  note t3 = locked_open_tick [of ?s ?r3]
  note t4 = locked_open_tick [of ?s' ?r1]
  note t5 = locked_open_tick [of "boot two_cats" ?r4]
  note t6 = locked_open_tick [of "boot two_cats" ?r5]
  note t7 = locked_open_tick [of ?k ?r6]
  have g1: "entry_lock (loop ?r1 ?s) = LockedOpen"
    "locked_open_notes ENTRY (loop ?r1 ?s) =
       [\<lparr>topic = ''cats'', tags = ''lock,unlock'', priority = 3, text_of = Locked_open ENTRY,
       sent = True\<rparr>]"
    using t1 a b c(1) d e(1-3) by simp_all
  have g2: "entry_lock (loop ?r2 ?s) = Locked"
    "locked_open_notes ENTRY (loop ?r2 ?s) =
       [\<lparr>topic = ''cats'', tags = ''lock,unlock'', priority = 3, text_of = Locked_open ENTRY,
       sent = True\<rparr>]"
    using t2 a b c(2) d e(4-7) by simp_all
  have g3: "entry_lock (loop ?r3 ?s) = Locked" "entry_pulses (loop ?r3 ?s) = entry_pulses ?s"
    using t3 a b c(3) e(8) by simp_all
  have g4: "entry_lock (loop ?r1 ?s') \<noteq> LockedOpen" "locked_open_notes ENTRY (loop ?r1 ?s') = []"
    using t4 a' c' d' by simp_all
  have g5: "exit_lock (loop ?r4 (boot two_cats)) = LockedOpen"
    using t5 x y by simp
  have g6: "exit_lock (loop ?r5 (boot two_cats)) = Locked"
    "exit_pulses (loop ?r5 (boot two_cats)) = exit_pulses (boot two_cats)"
    using t6 x(1,3) x' y(4) by simp_all
  have g7: "exit_lock (loop ?r6 ?k) \<noteq> LockedOpen" "locked_open_notes EXIT (loop ?r6 ?k) = []"
    using t7 k by simp_all
  show ?thesis using a b(1) g1 g2 g3 g4 g5 g6 g7 by (intro conjI)
qed

text \<open>
  C7 as stated fails for a pass that admits a card. In \<open>tom_back_at_door\<close> the entry
  lock is \<open>Locked\<close>, it closed at 5061, and Tom's card is waiting at the entry reader. The
  pass at 5062 with the door sensor reading open opens the lock for the card: it ends
  with the entry direction \<open>Unlocked\<close>, not \<open>LockedOpen\<close>, and has sent no locked-open
  notification. The pass at 5064 does not leave the direction \<open>Locked\<close> either, and it
  drives the lock.
\<close>

theorem locked_open_tick_counterexample:
  "entry_lock (run tom_back_at_door (boot two_cats)) = Locked \<and>
   entryCloseTime (run tom_back_at_door (boot two_cats)) = 5061 \<and>
   entry_lock (loop (steady 63000 5062 True) (run tom_back_at_door (boot two_cats))) = Unlocked \<and>
   locked_open_notes ENTRY (loop (steady 63000 5062 True) (run tom_back_at_door (boot two_cats))) = [] \<and>
   entry_lock (loop (steady 65000 5064 True) (run tom_back_at_door (boot two_cats))) = Unlocked \<and>
   entry_pulses (loop (steady 65000 5064 True) (run tom_back_at_door (boot two_cats))) =
     entry_pulses (run tom_back_at_door (boot two_cats)) @
     [DigitalWrite PIN_ENTRY_SOLENOID OPEN, AnalogWrite PIN_ENTRY_SOLENOID 180]"
  by code_simp

subsection \<open>The door trigger\<close>

text \<open>
  C4, as amended. With the door trigger pending, the pass sets the deadline of a direction
  that is \<open>Unlocked\<close> to the clock plus 3 seconds, whatever the deadline was: the deadline
  does not decrease exactly when it was at most 3 seconds away. The door trigger drives no
  pin and changes neither lock state.
\<close>

theorem door_swing_sets_deadline:
  "(state s AND STATE_DOOR_TRIGGER \<noteq> 0 \<and> entry_lock s = Unlocked \<longrightarrow>
      entryCloseAt (doorSwing now_entry now_exit s) = now_entry + 3 \<and>
      (entryCloseAt s \<le> entryCloseAt (doorSwing now_entry now_exit s)) =
        (entryCloseAt s \<le> now_entry + 3)) \<and>
   (state s AND STATE_DOOR_TRIGGER \<noteq> 0 \<and> exit_lock s = Unlocked \<longrightarrow>
      exitCloseAt (doorSwing now_entry now_exit s) = now_exit + 3 \<and>
      (exitCloseAt s \<le> exitCloseAt (doorSwing now_entry now_exit s)) =
        (exitCloseAt s \<le> now_exit + 3)) \<and>
   pins (doorSwing now_entry now_exit s) = pins s \<and>
   entry_lock (doorSwing now_entry now_exit s) = entry_lock s \<and>
   exit_lock (doorSwing now_entry now_exit s) = exit_lock s"
proof -
  have a: "state s AND STATE_DOOR_TRIGGER \<noteq> 0 \<and> entry_lock s = Unlocked \<longrightarrow>
      entryCloseAt (doorSwing now_entry now_exit s) = now_entry + 3"
    by (simp add: lock_state_bits doorSwing_def Let_def flag_simps DOOR_SWING_TIMEOUT_DEFAULT_def)
  have b: "state s AND STATE_DOOR_TRIGGER \<noteq> 0 \<and> exit_lock s = Unlocked \<longrightarrow>
      exitCloseAt (doorSwing now_entry now_exit s) = now_exit + 3"
    by (simp add: lock_state_bits doorSwing_def Let_def flag_simps DOOR_SWING_TIMEOUT_DEFAULT_def)
  have c: "pins (doorSwing now_entry now_exit s) = pins s"
    by (simp add: doorSwing_def Let_def)
  have d: "entry_lock (doorSwing now_entry now_exit s) = entry_lock s"
    "exit_lock (doorSwing now_entry now_exit s) = exit_lock s"
    by (simp_all add: entry_lock_def exit_lock_def flag_simps doorSwing_bits)
  show ?thesis using a b c d by simp
qed

text \<open>
  The theorem one second after Tom's card opened the entry lock, with the trigger pending.
\<close>

theorem door_swing_sets_deadline_witness:
  "entryCloseAt (run tom_in_then_nudge (boot two_cats)) = 5060 \<and>
   entryCloseAt (doorSwing 5001 5001 (run tom_in_then_nudge (boot two_cats))) = 5004"
proof -
  have a: "state (run tom_in_then_nudge (boot two_cats)) AND STATE_DOOR_TRIGGER \<noteq> 0" by code_simp
  have b: "entry_lock (run tom_in_then_nudge (boot two_cats)) = Unlocked" by code_simp
  have c: "entryCloseAt (run tom_in_then_nudge (boot two_cats)) = 5060" by code_simp
  show ?thesis
    using a b c door_swing_sets_deadline [of "run tom_in_then_nudge (boot two_cats)" 5001 5001]
    by simp
qed

text \<open>
  C4 as stated fails: a nudge of the door one second after Tom's card opened the entry
  lock moves the deadline from 5060 back to 5004.
\<close>

theorem door_swing_shortens_counterexample:
  "entry_lock (run tom_in_then_nudge (boot two_cats)) = Unlocked \<and>
   entryCloseAt (run tom_in_then_nudge (boot two_cats)) = 5060 \<and>
   entry_lock (run (tom_in_then_nudge @ [Pass (steady 2000 5001 True)]) (boot two_cats)) = Unlocked \<and>
   entryCloseAt (run (tom_in_then_nudge @ [Pass (steady 2000 5001 True)]) (boot two_cats)) = 5004 \<and>
   entryCloseAt (run (tom_in_then_nudge @ [Pass (steady 2000 5001 True)]) (boot two_cats))
     < entryCloseAt (run tom_in_then_nudge (boot two_cats))"
  by code_simp

subsection \<open>The access decision\<close>

text \<open>
  C5, as amended. \<open>checkCard\<close> assigns no program variable and drives no pin. When no slot
  matches and it returns \<open>-1\<close>, it calls the notification sink itself, once, with the
  unknown-card message on the default topic; when it returns 0 or 1 it calls nothing.
\<close>

theorem checkCard_effects:
  "snd (checkCard dir facilityCode cardCode s) =
     (if fst (checkCard dir facilityCode cardCode s) = - 1
      then s\<lparr>ntfy_calls := ntfy_calls s @
             [\<lparr>topic = c_str (ntfy_topic (ntfy_conf (conf s))), tags = ''interrobang'',
               priority = 3, text_of = Unknown_card facilityCode cardCode,
               sent = (flags (conf s) AND CFG_NTFY_ENABLE \<noteq> 0)\<rparr>]\<rparr>
      else s) \<and>
   (fst (checkCard dir facilityCode cardCode s) = - 1 \<or>
    fst (checkCard dir facilityCode cardCode s) = 0 \<or>
    fst (checkCard dir facilityCode cardCode s) = 1)"
  by (simp add: checkCard_def Let_def ntfy_def ntfy_enabled_iff)

text \<open>The theorem for Tom's card and for a card that no slot holds.\<close>

theorem checkCard_effects_witness:
  "checkCard ENTRY 10 500 (boot two_cats) = (1, boot two_cats) \<and>
   fst (checkCard ENTRY 99 1 (boot two_cats)) = - 1 \<and>
   map text_of (ntfy_calls (snd (checkCard ENTRY 99 1 (boot two_cats)))) = [Unknown_card 99 1]"
proof -
  have a: "fst (checkCard ENTRY 10 500 (boot two_cats)) = 1" by code_simp
  have b: "fst (checkCard ENTRY 99 1 (boot two_cats)) = - 1" by code_simp
  have c: "ntfy_calls (boot two_cats) = []" by (simp add: boot_def)
  show ?thesis
    using a b c checkCard_effects [of ENTRY 10 500 "boot two_cats"]
      checkCard_effects [of ENTRY 99 1 "boot two_cats"]
    by (simp add: prod_eq_iff)
qed

text \<open>
  C5 as stated fails: for a card that no slot holds, \<open>checkCard\<close> itself sends a
  notification.
\<close>

theorem checkCard_notifies_counterexample:
  "ntfy_calls (boot two_cats) = [] \<and>
   ntfy_calls (snd (checkCard ENTRY 99 1 (boot two_cats))) =
     [\<lparr>topic = ''cats'', tags = ''interrobang'', priority = 3,
       text_of = Unknown_card 99 1, sent = True\<rparr>] \<and>
   snd (checkCard ENTRY 99 1 (boot two_cats)) \<noteq> boot two_cats"
  by code_simp

subsection \<open>The credential lookup\<close>

lemma cat_scan_takeWhile:
  "length cats = CFG_NCATS \<Longrightarrow> i \<le> CFG_NCATS \<Longrightarrow>
   cat_scan cats fc cc i = i + length (takeWhile (\<lambda>e. \<not> cat_matches fc cc e) (drop i cats))"
proof (induction cats fc cc i rule: cat_scan.induct)
  case (1 cats fc cc i)
  show ?case
  proof (cases "i < CFG_NCATS")
    case True
    then have d: "drop i cats = cats ! i # drop (Suc i) cats"
      using "1.prems" by (simp add: Cons_nth_drop_Suc)
    show ?thesis
    proof (cases "cat_matches fc cc (cats ! i)")
      case m: True
      then show ?thesis using True d
        by (subst cat_scan.simps) (simp add: cat_matches_def)
    next
      case m: False
      have "cat_scan cats fc cc (i + 1) =
            (i + 1) + length (takeWhile (\<lambda>e. \<not> cat_matches fc cc e) (drop (i + 1) cats))"
        using "1.IH" [OF True] m "1.prems" True by (simp add: cat_matches_def)
      then show ?thesis using True d m
        by (subst cat_scan.simps) (simp add: cat_matches_def)
    qed
  next
    case False
    then show ?thesis using "1.prems"
      by (subst cat_scan.simps) simp
  qed
qed

lemma find_takeWhile:
  "find P xs = (if length (takeWhile (\<lambda>x. \<not> P x) xs) = length xs then None
                else Some (xs ! length (takeWhile (\<lambda>x. \<not> P x) xs)))"
  by (induction xs) auto

text \<open>
  C6. For a credential table of \<open>CFG_NCATS\<close> slots, in which a credential may occur more
  than once: the slot \<open>checkCard\<close> stops at is the first one in storage order that matches
  both codes (its index is the number of slots before the first match); \<open>checkCard\<close>
  returns \<open>-1\<close> when no slot matches, and otherwise 1 when that first slot allows the
  direction and 0 when it does not.
\<close>

theorem checkCard_decision:
  assumes "length (cat (conf s)) = CFG_NCATS"
  shows "cat_scan (cat (conf s)) facilityCode cardCode 0 =
           length (takeWhile (\<lambda>e. \<not> cat_matches facilityCode cardCode e) (cat (conf s))) \<and>
         fst (checkCard dir facilityCode cardCode s) =
           (case find (cat_matches facilityCode cardCode) (cat (conf s)) of
              None \<Rightarrow> - 1
            | Some e \<Rightarrow> if cat_allows dir e then 1 else 0)"
proof -
  let ?n = "length (takeWhile (\<lambda>e. \<not> cat_matches facilityCode cardCode e) (cat (conf s)))"
  have scan: "cat_scan (cat (conf s)) facilityCode cardCode 0 = ?n"
    using cat_scan_takeWhile [OF assms, of 0 facilityCode cardCode] by simp
  have le: "?n \<le> CFG_NCATS"
    using length_takeWhile_le [of _ "cat (conf s)"] assms by metis
  show ?thesis
  proof (cases "?n = CFG_NCATS")
    case True
    then show ?thesis
      using scan assms by (simp add: checkCard_def Let_def find_takeWhile)
  next
    case False
    then show ?thesis
      using scan assms
      by (cases dir) (simp_all add: checkCard_def Let_def find_takeWhile cat_allows_def)
  qed
qed

text \<open>
  The theorem for Kit's card, held by slot 1 of \<open>two_cats\<close>, and for a card that no slot
  holds.
\<close>

theorem checkCard_decision_witness:
  "fst (checkCard ENTRY 10 501 (boot two_cats)) = 1 \<and>
   cat_scan (cat two_cats) 10 501 0 = 1 \<and>
   fst (checkCard ENTRY 99 1 (boot two_cats)) = - 1"
proof -
  have l: "length (cat (conf (boot two_cats))) = CFG_NCATS" by code_simp
  have c: "conf (boot two_cats) = two_cats" by (simp add: boot_def)
  have a: "length (takeWhile (\<lambda>e. \<not> cat_matches 10 501 e) (cat two_cats)) = 1" by code_simp
  have f1: "find (cat_matches 10 501) (cat two_cats) = Some (cat two_cats ! 1)" by code_simp
  have f2: "cat_allows ENTRY (cat two_cats ! 1)" by code_simp
  have f3: "find (cat_matches 99 1) (cat two_cats) = None" by code_simp
  show ?thesis
    using checkCard_decision [OF l, of 10 501 ENTRY] checkCard_decision [OF l, of 99 1 ENTRY]
      c a f1 f2 f3 by simp
qed

subsection \<open>Duplicate suppression\<close>

text \<open>When the allowed branch calls the notification sink.\<close>

lemma permitted_notifies:
  "ntfy_calls (entryPermitted a b fc cc s) =
     (if lastFacilityCode s \<noteq> fc \<and> lastCardCode s \<noteq> cc
      then ntfy_calls s @ [\<lparr>topic = catTopic (conf s) fc cc, tags = ''unlock,arrow_left'', priority = 3,
                            text_of = Entry_msg (catName (conf s) fc cc),
                            sent = (flags (conf s) AND CFG_NTFY_ENABLE \<noteq> 0)\<rparr>]
      else ntfy_calls s)"
  "ntfy_calls (exitPermitted a b fc cc s) =
     (if lastFacilityCode s \<noteq> fc \<and> lastCardCode s \<noteq> cc
      then ntfy_calls s @ [\<lparr>topic = catTopic (conf s) fc cc, tags = ''arrow_right,unlock'', priority = 3,
                            text_of = Exit_msg (catName (conf s) fc cc),
                            sent = (flags (conf s) AND CFG_NTFY_ENABLE \<noteq> 0)\<rparr>]
      else ntfy_calls s)"
  by (simp_all add: entryPermitted_def exitPermitted_def entryUnlock_def exitUnlock_def Let_def
      ntfy_def ntfy_enabled_iff)

text \<open>
  C3. A permitted read is to be notified and entered in the ledger exactly when its
  credential differs from the remembered one. The code does less: its test before the
  notification and the ledger update is
  \<open>lastFacilityCode != facilityCode && lastCardCode != cardCode\<close>, which holds only when
  both codes differ from the remembered ones. In \<open>tom_then_kit_in\<close> Kit (10, 501) enters
  one second after Tom (10, 500), while the entry lock is still open: the lock is driven
  again, the deadline renewed and the remembered credential becomes Kit's, but there is no
  notification for Kit and the ledger still shows only Tom.
\<close>

theorem second_cat_unreported:
  "map text_of (ntfy_calls (run tom_then_kit_in (boot two_cats))) = [Entry_msg ''Tom''] \<and>
   catInOut (run tom_then_kit_in (boot two_cats)) = 1 \<and>
   catTime (run tom_then_kit_in (boot two_cats)) = [5000, 0, 0, 0, 0, 0, 0] \<and>
   lastFacilityCode (run tom_then_kit_in (boot two_cats)) = 10 \<and>
   lastCardCode (run tom_then_kit_in (boot two_cats)) = 501 \<and>
   entryCloseAt (run tom_then_kit_in (boot two_cats)) = 5061"
  by code_simp

subsection \<open>Bit fields\<close>

lemma bit_field:
  "bit (drop_bit k ((w :: 64 word) AND push_bit k (mask m))) n = (n < m \<and> bit w (k + n))"
  by (auto simp add: bit_drop_bit_eq bit_and_iff bit_push_bit_iff bit_mask_iff
      dest: bit_imp_le_length bit_imp_possible_bit)

lemma ucast_field:
  "LENGTH('a::len) = m \<Longrightarrow>
   (ucast (drop_bit k ((w :: 64 word) AND push_bit k (mask m))) :: 'a word) = ucast (drop_bit k w)"
  apply (rule bit_eqI)
  apply (simp only: bit_ucast_iff bit_field)
  apply (auto simp add: bit_drop_bit_eq)
  done

subsection \<open>The card decoder\<close>

text \<open>
  C2, as amended. For a bit count of 26 the decoder succeeds; the facility code is the
  eight bits of the buffer from bit 17 up (counting the least significant bit as bit 0,
  so bits 25 down to 18 when it is counted as bit 1) and the card code is the sixteen bits
  from bit 1 up (bits 17 down to 2 in the count from 1). For every other bit count it
  fails and leaves both outputs as they were.
\<close>

theorem weigandDecode_fields:
  "weigandDecode fc0 cc0 bitCount dataBits =
     (if bitCount = 26
      then (True, ucast (drop_bit 17 dataBits), ucast (drop_bit 1 dataBits))
      else (False, fc0, cc0))"
proof -
  have m1: "(0x1FE0000 :: 64 word) = push_bit 17 (mask 8)"
    by (simp add: mask_eq_exp_minus_1)
  have m2: "(0x1FFFE :: 64 word) = push_bit 1 (mask 16)"
    by (simp add: mask_eq_exp_minus_1)
  have f: "(ucast (drop_bit 17 (dataBits AND 0x1FE0000)) :: 8 word) = ucast (drop_bit 17 dataBits)"
    unfolding m1 by (rule ucast_field) simp
  have c: "(ucast (drop_bit 1 (dataBits AND 0x1FFFE)) :: 16 word) = ucast (drop_bit 1 dataBits)"
    unfolding m2 by (rule ucast_field) simp
  show ?thesis unfolding weigandDecode_def f c by simp
qed

text \<open>
  The theorem at two inputs: a 26-bit frame with facility code 10 and card code 500
  between two zero parity bits, and a 27-bit capture of the same buffer.
\<close>

theorem weigandDecode_fields_witness:
  "weigandDecode 7 9 26 0x1403E8 = (True, 10, 500) \<and>
   weigandDecode 7 9 27 0x1403E8 = (False, 7, 9)"
  using weigandDecode_fields [of 7 9 26 "0x1403E8"] weigandDecode_fields [of 7 9 27 "0x1403E8"]
  by simp

text \<open>
  C2 as the specification words it fails: with only bit 25 of the buffer set (counting
  from 1), the decoder returns facility code 128, while bits 23 down to 16 are all zero.
  With only bit 1 set, the decoder returns card code 0, while bits 16 down to 1 read 1.
\<close>

theorem weigandDecode_claimed_counterexample:
  "weigandDecode 0 0 26 0x1000000 \<noteq>
     (True, claimed_facilityCode 0x1000000, claimed_cardCode 0x1000000) \<and>
   weigandDecode 0 0 26 0x1000000 = (True, 128, 0) \<and>
   claimed_facilityCode 0x1000000 = 0 \<and>
   weigandDecode 0 0 26 1 \<noteq> (True, claimed_facilityCode 1, claimed_cardCode 1) \<and>
   weigandDecode 0 0 26 1 = (True, 0, 0) \<and>
   claimed_cardCode 1 = 1"
  by (simp add: weigandDecode_def claimed_facilityCode_def claimed_cardCode_def)

subsection \<open>Loading and saving the configuration\<close>

lemma read_loop:
  "n \<le> length (data ee) \<Longrightarrow> map (EEPROM_read ee) [0..<n] = take n (data ee)"
  by (rule nth_equalityI) (simp_all add: EEPROM_read_def)

lemma write_loop:
  "n \<le> length bs \<Longrightarrow> n \<le> length (data ee) \<Longrightarrow>
   fold (\<lambda>i e. EEPROM_write i (bs ! i) e) [0..<n] ee =
     ee\<lparr>data := take n bs @ drop n (data ee)\<rparr>"
proof (induction n)
  case 0
  then show ?case by simp
next
  case (Suc n)
  have "(take n bs @ drop n (data ee))[n := bs ! n] = take (Suc n) bs @ drop (Suc n) (data ee)"
    using Suc.prems
    by (simp add: list_update_append take_Suc_conv_app_nth upd_conv_take_nth_drop drop_Suc
        Cons_nth_drop_Suc [symmetric] min_absorb2 flip: drop_drop)
  then show ?case
    using Suc by (simp add: EEPROM_write_def)
qed

lemma le_lengths [simp]: "length (le16 w) = 2" "length (le32 v) = 4"
  by (simp_all add: le16_def le32_def)

lemma strcpy_length: "length src < length dst \<Longrightarrow> length (strcpy dst src) = length dst"
  by (simp add: strcpy_def)

lemma toCharArray_length:
  "0 < bufsize \<Longrightarrow> bufsize \<le> length buf \<Longrightarrow> length (toCharArray str buf bufsize) = length buf"
  by (auto simp add: toCharArray_def Let_def min_def)

lemma default_fields:
  "magic (configDefault mac) = MAGIC"
  "length (hostname (configDefault mac)) = 33"
  "ssid (configDefault mac) = replicate 64 NUL"
  "wpakey (configDefault mac) = replicate 64 NUL"
  "length (ntpserver (configDefault mac)) = 64"
  "length (timezone (configDefault mac)) = 32"
  "flags (configDefault mac) = 0"
  "cat (configDefault mac) = replicate CFG_NCATS blank_cat"
  "ntfy_conf (configDefault mac) =
     \<lparr>ntfy_url = replicate 64 NUL, ntfy_topic = replicate 64 NUL,
      ntfy_username = replicate 16 NUL, ntfy_password = replicate 16 NUL\<rparr>"
  "c_str (ntpserver (configDefault mac)) = ''pool.ntp.org''"
  "c_str (timezone (configDefault mac)) = ''EST5EDT,M3.2.0,M11.1.0''"
  by (simp_all add: configDefault_def zero_cfg_def Let_def strcpy_def toCharArray_length
      blank_cat_def c_str_def NUL_def replicate_Suc [symmetric] del: replicate_Suc)

lemma c_str_cut: "c_str (a @ NUL # b) = c_str a"
  by (induction a) (simp_all add: c_str_def)

lemma default_hostname: "c_str (hostname (configDefault mac)) = c_str (take 31 mac)"
proof -
  have "take (min 31 (length mac)) mac = take 31 mac"
    by (simp add: min_def)
  then show ?thesis
    by (simp add: configDefault_def zero_cfg_def Let_def toCharArray_def c_str_cut)
qed

lemma concat_length_const:
  "list_all (\<lambda>x. length (f x) = k) xs \<Longrightarrow> length (concat (map f xs)) = k * length xs"
  by (induction xs) simp_all

lemma cat_bytes_length:
  "length (cat_name e) = 20 \<and> length (cat_topic e) = 64 \<Longrightarrow> length (cat_bytes e) = 90"
  by (simp add: cat_bytes_def)

lemma cats_length:
  assumes "list_all (\<lambda>e. length (cat_name e) = 20 \<and> length (cat_topic e) = 64) cats"
  shows "length (concat (map cat_bytes cats)) = 90 * length cats"
proof -
  have "list_all (\<lambda>e. length (cat_bytes e) = 90) cats"
    using assms by (simp add: list_all_iff cat_bytes_length)
  then show ?thesis by (rule concat_length_const)
qed

lemma sized_length:
  assumes "cfg_sized c"
  shows "length (cfg_bytes c) = sizeof_cfg"
proof -
  have "length (concat (map cat_bytes (cat c))) = 90 * CFG_NCATS"
    using assms cats_length [of "cat c"] by (simp add: cfg_sized_def)
  then show ?thesis
    using assms by (simp add: cfg_sized_def cfg_bytes_def ntfy_bytes_def sizeof_cfg_def CFG_NCATS_def)
qed

lemma sized_body:
  assumes "cfg_sized c"
  shows "take (sizeof_cfg - 2) (cfg_bytes (c\<lparr>crc := x\<rparr>)) = take (sizeof_cfg - 2) (cfg_bytes c)"
proof -
  define body where "body = le32 (magic c) @ map byte_of_char (hostname c) @ map byte_of_char (ssid c) @
     map byte_of_char (wpakey c) @ map byte_of_char (ntpserver c) @
     map byte_of_char (timezone c) @ [flags c] @ concat (map cat_bytes (cat c)) @
     ntfy_bytes (ntfy_conf c)"
  have b: "cfg_bytes c = body @ le16 (crc c)" "cfg_bytes (c\<lparr>crc := x\<rparr>) = body @ le16 x"
    by (simp_all add: cfg_bytes_def body_def)
  have "length (cfg_bytes c) = sizeof_cfg" using assms by (rule sized_length)
  then have "length body = sizeof_cfg - 2" by (simp add: b)
  then show ?thesis by (simp add: b)
qed

lemma default_sized: "cfg_sized (configDefault mac)"
  by (simp add: cfg_sized_def default_fields blank_cat_def list_all_iff)

lemma saved_default_sized: "cfg_sized (saved_default ccitt mac)"
  using default_sized [of mac] by (simp add: cfg_sized_def saved_default_def)

lemma saved_default_intact: "cfg_intact ccitt (saved_default ccitt mac)"
proof -
  have "take (sizeof_cfg - 2) (cfg_bytes (saved_default ccitt mac)) =
        take (sizeof_cfg - 2) (cfg_bytes (configDefault mac))"
    unfolding saved_default_def using default_sized by (rule sized_body)
  then show ?thesis
    by (simp add: cfg_intact_def) (simp add: saved_default_def default_fields)
qed

lemma configSave_sized:
  assumes "cfg_sized c" and "sizeof_cfg \<le> length (data ee)"
  shows "configSave ccitt c ee =
           (c\<lparr>crc := ccitt (take (sizeof_cfg - 2) (cfg_bytes c))\<rparr>,
            \<lparr>data = cfg_bytes (c\<lparr>crc := ccitt (take (sizeof_cfg - 2) (cfg_bytes c))\<rparr>) @
                     drop sizeof_cfg (data ee),
             flash = cfg_bytes (c\<lparr>crc := ccitt (take (sizeof_cfg - 2) (cfg_bytes c))\<rparr>) @
                     drop sizeof_cfg (data ee)\<rparr>)"
proof -
  let ?c1 = "c\<lparr>crc := ccitt (take (sizeof_cfg - 2) (cfg_bytes c))\<rparr>"
  have "cfg_sized ?c1" using assms(1) by (simp add: cfg_sized_def)
  then have l: "length (cfg_bytes ?c1) = sizeof_cfg" by (rule sized_length)
  have "fold (\<lambda>i e. EEPROM_write i (cfg_bytes ?c1 ! i) e) [0..<sizeof_cfg] ee =
        ee\<lparr>data := take sizeof_cfg (cfg_bytes ?c1) @ drop sizeof_cfg (data ee)\<rparr>"
    using l assms(2) by (intro write_loop) simp_all
  then show ?thesis
    using l by (simp add: configSave_def Let_def EEPROM_commit_def)
qed

subsection \<open>The record and its bytes\<close>

lemma byte_char [simp]:
  "char_of_byte (byte_of_char c) = c"
  "byte_of_char (char_of_byte b) = b"
proof -
  have "unat (word_of_nat (of_char c) :: 8 word) = of_char c"
    using nat_of_char_less_256 [of c] by (simp add: unat_of_nat)
  then show "char_of_byte (byte_of_char c) = c"
    by (simp add: char_of_byte_def byte_of_char_def)
  have "unat b < 256" using unsigned_less [of b, where 'a = nat] by simp
  then show "byte_of_char (char_of_byte b) = b"
    by (simp add: char_of_byte_def byte_of_char_def)
qed

lemma map_byte_char [simp]:
  "map char_of_byte (map byte_of_char a) = a"
  "map byte_of_char (map char_of_byte bs) = bs"
  "map (char_of_byte \<circ> byte_of_char) a = a"
  "map (byte_of_char \<circ> char_of_byte) bs = bs"
  by (simp_all add: comp_def)

lemma le16_inv [simp]: "of_le16 (le16 w) = w"
  unfolding of_le16_def le16_def
  by (rule bit_eqI) (auto simp add: bit_simps)

lemma le32_inv [simp]: "of_le32 (le32 w) = w"
proof (rule bit_eqI)
  fix n
  assume "possible_bit TYPE(32 word) n"
  then have "n < 32" by simp
  then consider "n < 8" | "8 \<le> n \<and> n < 16" | "16 \<le> n \<and> n < 24" | "24 \<le> n \<and> n < 32"
    by linarith
  then show "bit (of_le32 (le32 w)) n = bit w n"
    by cases (auto simp add: of_le32_def le32_def bit_simps)
qed

lemma of_le16_inv: "le16 (of_le16 [a, b]) = [a, b]"
proof -
  have "(ucast (ucast a OR push_bit 8 (ucast b) :: 16 word) :: 8 word) = a"
    by (rule bit_eqI) (auto simp add: bit_simps)
  moreover have "(ucast (drop_bit 8 (ucast a OR push_bit 8 (ucast b) :: 16 word)) :: 8 word) = b"
    by (rule bit_eqI) (auto simp add: bit_simps dest: bit_imp_le_length)
  ultimately show ?thesis by (simp add: of_le16_def le16_def)
qed

lemma of_le32_inv: "le32 (of_le32 [a, b, c, d]) = [a, b, c, d]"
proof -
  let ?w = "ucast a OR push_bit 8 (ucast b) OR push_bit 16 (ucast c) OR push_bit 24 (ucast d) :: 32 word"
  have "(ucast ?w :: 8 word) = a"
    by (rule bit_eqI) (auto simp add: bit_simps)
  moreover have "(ucast (drop_bit 8 ?w) :: 8 word) = b"
    by (rule bit_eqI) (auto simp add: bit_simps dest: bit_imp_le_length)
  moreover have "(ucast (drop_bit 16 ?w) :: 8 word) = c"
    by (rule bit_eqI) (auto simp add: bit_simps dest: bit_imp_le_length)
  moreover have "(ucast (drop_bit 24 ?w) :: 8 word) = d"
    by (rule bit_eqI) (auto simp add: bit_simps dest: bit_imp_le_length)
  ultimately show ?thesis by (simp add: of_le32_def le32_def)
qed

lemma le16_of_le16: "length xs = 2 \<Longrightarrow> le16 (of_le16 xs) = xs"
proof -
  assume "length xs = 2"
  then obtain a b where "xs = [a, b]"
    by (metis (no_types, opaque_lifting) Suc_length_conv length_0_conv numeral_2_eq_2)
  then show ?thesis by (simp add: of_le16_inv)
qed

lemma le32_of_le32: "length xs = 4 \<Longrightarrow> le32 (of_le32 xs) = xs"
proof -
  assume "length xs = 4"
  then have "length xs = Suc (Suc (Suc (Suc 0)))" by simp
  then obtain a b c d where "xs = [a, b, c, d]"
    by (metis (no_types, opaque_lifting) Suc_length_conv length_0_conv)
  then show ?thesis by (simp add: of_le32_inv)
qed

lemma slice_join:
  "j = k + m \<Longrightarrow> take m (drop k xs) @ take n (drop j xs) = take (m + n) (drop k xs)"
  by (simp add: take_add add.commute)

lemma slice_join':
  "j = k + m \<Longrightarrow> take m (drop k xs) @ take n (drop j xs) @ ys = take (m + n) (drop k xs) @ ys"
  by (simp add: take_add add.commute)

lemma slice_one: "n < length xs \<Longrightarrow> [xs ! n] = take 1 (drop n xs)"
  by (simp add: take_Suc_conv_app_nth Cons_nth_drop_Suc [symmetric] take_Suc hd_drop_conv_nth)

lemma cat_slices:
  assumes "length xs = 90"
  shows "take 20 xs @ take 64 (drop 20 xs) @ [xs ! 84] @ [xs ! 85] @ take 2 (drop 86 xs) @
         [xs ! 88] @ [xs ! 89] = xs"
proof -
  have "take 20 (drop 0 xs) @ take 64 (drop 20 xs) @ take 1 (drop 84 xs) @ take 1 (drop 85 xs) @
        take 2 (drop 86 xs) @ take 1 (drop 88 xs) @ take 1 (drop 89 xs) = take 90 (drop 0 xs)"
    by (simp only: slice_join slice_join') (simp add: slice_join)
  then show ?thesis using assms by (simp add: slice_one)
qed

lemma cat_bytes_of_bytes:
  assumes "length xs = 90"
  shows "cat_bytes (cat_of_bytes xs) = xs"
proof -
  have "le16 (of_le16 (take 2 (drop 86 xs))) = take 2 (drop 86 xs)"
    using assms by (intro le16_of_le16) simp
  then show ?thesis
    using cat_slices [OF assms] by (simp add: cat_bytes_def cat_of_bytes_def)
qed

lemma ntfy_bytes_of_bytes:
  assumes "length xs = 160"
  shows "ntfy_bytes (ntfy_of_bytes xs) = xs"
proof -
  have "take 64 (drop 0 xs) @ take 64 (drop 64 xs) @ take 16 (drop 128 xs) @ take 16 (drop 144 xs) =
        take 160 (drop 0 xs)"
    by (simp only: slice_join slice_join') (simp add: slice_join)
  then show ?thesis using assms by (simp add: ntfy_bytes_def ntfy_of_bytes_def)
qed

lemma slices_concat:
  "concat (map (\<lambda>i. take m (drop (k + m * i) bs)) [0..<n]) = take (m * n) (drop k bs)"
proof (induction n)
  case 0
  then show ?case by simp
next
  case (Suc n)
  have "take (m * n) (drop k bs) @ take m (drop (k + m * n) bs) = take (m * n + m) (drop k bs)"
    by (rule slice_join) simp
  then show ?case using Suc by (simp add: add.commute)
qed

lemma cats_of_bytes:
  assumes "k + 90 * n \<le> length bs"
  shows "concat (map cat_bytes (map (\<lambda>i. cat_of_bytes (take 90 (drop (k + 90 * i) bs))) [0..<n])) =
         take (90 * n) (drop k bs)"
proof -
  have "map cat_bytes (map (\<lambda>i. cat_of_bytes (take 90 (drop (k + 90 * i) bs))) [0..<n]) =
        map (\<lambda>i. take 90 (drop (k + 90 * i) bs)) [0..<n]"
  proof (simp only: map_map comp_def, rule map_cong [OF refl])
    fix i assume "i \<in> set [0..<n]"
    then have "i < n" by simp
    then have "90 * i + 90 \<le> 90 * n" by simp
    then have "length (take 90 (drop (k + 90 * i) bs)) = 90"
      using assms by simp
    then show "cat_bytes (cat_of_bytes (take 90 (drop (k + 90 * i) bs))) = take 90 (drop (k + 90 * i) bs)"
      by (rule cat_bytes_of_bytes)
  qed
  then show ?thesis by (simp only: slices_concat)
qed

lemma cfg_bytes_of_bytes:
  assumes "length bs = sizeof_cfg"
  shows "cfg_bytes (cfg_of_bytes bs) = bs"
proof -
  have l: "length bs = 1054" using assms by (simp add: sizeof_cfg_def)
  have m: "le32 (of_le32 (take 4 bs)) = take 4 (drop 0 bs)"
    using l by (simp add: le32_of_le32)
  have c: "le16 (of_le16 (take 2 (drop 1052 bs))) = take 2 (drop 1052 bs)"
    using l by (simp add: le16_of_le16)
  have n: "ntfy_bytes (ntfy_of_bytes (take 160 (drop 892 bs))) = take 160 (drop 892 bs)"
    using l by (simp add: ntfy_bytes_of_bytes)
  have k: "concat (map cat_bytes (map (\<lambda>i. cat_of_bytes (take 90 (drop (262 + 90 * i) bs))) [0..<CFG_NCATS])) =
           take 630 (drop 262 bs)"
    using cats_of_bytes [of 262 CFG_NCATS bs] l by (simp add: CFG_NCATS_def)
  have f: "[bs ! 261] = take 1 (drop 261 bs)"
    using l by (simp add: slice_one)
  have "take 4 (drop 0 bs) @ take 33 (drop 4 bs) @ take 64 (drop 37 bs) @ take 64 (drop 101 bs) @
        take 64 (drop 165 bs) @ take 32 (drop 229 bs) @ take 1 (drop 261 bs) @
        take 630 (drop 262 bs) @ take 160 (drop 892 bs) @ take 2 (drop 1052 bs) =
        take 1054 (drop 0 bs)"
    by (simp only: slice_join slice_join') (simp add: slice_join)
  then have "take 4 (drop 0 bs) @ take 33 (drop 4 bs) @ take 64 (drop 37 bs) @ take 64 (drop 101 bs) @
        take 64 (drop 165 bs) @ take 32 (drop 229 bs) @ take 1 (drop 261 bs) @
        take 630 (drop 262 bs) @ take 160 (drop 892 bs) @ take 2 (drop 1052 bs) = bs"
    using l by simp
  then show ?thesis
    unfolding cfg_bytes_def cfg_of_bytes_def
    by (simp only: cfg.simps m c n k f map_byte_char)
qed

lemma cat_of_bytes_bytes:
  assumes "length (cat_name e) = 20" "length (cat_topic e) = 64"
  shows "cat_of_bytes (cat_bytes e) = e"
  using assms by (simp add: cat_of_bytes_def cat_bytes_def nth_append)

lemma ntfy_of_bytes_bytes:
  assumes "length (ntfy_url n) = 64" "length (ntfy_topic n) = 64"
    "length (ntfy_username n) = 16" "length (ntfy_password n) = 16"
  shows "ntfy_of_bytes (ntfy_bytes n) = n"
  using assms by (simp add: ntfy_of_bytes_def ntfy_bytes_def)

lemma cat_slice:
  assumes "list_all (\<lambda>e. length (cat_name e) = 20 \<and> length (cat_topic e) = 64) cats"
    and "i < length cats"
  shows "take 90 (drop (90 * i) (concat (map cat_bytes cats) @ rest)) = cat_bytes (cats ! i)"
  using assms
proof (induction cats arbitrary: i)
  case Nil
  then show ?case by simp
next
  case (Cons e cats)
  have l: "length (cat_bytes e) = 90" using Cons.prems(1) by (simp add: cat_bytes_length)
  show ?case
  proof (cases i)
    case 0
    then show ?thesis using l by simp
  next
    case (Suc j)
    then have "take 90 (drop (90 * j) (concat (map cat_bytes cats) @ rest)) = cat_bytes (cats ! j)"
      using Cons.IH [of j] Cons.prems by simp
    then show ?thesis using Suc l by simp
  qed
qed

lemma cfg_of_bytes_bytes:
  assumes "cfg_sized c"
  shows "cfg_of_bytes (cfg_bytes c) = c"
proof -
  have s: "length (hostname c) = 33" "length (ssid c) = 64" "length (wpakey c) = 64"
    "length (ntpserver c) = 64" "length (timezone c) = 32" "length (cat c) = CFG_NCATS"
    "list_all (\<lambda>e. length (cat_name e) = 20 \<and> length (cat_topic e) = 64) (cat c)"
    using assms by (simp_all add: cfg_sized_def)
  define pre where "pre = le32 (magic c) @ map byte_of_char (hostname c) @ map byte_of_char (ssid c) @
     map byte_of_char (wpakey c) @ map byte_of_char (ntpserver c) @
     map byte_of_char (timezone c) @ [flags c]"
  define rest where "rest = ntfy_bytes (ntfy_conf c) @ le16 (crc c)"
  define cats where "cats = concat (map cat_bytes (cat c))"
  have b: "cfg_bytes c = pre @ cats @ rest"
    by (simp add: cfg_bytes_def pre_def rest_def cats_def)
  have pl: "length pre = 262" using s(1-5) by (simp add: pre_def)
  have cl: "length cats = 630"
    using cats_length [OF s(7)] s(6) by (simp add: CFG_NCATS_def cats_def)
  have n: "ntfy_of_bytes (ntfy_bytes (ntfy_conf c)) = ntfy_conf c"
    using assms by (intro ntfy_of_bytes_bytes) (simp_all add: cfg_sized_def)
  have nl: "length (ntfy_bytes (ntfy_conf c)) = 160"
    using assms by (simp add: ntfy_bytes_def cfg_sized_def)
  have "map (\<lambda>i. cat_of_bytes (take 90 (drop (90 * i) (cats @ rest)))) [0..<length (cat c)] =
        map (\<lambda>i. cat c ! i) [0..<length (cat c)]"
  proof (rule map_cong [OF refl])
    fix i assume "i \<in> set [0..<length (cat c)]"
    then have i: "i < length (cat c)" by simp
    then have len: "length (cat_name (cat c ! i)) = 20" "length (cat_topic (cat c ! i)) = 64"
      using s(7) by (simp_all add: list_all_length)
    have e: "take 90 (drop (90 * i) (cats @ rest)) = cat_bytes (cat c ! i)"
      unfolding cats_def by (rule cat_slice [OF s(7) i])
    show "cat_of_bytes (take 90 (drop (90 * i) (cats @ rest))) = cat c ! i"
      unfolding e using len by (rule cat_of_bytes_bytes)
  qed
  then have "map (\<lambda>i. cat_of_bytes (take 90 (drop (90 * i) (cats @ rest)))) [0..<length (cat c)] =
        cat c"
    by (simp only: map_nth)
  then have k: "map (\<lambda>i. cat_of_bytes (take 90 (drop (90 * i) (cats @ rest)))) [0..<CFG_NCATS] = cat c"
    by (simp only: s(6))
  have d: "drop (262 + 90 * i) (pre @ cats @ rest) = drop (90 * i) (cats @ rest)" for i
    using pl by (simp add: add.commute)
  have "cat (cfg_of_bytes (cfg_bytes c)) = cat c"
    by (simp only: cfg_of_bytes_def cfg.simps b d k)
  moreover have "ntfy_conf (cfg_of_bytes (cfg_bytes c)) = ntfy_conf c"
    using pl cl n nl by (simp add: cfg_of_bytes_def b rest_def)
  moreover have "crc (cfg_of_bytes (cfg_bytes c)) = crc c"
    using pl cl nl by (simp add: cfg_of_bytes_def b rest_def)
  moreover have "magic (cfg_of_bytes (cfg_bytes c)) = magic c"
    "hostname (cfg_of_bytes (cfg_bytes c)) = hostname c"
    "ssid (cfg_of_bytes (cfg_bytes c)) = ssid c"
    "wpakey (cfg_of_bytes (cfg_bytes c)) = wpakey c"
    "ntpserver (cfg_of_bytes (cfg_bytes c)) = ntpserver c"
    "timezone (cfg_of_bytes (cfg_bytes c)) = timezone c"
    "flags (cfg_of_bytes (cfg_bytes c)) = flags c"
    using s(1-5) by (simp_all add: cfg_of_bytes_def cfg_bytes_def nth_append)
  ultimately show ?thesis by (intro cfg.equality) simp_all
qed

lemma stored_intact_iff:
  assumes "sizeof_cfg \<le> length (data ee)"
  shows "cfg_intact ccitt (cfg_of_bytes (take sizeof_cfg (data ee))) = stored_intact ccitt ee"
proof -
  have l: "length (take sizeof_cfg (data ee)) = sizeof_cfg" using assms by simp
  have "cfg_bytes (cfg_of_bytes (take sizeof_cfg (data ee))) = take sizeof_cfg (data ee)"
    using l by (rule cfg_bytes_of_bytes)
  then have b: "take (sizeof_cfg - 2) (cfg_bytes (cfg_of_bytes (take sizeof_cfg (data ee)))) =
             take (sizeof_cfg - 2) (data ee)"
    by (simp add: min_def)
  have m: "magic (cfg_of_bytes (take sizeof_cfg (data ee))) = of_le32 (take 4 (data ee))"
    by (simp add: cfg_of_bytes_def sizeof_cfg_def)
  have c: "crc (cfg_of_bytes (take sizeof_cfg (data ee))) =
           of_le16 (take 2 (drop (sizeof_cfg - 2) (data ee)))"
    by (simp add: cfg_of_bytes_def sizeof_cfg_def of_le16_def take_drop)
  show ?thesis
    unfolding cfg_intact_def stored_intact_def b m c ..
qed

text \<open>
  C9. For an EEPROM buffer that holds at least the record: when the stored magic marker and
  the stored checksum (the checksum of all bytes of the record before the checksum field)
  both match, \<open>configInit\<close> returns the stored record and leaves the EEPROM as it is; when
  either does not, it returns the default record with its checksum filled in, writes that
  record's bytes over the stored ones and commits them. Either way the record in use
  passes the integrity check and is what the EEPROM buffer holds, and running
  \<open>configInit\<close> again on the resulting EEPROM gives the same result. The default record
  has seven all-zero slots and an empty network name and key.
\<close>

theorem configInit_integrity:
  assumes "sizeof_cfg \<le> length (data ee)"
  shows "(stored_intact ccitt ee \<longrightarrow>
            configInit ccitt mac ee = (cfg_of_bytes (take sizeof_cfg (data ee)), ee)) \<and>
         (\<not> stored_intact ccitt ee \<longrightarrow>
            configInit ccitt mac ee =
              (saved_default ccitt mac,
               \<lparr>data = cfg_bytes (saved_default ccitt mac) @ drop sizeof_cfg (data ee),
                flash = cfg_bytes (saved_default ccitt mac) @ drop sizeof_cfg (data ee)\<rparr>)) \<and>
         cfg_intact ccitt (fst (configInit ccitt mac ee)) \<and>
         take sizeof_cfg (data (snd (configInit ccitt mac ee))) =
           cfg_bytes (fst (configInit ccitt mac ee)) \<and>
         configInit ccitt mac (snd (configInit ccitt mac ee)) = configInit ccitt mac ee \<and>
         cat (saved_default ccitt mac) = replicate CFG_NCATS blank_cat \<and>
         ssid (saved_default ccitt mac) = replicate 64 NUL \<and>
         wpakey (saved_default ccitt mac) = replicate 64 NUL"
proof -
  let ?c = "cfg_of_bytes (take sizeof_cfg (data ee))"
  let ?d = "saved_default ccitt mac"
  let ?ee = "\<lparr>data = cfg_bytes ?d @ drop sizeof_cfg (data ee),
              flash = cfg_bytes ?d @ drop sizeof_cfg (data ee)\<rparr>"
  have rd: "map (EEPROM_read ee) [0..<sizeof_cfg] = take sizeof_cfg (data ee)"
    using assms by (rule read_loop)
  have sv: "configSave ccitt (configDefault mac) ee = (?d, ?ee)"
    using configSave_sized [OF default_sized assms, of ccitt mac] by (simp add: saved_default_def)
  have init: "configInit ccitt mac ee = (if cfg_intact ccitt ?c then (?c, ee) else (?d, ?ee))"
    by (auto simp add: configInit_def rd cfg_intact_def Let_def sv)
  have si: "cfg_intact ccitt ?c = stored_intact ccitt ee"
    using assms by (rule stored_intact_iff)
  have dl: "length (cfg_bytes ?d) = sizeof_cfg"
    using saved_default_sized by (rule sized_length)
  have di: "cfg_intact ccitt ?d" by (rule saved_default_intact)
  have a: "stored_intact ccitt ee \<longrightarrow> configInit ccitt mac ee = (?c, ee)"
    by (simp add: init si)
  have b: "\<not> stored_intact ccitt ee \<longrightarrow> configInit ccitt mac ee = (?d, ?ee)"
    by (simp add: init si)
  have c: "cfg_intact ccitt (fst (configInit ccitt mac ee))"
    using di by (simp add: init)
  have bytes_c: "cfg_bytes ?c = take sizeof_cfg (data ee)"
    using assms by (intro cfg_bytes_of_bytes) simp
  have d: "take sizeof_cfg (data (snd (configInit ccitt mac ee))) =
           cfg_bytes (fst (configInit ccitt mac ee))"
    using dl bytes_c by (simp add: init)
  have e: "configInit ccitt mac (snd (configInit ccitt mac ee)) = configInit ccitt mac ee"
  proof (cases "cfg_intact ccitt ?c")
    case True
    then show ?thesis by (simp add: init)
  next
    case False
    have l2: "sizeof_cfg \<le> length (data ?ee)" using dl by simp
    have "cfg_of_bytes (take sizeof_cfg (data ?ee)) = ?d"
      using dl cfg_of_bytes_bytes [OF saved_default_sized, of ccitt mac] by simp
    then have "configInit ccitt mac ?ee = (?d, ?ee)"
      using di l2 by (simp add: configInit_def read_loop cfg_intact_def Let_def)
    then show ?thesis using False by (simp add: init)
  qed
  have f: "cat ?d = replicate CFG_NCATS blank_cat" "ssid ?d = replicate 64 NUL"
    "wpakey ?d = replicate 64 NUL"
    by (simp_all add: saved_default_def default_fields)
  show ?thesis using a b c d e f by simp
qed

text \<open>The theorem on a factory-fresh EEPROM.\<close>

theorem configInit_integrity_witness:
  "fst (configInit crc16_ccitt ''5C:CF:7F:12:34:56'' blank_eeprom) =
     saved_default crc16_ccitt ''5C:CF:7F:12:34:56'' \<and>
   take sizeof_cfg (flash (snd (configInit crc16_ccitt ''5C:CF:7F:12:34:56'' blank_eeprom))) =
     cfg_bytes (saved_default crc16_ccitt ''5C:CF:7F:12:34:56'') \<and>
   configInit crc16_ccitt ''5C:CF:7F:12:34:56''
     (snd (configInit crc16_ccitt ''5C:CF:7F:12:34:56'' blank_eeprom)) =
     configInit crc16_ccitt ''5C:CF:7F:12:34:56'' blank_eeprom"
proof -
  have l: "sizeof_cfg \<le> length (data blank_eeprom)"
    by (simp add: blank_eeprom_def sizeof_cfg_def)
  have "of_le32 (take 4 (data blank_eeprom)) \<noteq> MAGIC"
    by (simp add: blank_eeprom_def of_le32_def MAGIC_def)
  then have n: "\<not> stored_intact crc16_ccitt blank_eeprom"
    by (simp add: stored_intact_def)
  have dl: "length (cfg_bytes (saved_default crc16_ccitt ''5C:CF:7F:12:34:56'')) = sizeof_cfg"
    using saved_default_sized by (rule sized_length)
  note t = configInit_integrity [OF l, of crc16_ccitt "''5C:CF:7F:12:34:56''"]
  have i: "configInit crc16_ccitt ''5C:CF:7F:12:34:56'' blank_eeprom =
      (saved_default crc16_ccitt ''5C:CF:7F:12:34:56'',
       \<lparr>data = cfg_bytes (saved_default crc16_ccitt ''5C:CF:7F:12:34:56'') @
                drop sizeof_cfg (data blank_eeprom),
        flash = cfg_bytes (saved_default crc16_ccitt ''5C:CF:7F:12:34:56'') @
                drop sizeof_cfg (data blank_eeprom)\<rparr>)"
    using t n by blast
  have e: "configInit crc16_ccitt ''5C:CF:7F:12:34:56''
             (snd (configInit crc16_ccitt ''5C:CF:7F:12:34:56'' blank_eeprom)) =
           configInit crc16_ccitt ''5C:CF:7F:12:34:56'' blank_eeprom"
    using t by blast
  have f: "fst (configInit crc16_ccitt ''5C:CF:7F:12:34:56'' blank_eeprom) =
           saved_default crc16_ccitt ''5C:CF:7F:12:34:56''"
    by (simp add: i)
  have g: "take sizeof_cfg (flash (snd (configInit crc16_ccitt ''5C:CF:7F:12:34:56'' blank_eeprom))) =
           cfg_bytes (saved_default crc16_ccitt ''5C:CF:7F:12:34:56'')"
    using dl by (simp add: i)
  show ?thesis using e f g by (intro conjI)
qed

text \<open>The checksum of the digits 1 to 9 is the check value of CRC-16/CCITT-FALSE.\<close>

lemma crc16_ccitt_check: "crc16_ccitt (map byte_of_char ''123456789'') = 0x29B1"
  by code_simp

end
